(* ===== verification/Prelude.thy ===== *)
theory Prelude
  imports Main "HOL-Library.AList" "HOL-Library.List_Lexorder" "HOL-Library.Char_ord"
    "HOL-Library.Word"
begin

text \<open>
  Shared vocabulary of the development: Go errors as values, Go calls as functions that take and
  return the state of the outside world, the combinators that translate
  \<open>x, err := f(); if err != nil { return ... }\<close>, and the rules about them that the component
  theories use.

  A Go function that returns \<open>(T, error)\<close> is a \<open>prog\<close>: it maps the world (cloud, cluster, clock,
  context) to a result and the next world. \<open>Ok x\<close> is a return with a nil error, \<open>Fail e\<close> a return
  with the error \<open>e\<close> (the Go code then returns the zero value of \<open>T\<close>), and \<open>Abort\<close> is an
  execution that does not return: a run-time panic (nil dereference, bad ticker interval), or a loop
  that has used up the fuel it was given.
\<close>

named_theorems prog_simps \<open>what a translated call does in a world\<close>
named_theorems pres_intros \<open>world invariants kept by translated calls\<close>

subsection \<open>Lists\<close>

lemma find_of_filter: "filter P xs = y # ys \<Longrightarrow> find P xs = Some y"
  by (induction xs) (auto split: if_splits)

subsection \<open>Errors\<close>

text \<open>The sentinel errors of the program (internal/address, cmd) and of package context.\<close>

datatype sentinel =
    ErrUnknownCloudProvider
  | ErrStaticIPAlreadyAssigned
  | ErrNoStaticIPAssigned
  | ErrNoPublicIPAssigned
  | ErrEmptyPath
  | ContextCanceled
  | ContextDeadlineExceeded

text \<open>A message is a format string with its arguments; the reason classifies Kubernetes API errors.\<close>

datatype msg = Msg string "string list"

datatype api_reason = AlreadyExists | NotFound | OtherReason

datatype op_error = OpError (op_messages: "string list")

datatype go_error =
    Sentinel sentinel
  | NewError msg
  | WrapError go_error msg
  | OperationErr string "op_error option"
  | ApiError api_reason string

text \<open>\<open>errors.Is\<close> for the targets the program uses, all of them sentinels: it follows the chain of
  wrapped errors down to the cause.\<close>

fun errors_is :: "go_error \<Rightarrow> sentinel \<Rightarrow> bool" where
  "errors_is (WrapError e _) t = errors_is e t"
| "errors_is (Sentinel s) t = (s = t)"
| "errors_is _ t = False"

definition wrap :: "string \<Rightarrow> string list \<Rightarrow> go_error \<Rightarrow> go_error" where
  "wrap fmt args e = WrapError e (Msg fmt args)"

definition new_error :: "string \<Rightarrow> string list \<Rightarrow> go_error" where
  "new_error fmt args = NewError (Msg fmt args)"

text \<open>\<open>errors.Wrap\<close> and \<open>errors.Wrapf\<close> of package pkg/errors return nil for a nil error.\<close>

definition errors_Wrap :: "go_error option \<Rightarrow> string \<Rightarrow> string list \<Rightarrow> go_error option" where
  "errors_Wrap err fmt args = map_option (wrap fmt args) err"

lemma errors_is_wrap [simp]: "errors_is (wrap fmt args e) t = errors_is e t"
  by (simp add: wrap_def)

lemma errors_is_new [simp]: "\<not> errors_is (new_error fmt args) t"
  by (simp add: new_error_def)

lemma errors_Wrap_nil [simp]: "errors_Wrap None fmt args = None"
  by (simp add: errors_Wrap_def)

subsection \<open>Results and calls\<close>

datatype abort = Panic | OutOfFuel

datatype 'a result = Ok 'a | Fail go_error | Abort abort

type_synonym ('w, 'a) prog = "'w \<Rightarrow> 'a result \<times> 'w"

definition ret :: "'a \<Rightarrow> ('w, 'a) prog" where
  "ret x = (\<lambda>w. (Ok x, w))"

definition throw :: "go_error \<Rightarrow> ('w, 'a) prog" where
  "throw e = (\<lambda>w. (Fail e, w))"

definition abort :: "abort \<Rightarrow> ('w, 'a) prog" where
  "abort a = (\<lambda>w. (Abort a, w))"

text \<open>\<open>attempt m h k\<close>: \<open>x, err := m(); if err != nil { h(err) } else { k(x) }\<close>.\<close>

definition attempt ::
  "('w, 'a) prog \<Rightarrow> (go_error \<Rightarrow> ('w, 'b) prog) \<Rightarrow> ('a \<Rightarrow> ('w, 'b) prog) \<Rightarrow> ('w, 'b) prog" where
  "attempt m h k = (\<lambda>w. case m w of
       (Ok x, w') \<Rightarrow> k x w'
     | (Fail e, w') \<Rightarrow> h e w'
     | (Abort a, w') \<Rightarrow> (Abort a, w'))"

text \<open>\<open>check m f k\<close>: \<open>x, err := m(); if err != nil { return f(err) }; k(x)\<close>.\<close>

definition check ::
  "('w, 'a) prog \<Rightarrow> (go_error \<Rightarrow> go_error) \<Rightarrow> ('a \<Rightarrow> ('w, 'b) prog) \<Rightarrow> ('w, 'b) prog" where
  "check m f k = attempt m (\<lambda>e. throw (f e)) k"

text \<open>A pure Go function called from an effectful one, and the dereference of a pointer.\<close>

definition lift :: "'a result \<Rightarrow> ('w, 'a) prog" where
  "lift r = (\<lambda>w. (r, w))"

definition deref :: "'a option \<Rightarrow> 'a result" where
  "deref p = (case p of None \<Rightarrow> Abort Panic | Some x \<Rightarrow> Ok x)"

text \<open>Reading something from the world (\<open>ctx.Err()\<close>, \<open>time.Now()\<close>) without changing it.\<close>

definition observe :: "('w \<Rightarrow> 'a) \<Rightarrow> ('a \<Rightarrow> ('w, 'b) prog) \<Rightarrow> ('w, 'b) prog" where
  "observe f k = (\<lambda>w. k (f w) w)"

text \<open>Sequencing of pure results: \<open>x, err := r; if err != nil { return f(err) }; k(x)\<close>.\<close>

definition rcheck :: "'a result \<Rightarrow> (go_error \<Rightarrow> go_error) \<Rightarrow> ('a \<Rightarrow> 'b result) \<Rightarrow> 'b result" where
  "rcheck r f k = (case r of Ok x \<Rightarrow> k x | Fail e \<Rightarrow> Fail (f e) | Abort a \<Rightarrow> Abort a)"

lemma ret_app [simp, prog_simps]: "ret x w = (Ok x, w)"
  by (simp add: ret_def)

lemma throw_app [simp, prog_simps]: "throw e w = (Fail e, w)"
  by (simp add: throw_def)

lemma abort_app [simp, prog_simps]: "abort a w = (Abort a, w)"
  by (simp add: abort_def)

lemma lift_app [simp, prog_simps]: "lift r w = (r, w)"
  by (simp add: lift_def)

lemma observe_app [simp, prog_simps]: "observe f k w = k (f w) w"
  by (simp add: observe_def)

lemma deref_simps [simp]: "deref None = Abort Panic" "deref (Some x) = Ok x"
  by (simp_all add: deref_def)

lemma deref_Ok_iff [simp]: "deref p = Ok x \<longleftrightarrow> p = Some x"
  by (cases p) simp_all

lemma deref_not_Fail [simp]: "deref p \<noteq> Fail e"
  by (cases p) simp_all

lemma rcheck_simps [simp]:
  "rcheck (Ok x) f k = k x" "rcheck (Fail e) f k = Fail (f e)" "rcheck (Abort a) f k = Abort a"
  by (simp_all add: rcheck_def)

lemma rcheck_Ok_iff: "rcheck r f k = Ok y \<longleftrightarrow> (\<exists>x. r = Ok x \<and> k x = Ok y)"
  by (cases r) simp_all

lemma attempt_Ok: "m w = (Ok x, w') \<Longrightarrow> attempt m h k w = k x w'"
  by (simp add: attempt_def)

lemma attempt_Fail: "m w = (Fail e, w') \<Longrightarrow> attempt m h k w = h e w'"
  by (simp add: attempt_def)

lemma attempt_Abort: "m w = (Abort a, w') \<Longrightarrow> attempt m h k w = (Abort a, w')"
  by (simp add: attempt_def)

lemmas attempt_simps [simp] = attempt_Ok attempt_Fail attempt_Abort

lemma check_Ok: "m w = (Ok x, w') \<Longrightarrow> check m f k w = k x w'"
  by (simp add: check_def)

lemma check_Fail: "m w = (Fail e, w') \<Longrightarrow> check m f k w = (Fail (f e), w')"
  by (simp add: check_def)

lemma check_Abort: "m w = (Abort a, w') \<Longrightarrow> check m f k w = (Abort a, w')"
  by (simp add: check_def)

lemmas check_simps [simp] = check_Ok check_Fail check_Abort

text \<open>Inversion of a call that returned: a checked call returns only through its continuation.\<close>

lemma check_OkE:
  assumes "check m f k w = (Ok y, w')"
  obtains x w1 where "m w = (Ok x, w1)" and "k x w1 = (Ok y, w')"
proof (cases "m w")
  case (Pair r w1)
  with assms that show ?thesis by (cases r) simp_all
qed

lemma check_Ok_iff: "check m f k w = (Ok y, w') \<longleftrightarrow> (\<exists>x w1. m w = (Ok x, w1) \<and> k x w1 = (Ok y, w'))"
  by (auto elim: check_OkE)

lemma attempt_Ok_iff: "attempt m h k w = (Ok y, w') \<longleftrightarrow>
    (\<exists>x w1. m w = (Ok x, w1) \<and> k x w1 = (Ok y, w')) \<or>
    (\<exists>e w1. m w = (Fail e, w1) \<and> h e w1 = (Ok y, w'))"
  by (auto simp: attempt_def split: prod.splits result.splits)

lemma option_throw_Ok_iff:
  "(case p of None \<Rightarrow> throw e | Some x \<Rightarrow> k x) w = (Ok y, w') \<longleftrightarrow>
     (\<exists>x. p = Some x \<and> k x w = (Ok y, w'))"
  by (cases p) simp_all

lemma if_throw_Ok_iff:
  "(if b then throw e else m) w = (Ok y, w') \<longleftrightarrow> \<not> b \<and> m w = (Ok y, w')"
  by simp

lemma list_throw_Ok_iff:
  "(case xs of [] \<Rightarrow> throw e | x # ys \<Rightarrow> k x ys) w = (Ok y, w') \<longleftrightarrow>
     (\<exists>x ys. xs = x # ys \<and> k x ys w = (Ok y, w'))"
  by (cases xs) simp_all

text \<open>How a translated call returned: the facts that turn \<open>f x w = (Ok y, w')\<close> into the calls made.\<close>

lemmas returned = check_Ok_iff option_throw_Ok_iff if_throw_Ok_iff list_throw_Ok_iff

lemma check_lift: "check (lift r) f k w =
    (case r of Ok x \<Rightarrow> k x w | Fail e \<Rightarrow> (Fail (f e), w) | Abort a \<Rightarrow> (Abort a, w))"
  by (cases r) (simp_all add: check_def attempt_def)

text \<open>The same for the other way of handling an error.\<close>

lemma attempt_cases:
  obtains (Ok) x w1 where "m w = (Ok x, w1)" "attempt m h k w = k x w1"
    | (Fail) e w1 where "m w = (Fail e, w1)" "attempt m h k w = h e w1"
    | (Abort) a w1 where "m w = (Abort a, w1)" "attempt m h k w = (Abort a, w1)"
proof (cases "m w")
  case (Pair r w1)
  with that show ?thesis by (cases r) simp_all
qed

subsection \<open>World invariants\<close>

text \<open>\<open>preserves I m\<close>: a call of \<open>m\<close> never leaves the set of worlds \<open>I\<close>, whether it returns a
  value, an error or panics. A function for which this holds for \<^emph>\<open>every\<close> \<open>I\<close> that some API calls
  keep makes no other change to the world than those API calls do.\<close>

definition preserves :: "('w \<Rightarrow> bool) \<Rightarrow> ('w, 'a) prog \<Rightarrow> bool" where
  "preserves I m \<longleftrightarrow> (\<forall>w. I w \<longrightarrow> I (snd (m w)))"

lemma preservesI: "(\<And>w. I w \<Longrightarrow> I (snd (m w))) \<Longrightarrow> preserves I m"
  by (simp add: preserves_def)

lemma preservesD: "preserves I m \<Longrightarrow> m w = (r, w') \<Longrightarrow> I w \<Longrightarrow> I w'"
  by (force simp: preserves_def)

lemma preserves_ret [pres_intros]: "preserves I (ret x)"
  by (simp add: preserves_def)

lemma preserves_Pair [simp, pres_intros]: "preserves I (Pair r)"
  by (simp add: preserves_def)

lemma preserves_throw [pres_intros]: "preserves I (throw e)"
  by (simp add: preserves_def)

lemma preserves_abort [pres_intros]: "preserves I (abort a)"
  by (simp add: preserves_def)

lemma preserves_lift [pres_intros]: "preserves I (lift r)"
  by (simp add: preserves_def)

lemma preserves_observe [pres_intros]: "(\<And>x. preserves I (k x)) \<Longrightarrow> preserves I (observe f k)"
  by (simp add: preserves_def)

lemma preserves_attempt [pres_intros]:
  assumes "preserves I m" "\<And>e. preserves I (h e)" "\<And>x. preserves I (k x)"
  shows "preserves I (attempt m h k)"
proof (rule preservesI)
  fix w assume "I w"
  with assms(1) have "I (snd (m w))" by (simp add: preserves_def)
  with assms(2,3) show "I (snd (attempt m h k w))"
    by (auto simp: attempt_def preserves_def split: prod.split result.split)
qed

lemma preserves_check [pres_intros]:
  assumes "preserves I m" "\<And>x. preserves I (k x)"
  shows "preserves I (check m f k)"
  unfolding check_def by (intro preserves_attempt preserves_throw assms)

lemma preserves_if [pres_intros]:
  "preserves I m \<Longrightarrow> preserves I n \<Longrightarrow> preserves I (if b then m else n)"
  by simp

lemma preserves_option [pres_intros]:
  "preserves I m \<Longrightarrow> (\<And>x. preserves I (n x)) \<Longrightarrow>
     preserves I (case p of None \<Rightarrow> m | Some x \<Rightarrow> n x)"
  by (simp split: option.split)

subsection \<open>Total correctness\<close>

text \<open>\<open>yields I m Q\<close>: from every world in \<open>I\<close> the call returns a value, with \<open>Q\<close> of it and the next world.
  \<open>settles I m Q E\<close>: it returns such a value or an error that leaves \<open>E\<close>; it does not panic.\<close>

definition yields :: "('w \<Rightarrow> bool) \<Rightarrow> ('w, 'a) prog \<Rightarrow> ('a \<Rightarrow> 'w \<Rightarrow> bool) \<Rightarrow> bool" where
  "yields I m Q \<longleftrightarrow> (\<forall>w. I w \<longrightarrow> (\<exists>x w'. m w = (Ok x, w') \<and> Q x w'))"

definition settles ::
  "('w \<Rightarrow> bool) \<Rightarrow> ('w, 'a) prog \<Rightarrow> ('a \<Rightarrow> 'w \<Rightarrow> bool) \<Rightarrow> ('w \<Rightarrow> bool) \<Rightarrow> bool" where
  "settles I m Q E \<longleftrightarrow> (\<forall>w. I w \<longrightarrow>
     (\<exists>x w'. m w = (Ok x, w') \<and> Q x w') \<or> (\<exists>e w'. m w = (Fail e, w') \<and> E w'))"

lemma yieldsE:
  assumes "yields I m Q" "I w"
  obtains x w' where "m w = (Ok x, w')" "Q x w'"
  using assms unfolding yields_def by blast

lemma settlesE:
  assumes "settles I m Q E" "I w"
  obtains x w' where "m w = (Ok x, w')" "Q x w'" | e w' where "m w = (Fail e, w')" "E w'"
  using assms unfolding settles_def by blast

lemma yields_settles: "yields I m Q \<Longrightarrow> settles I m Q E"
  unfolding yields_def settles_def by blast

lemma yields_assume: "(P \<Longrightarrow> yields I m Q) \<Longrightarrow> yields (\<lambda>w. P \<and> I w) m Q"
  unfolding yields_def by blast

lemma yields_False [simp]: "yields (\<lambda>w. False) m Q"
  by (simp add: yields_def)

lemma yields_ret: "(\<And>w. I w \<Longrightarrow> Q x w) \<Longrightarrow> yields I (ret x) Q"
  by (simp add: yields_def)

lemma settles_throw: "(\<And>w. I w \<Longrightarrow> E w) \<Longrightarrow> settles I (throw e) Q E"
  by (simp add: settles_def)

lemma yields_attempt:
  assumes "settles I m Q E" "\<And>e. yields E (h e) R" "\<And>x. yields (Q x) (k x) R"
  shows "yields I (attempt m h k) R"
proof (unfold yields_def, intro allI impI)
  fix w assume "I w"
  with assms(1) show "\<exists>y w'. attempt m h k w = (Ok y, w') \<and> R y w'"
  proof (cases rule: settlesE)
    case (1 x w')
    from assms(3) 1(2) obtain y v where "k x w' = (Ok y, v)" "R y v" by (rule yieldsE)
    with 1(1) show ?thesis by simp
  next
    case (2 e w')
    from assms(2) 2(2) obtain y v where "h e w' = (Ok y, v)" "R y v" by (rule yieldsE)
    with 2(1) show ?thesis by simp
  qed
qed

lemma yields_attempt_Ok:
  assumes "yields I m Q" "\<And>x. yields (Q x) (k x) R"
  shows "yields I (attempt m h k) R"
  by (rule yields_attempt [OF yields_settles [OF assms(1)] yields_False assms(2)])

lemma yields_check:
  assumes "yields I m Q" "\<And>x. yields (Q x) (k x) R"
  shows "yields I (check m f k) R"
  unfolding check_def using assms by (rule yields_attempt_Ok)

text \<open>A call whose value has a property that does not depend on the world.\<close>

lemma yields_check_pure:
  assumes "yields I m (\<lambda>x w. P x \<and> J w)" "\<And>x. P x \<Longrightarrow> yields J (k x) R"
  shows "yields I (check m f k) R"
  using assms(1) by (rule yields_check) (rule yields_assume [OF assms(2)])

lemma yields_check_lift:
  "r = Ok x \<Longrightarrow> yields I (k x) R \<Longrightarrow> yields I (check (lift r) f k) R"
  by (simp add: yields_def)

lemma settles_attempt:
  assumes "settles I m Q E" "\<And>e. settles E (h e) R F" "\<And>x. settles (Q x) (k x) R F"
  shows "settles I (attempt m h k) R F"
proof (unfold settles_def, intro allI impI)
  fix w assume "I w"
  with assms(1) show "(\<exists>y w'. attempt m h k w = (Ok y, w') \<and> R y w') \<or>
      (\<exists>e w'. attempt m h k w = (Fail e, w') \<and> F w')"
  proof (cases rule: settlesE)
    case (1 x w')
    show ?thesis by (rule settlesE [OF assms(3) [of x] 1(2)]) (simp_all add: 1(1))
  next
    case (2 e w')
    show ?thesis by (rule settlesE [OF assms(2) [of e] 2(2)]) (simp_all add: 2(1))
  qed
qed

lemma settles_check:
  assumes "settles I m Q E" "\<And>x. settles (Q x) (k x) R E"
  shows "settles I (check m f k) R E"
  unfolding check_def by (rule settles_attempt [OF assms(1) settles_throw assms(2)])

lemma settles_check_pure:
  assumes "settles I m (\<lambda>x w. P x \<and> E w) E" "\<And>x. P x \<Longrightarrow> settles E (k x) R E"
  shows "settles I (check m f k) R E"
  using assms(1) by (rule settles_check) (use assms(2) in \<open>auto simp: settles_def\<close>)

lemma settles_check_lift:
  "r = Ok x \<Longrightarrow> settles I (k x) R E \<Longrightarrow> settles I (check (lift r) f k) R E"
  by (simp add: settles_def)

subsection \<open>Go integers\<close>

text \<open>\<open>int\<close>, \<open>int64\<close> and \<open>time.Duration\<close> are 64-bit two's complement on the platforms the agent is
  built for; \<open>slt\<close> and \<open>sle\<close> are the signed comparisons.\<close>

type_synonym go_int = "64 word"

definition slt :: "go_int \<Rightarrow> go_int \<Rightarrow> bool" where
  "slt a b \<longleftrightarrow> sint a < sint b"

definition sle :: "go_int \<Rightarrow> go_int \<Rightarrow> bool" where
  "sle a b \<longleftrightarrow> sint a \<le> sint b"

subsection \<open>Contexts\<close>

text \<open>\<open>context.Context\<close>: what \<open>ctx.Err()\<close> says in a world, and the deadline handed to API calls.
  \<open>WithTimeout\<close> derives a context that ends with its parent or at its own deadline.\<close>

record 'w go_context =
  ctx_Err :: "'w \<Rightarrow> go_error option"
  ctx_Deadline :: "int option"

definition WithTimeout :: "('w \<Rightarrow> int) \<Rightarrow> int \<Rightarrow> 'w go_context \<Rightarrow> go_int \<Rightarrow> 'w go_context" where
  "WithTimeout now t0 c timeout =
     (let d = (case ctx_Deadline c of None \<Rightarrow> t0 + sint timeout | Some e \<Rightarrow> min e (t0 + sint timeout)) in
      \<lparr>ctx_Err = (\<lambda>w. case ctx_Err c w of
          Some e \<Rightarrow> Some e
        | None \<Rightarrow> if d \<le> now w then Some (Sentinel ContextDeadlineExceeded) else None),
       ctx_Deadline = Some d\<rparr>)"

end
