(* ===== verification/GoStrings.thy ===== *)
theory GoStrings
  imports Prelude
begin

text \<open>
  The functions of Go's package strings that the program uses, on byte strings: HasPrefix,
  TrimPrefix, Split and SplitN for a one-byte separator, and Join. The lemmas say how they undo
  each other; the parsers of filters and provider IDs rest on them.
\<close>

definition HasPrefix :: "string \<Rightarrow> string \<Rightarrow> bool" where
  "HasPrefix s p \<longleftrightarrow> take (length p) s = p"

definition TrimPrefix :: "string \<Rightarrow> string \<Rightarrow> string" where
  "TrimPrefix s p = (if HasPrefix s p then drop (length p) s else s)"

text \<open>\<open>strings.Split(s, sep)\<close>: never empty, one part more than there are separators.\<close>

fun Split :: "string \<Rightarrow> char \<Rightarrow> string list" where
  "Split [] c = [[]]"
| "Split (x # xs) c =
     (if x = c then [] # Split xs c
      else (case Split xs c of [] \<Rightarrow> [[x]] | y # ys \<Rightarrow> (x # y) # ys))"

text \<open>\<open>strings.SplitN(s, sep, n)\<close>: at most \<open>n\<close> parts, the last one is the unsplit rest.\<close>

fun SplitN :: "string \<Rightarrow> char \<Rightarrow> nat \<Rightarrow> string list" where
  "SplitN s c 0 = []"
| "SplitN s c (Suc 0) = [s]"
| "SplitN s c (Suc (Suc n)) =
     (case dropWhile (\<lambda>x. x \<noteq> c) s of
        [] \<Rightarrow> [s]
      | _ # rest \<Rightarrow> takeWhile (\<lambda>x. x \<noteq> c) s # SplitN rest c (Suc n))"

fun Join :: "string list \<Rightarrow> string \<Rightarrow> string" where
  "Join [] sep = []"
| "Join [x] sep = x"
| "Join (x # y # ys) sep = x @ sep @ Join (y # ys) sep"

lemma HasPrefix_append [simp]: "HasPrefix (p @ s) p"
  by (simp add: HasPrefix_def)

lemma HasPrefix_iff: "HasPrefix s p \<longleftrightarrow> (\<exists>r. s = p @ r)"
  by (metis HasPrefix_append HasPrefix_def append_take_drop_id)

lemma TrimPrefix_append [simp]: "TrimPrefix (p @ s) p = s"
  by (simp add: TrimPrefix_def)

lemma Split_nonempty [simp]: "Split s c \<noteq> []"
  by (cases s) (auto split: list.split)

lemma Split_no_sep: "c \<notin> set s \<Longrightarrow> Split s c = [s]"
  by (induction s) auto

lemma Split_sep_append: "c \<notin> set p \<Longrightarrow> Split (p @ c # s) c = p # Split s c"
  by (induction p) auto

lemma Join_Cons: "Join (x # xs) sep = (if xs = [] then x else x @ sep @ Join xs sep)"
  by (cases xs) simp_all

lemma Join_Split: "Join (Split s c) [c] = s"
proof (induction s)
  case Nil
  then show ?case by simp
next
  case (Cons x xs)
  then show ?case
    by (cases "Split xs c") (auto simp: Join_Cons)
qed

lemma Split_parts_no_sep: "\<forall>p \<in> set (Split s c). c \<notin> set p"
proof (induction s)
  case Nil
  then show ?case by simp
next
  case (Cons x xs)
  then show ?case by (cases "Split xs c") auto
qed

lemma Split_Join: "xs \<noteq> [] \<Longrightarrow> \<forall>p \<in> set xs. c \<notin> set p \<Longrightarrow> Split (Join xs [c]) c = xs"
proof (induction xs)
  case Nil
  then show ?case by simp
next
  case (Cons x xs)
  then show ?case
    by (cases "xs = []") (simp_all add: Join_Cons Split_no_sep Split_sep_append)
qed

lemma Split_two_iff:
  "Split s c = [a, b] \<longleftrightarrow> c \<notin> set a \<and> c \<notin> set b \<and> s = a @ c # b"
proof
  assume "Split s c = [a, b]"
  then show "c \<notin> set a \<and> c \<notin> set b \<and> s = a @ c # b"
    using Join_Split [of s c] Split_parts_no_sep [of s c] by simp
next
  assume "c \<notin> set a \<and> c \<notin> set b \<and> s = a @ c # b"
  then show "Split s c = [a, b]" by (simp add: Split_sep_append Split_no_sep)
qed

text \<open>Splitting once: a string with a separator is cut at the first one.\<close>

lemma SplitN_2: "SplitN s c 2 =
    (case dropWhile (\<lambda>x. x \<noteq> c) s of
       [] \<Rightarrow> [s] | _ # rest \<Rightarrow> [takeWhile (\<lambda>x. x \<noteq> c) s, rest])"
  by (cases "dropWhile (\<lambda>x. x \<noteq> c) s")
    (simp_all add: numeral_2_eq_2 del: dropWhile_eq_Nil_conv)

lemma SplitN_2_cut: "c \<notin> set a \<Longrightarrow> SplitN (a @ c # b) c 2 = [a, b]"
  by (simp add: SplitN_2 takeWhile_append dropWhile_append)

lemma SplitN_2_no_sep: "c \<notin> set s \<Longrightarrow> SplitN s c 2 = [s]"
proof -
  assume "c \<notin> set s"
  then have "dropWhile (\<lambda>x. x \<noteq> c) s = []" by auto
  then show ?thesis by (simp add: SplitN_2 del: dropWhile_eq_Nil_conv)
qed

lemma SplitN_2_iff: "SplitN s c 2 = [a, b] \<longleftrightarrow> c \<notin> set a \<and> s = a @ c # b"
proof
  assume *: "SplitN s c 2 = [a, b]"
  show "c \<notin> set a \<and> s = a @ c # b"
  proof (cases "c \<in> set s")
    case True
    then obtain a' b' where "s = a' @ c # b'" and "c \<notin> set a'"
      by (meson split_list_first)
    with * show ?thesis by (simp add: SplitN_2_cut)
  next
    case False
    with * show ?thesis by (simp add: SplitN_2_no_sep)
  qed
next
  assume "c \<notin> set a \<and> s = a @ c # b"
  then show "SplitN s c 2 = [a, b]" by (simp add: SplitN_2_cut)
qed

lemma SplitN_2_length: "length (SplitN s c 2) = 2 \<longleftrightarrow> c \<in> set s"
proof (cases "c \<in> set s")
  case True
  then obtain a b where "s = a @ c # b" and "c \<notin> set a"
    by (meson split_list_first)
  then show ?thesis by (simp add: SplitN_2_cut)
next
  case False
  then show ?thesis by (simp add: SplitN_2_no_sep)
qed

text \<open>The last part of a split, as \<open>s[len(s)-1]\<close> reads it: what follows the last separator.\<close>

lemma last_Split_no_sep: "c \<notin> set (last (Split s c))"
  using Split_parts_no_sep [of s c] by (meson Split_nonempty last_in_set)

lemma Split_append: "Split (a @ c # b) c = Split a c @ Split b c"
proof (induction a)
  case Nil
  then show ?case by simp
next
  case (Cons x xs)
  then show ?case by (cases "Split xs c") auto
qed

lemma Split_append_last: "c \<notin> set b \<Longrightarrow> last (Split (a @ c # b) c) = b"
  by (simp add: Split_append Split_no_sep)

lemma length_Split: "length (Split s c) = Suc (count_list s c)"
proof (induction s)
  case Nil
  then show ?case by simp
next
  case (Cons x xs)
  then show ?case by (cases "Split xs c") auto
qed

lemma length_2_iff: "length xs = 2 \<longleftrightarrow> (\<exists>a b. xs = [a, b])"
  by (auto simp: numeral_2_eq_2 length_Suc_conv)

end
