(* ===== verification/CloudAws.thy ===== *)
theory CloudAws
  imports GoStrings
begin

text \<open>
  internal/cloud/aws_lister.go, aws_address.go and aws_instance.go: the three thin services over the
  EC2 client. The client itself (package aws-sdk-go-v2) is the parameter record \<open>ec2_client\<close>, one
  field per API call the code makes; pointers of the SDK types are options. The order in which a Go
  range loop walks a map is a parameter too (\<open>ord\<close>, it may differ from call to call).
\<close>

record ec2_tag =
  Tag_Key :: "string option"
  Tag_Value :: "string option"

record ec2_address =
  AllocationId :: "string option"
  AssociationId :: "string option"
  Domain :: string
  InstanceId :: "string option"
  NetworkInterfaceId :: "string option"
  NetworkInterfaceOwnerId :: "string option"
  PrivateIpAddress :: "string option"
  PublicIp :: "string option"
  PublicIpv4Pool :: "string option"
  Tags :: "ec2_tag list option"

record ec2_association =
  assoc_PublicIp :: "string option"

record ec2_attachment =
  att_DeviceIndex :: "32 word option"

record ec2_interface =
  ni_Association :: "ec2_association option"
  ni_Attachment :: "ec2_attachment option"
  ni_NetworkInterfaceId :: "string option"

record ec2_instance =
  inst_InstanceId :: "string option"
  inst_NetworkInterfaces :: "ec2_interface list"

type_synonym ec2_filters = "(string \<times> string list) list"

record 'w ec2_client =
  DescribeAddresses :: "ec2_filters \<Rightarrow> ('w, ec2_address list) prog"
  DescribeInstances :: "string list \<Rightarrow> ('w, ec2_instance list list) prog"
  AssociateAddress :: "string \<Rightarrow> string \<Rightarrow> bool \<Rightarrow> ('w, unit) prog"
  DisassociateAddress :: "string \<Rightarrow> ('w, unit) prog"

text \<open>\<open>eipLister.List\<close>: the API filter is the map of the caller as a list, in map iteration order; the
  answer is filtered by whether the address is associated.\<close>

definition eipLister_List ::
  "'w ec2_client \<Rightarrow> ('w \<Rightarrow> ec2_filters \<Rightarrow> ec2_filters) \<Rightarrow>
   ec2_filters \<Rightarrow> bool \<Rightarrow> ('w, ec2_address list) prog" where
  "eipLister_List client ord filt inUse =
     check (observe (\<lambda>w. ord w filt) (\<lambda>filters. DescribeAddresses client filters))
       (wrap ''failed to list elastic IPs'' []) (\<lambda>list.
     ret (filter (\<lambda>address. (inUse \<and> AssociationId address \<noteq> None) \<or>
                            (\<not> inUse \<and> AssociationId address = None)) list))"

text \<open>\<open>eipAssigner.Assign\<close> and \<open>Unassign\<close>.\<close>

definition eipAssigner_Assign :: "'w ec2_client \<Rightarrow> string \<Rightarrow> string \<Rightarrow> ('w, unit) prog" where
  "eipAssigner_Assign client networkInterfaceID allocationID =
     check (AssociateAddress client allocationID networkInterfaceID False)
       (wrap ''failed to associate elastic IP with the instance'' []) (\<lambda>_. ret ())"

definition eipAssigner_Unassign :: "'w ec2_client \<Rightarrow> string \<Rightarrow> ('w, unit) prog" where
  "eipAssigner_Unassign client associationID =
     check (DisassociateAddress client associationID)
       (wrap ''failed to disassociate elastic IP from the instance'' []) (\<lambda>_. ret ())"

text \<open>\<open>ec2InstanceGetter.Get\<close>: the result is a pointer. When the API answers without an instance the
  code returns \<open>errors.Wrap(err, ...)\<close> with the nil error of the successful call.\<close>

definition ec2InstanceGetter_Get ::
  "'w ec2_client \<Rightarrow> string \<Rightarrow> string \<Rightarrow> ('w, ec2_instance option) prog" where
  "ec2InstanceGetter_Get client instanceID region =
     check (DescribeInstances client [instanceID]) (wrap ''failed to describe instances, %v'' [])
       (\<lambda>reservations. case reservations of
           (inst # _) # _ \<Rightarrow> ret (Some inst)
         | _ \<Rightarrow> (case errors_Wrap None ''no instances found for the given id'' [] of
                  None \<Rightarrow> ret None
                | Some e \<Rightarrow> throw e))"

text \<open>The \<open>EipLister\<close> interface as its client reads it: the in-use flag selects exactly the addresses
  with an association, or exactly those without.\<close>

locale eip_lister =
  fixes list :: "ec2_filters \<Rightarrow> bool \<Rightarrow> ('w, ec2_address list) prog"
  assumes list_in_use: "list filt inUse w = (Ok xs, w') \<Longrightarrow> a \<in> set xs \<Longrightarrow>
    (AssociationId a \<noteq> None) = inUse"
begin

lemma list_available: "list filt False w = (Ok xs, w') \<Longrightarrow> a \<in> set xs \<Longrightarrow> AssociationId a = None"
  using list_in_use by blast

lemma list_assigned: "list filt True w = (Ok xs, w') \<Longrightarrow> a \<in> set xs \<Longrightarrow> \<exists>i. AssociationId a = Some i"
  using list_in_use by blast

end

interpretation aws_lister: eip_lister "eipLister_List client ord" for client ord
  by unfold_locales (auto simp: eipLister_List_def returned)

lemma eipLister_List_Ok_iff:
  "eipLister_List client ord filt inUse w = (Ok xs, w') \<longleftrightarrow>
     (\<exists>ys. DescribeAddresses client (ord w filt) w = (Ok ys, w') \<and>
        xs = filter (\<lambda>a. (AssociationId a \<noteq> None) = inUse) ys)"
  by (cases inUse) (auto simp: eipLister_List_def returned)

lemma eipLister_List_none_in_use:
  "eipLister_List client ord filt True w = (Ok [], w') \<longleftrightarrow>
     (\<exists>ys. DescribeAddresses client (ord w filt) w = (Ok ys, w') \<and> (\<forall>z \<in> set ys. AssociationId z = None))"
  by (auto simp: eipLister_List_Ok_iff filter_empty_conv eq_commute [of "[]"])

lemma preserves_eipLister_List [pres_intros]:
  "(\<And>f. preserves I (DescribeAddresses client f)) \<Longrightarrow> preserves I (eipLister_List client ord filt u)"
  unfolding eipLister_List_def by (intro pres_intros)

lemma preserves_eipAssigner_Assign [pres_intros]:
  "(\<And>al ni. preserves I (AssociateAddress client al ni False)) \<Longrightarrow>
     preserves I (eipAssigner_Assign client ni al)"
  unfolding eipAssigner_Assign_def by (intro pres_intros)

lemma preserves_eipAssigner_Unassign [pres_intros]:
  "(\<And>i. preserves I (DisassociateAddress client i)) \<Longrightarrow> preserves I (eipAssigner_Unassign client i)"
  unfolding eipAssigner_Unassign_def by (intro pres_intros)

lemma preserves_ec2InstanceGetter_Get [pres_intros]:
  "(\<And>ids. preserves I (DescribeInstances client ids)) \<Longrightarrow>
     preserves I (ec2InstanceGetter_Get client i r)"
  unfolding ec2InstanceGetter_Get_def
  by (intro pres_intros) (auto intro: pres_intros split: list.split)

end
