(* ===== verification/GoSort.thy ===== *)
theory GoSort
  imports Prelude "HOL-Library.Multiset"
begin

text \<open>
  \<open>sort.Slice\<close> of Go's standard library with a comparison function that may panic (\<open>None\<close>). Up to
  twelve elements the library runs an insertion sort, which is translated here; longer slices go
  through a pattern-defeating quicksort, which stays a parameter \<open>big\<close> of the model. Both sides of
  the interface are the locale \<open>slice_sort\<close>: a permutation of the input comes out, in order when the
  comparison is a strict weak order on the elements; and as every element of a slice with two or
  more elements is compared at least once, a comparison that panics whenever one particular element
  is involved makes the sort panic.
\<close>

type_synonym 'a less_fn = "'a \<Rightarrow> 'a \<Rightarrow> bool option"
type_synonym 'a slice_sorter = "'a less_fn \<Rightarrow> 'a list \<Rightarrow> 'a list option"

text \<open>The inner loop of \<open>insertionSort_func\<close>: \<open>x\<close> moves left past the elements it is less than; the
  sorted prefix is given from right to left.\<close>

fun sift_left :: "'a less_fn \<Rightarrow> 'a \<Rightarrow> 'a list \<Rightarrow> 'a list option" where
  "sift_left lss x [] = Some [x]"
| "sift_left lss x (y # ys) =
     (case lss x y of
        None \<Rightarrow> None
      | Some True \<Rightarrow> map_option (Cons y) (sift_left lss x ys)
      | Some False \<Rightarrow> Some (x # y # ys))"

fun insertion_loop :: "'a less_fn \<Rightarrow> 'a list \<Rightarrow> 'a list \<Rightarrow> 'a list option" where
  "insertion_loop lss rprefix [] = Some (rev rprefix)"
| "insertion_loop lss rprefix (x # xs) =
     (case sift_left lss x rprefix of
        None \<Rightarrow> None
      | Some rprefix' \<Rightarrow> insertion_loop lss rprefix' xs)"

definition insertionSort_func :: "'a slice_sorter" where
  "insertionSort_func lss xs = insertion_loop lss [] xs"

definition maxInsertion :: nat where "maxInsertion = 12"

definition sort_Slice :: "'a slice_sorter \<Rightarrow> 'a slice_sorter" where
  "sort_Slice big lss xs =
     (if length xs \<le> maxInsertion then insertionSort_func lss xs else big lss xs)"

text \<open>The comparison of two elements, both ways round, does not panic; a strict weak order on a set,
  with the negation of \<open>lss\<close> (the elements that may come in any order) transitive.\<close>

definition less_total :: "'a less_fn \<Rightarrow> 'a set \<Rightarrow> bool" where
  "less_total lss A \<longleftrightarrow> (\<forall>x \<in> A. \<forall>y \<in> A. lss x y \<noteq> None)"

definition lt :: "'a less_fn \<Rightarrow> 'a \<Rightarrow> 'a \<Rightarrow> bool" where
  "lt lss x y \<longleftrightarrow> lss x y = Some True"

definition strict_weak_on :: "'a less_fn \<Rightarrow> 'a set \<Rightarrow> bool" where
  "strict_weak_on lss A \<longleftrightarrow>
     (\<forall>x \<in> A. \<forall>y \<in> A. lt lss x y \<longrightarrow> \<not> lt lss y x) \<and>
     (\<forall>x \<in> A. \<forall>y \<in> A. \<forall>z \<in> A. \<not> lt lss x y \<longrightarrow> \<not> lt lss y z \<longrightarrow> \<not> lt lss x z)"

lemma strict_weak_subset: "strict_weak_on lss B \<Longrightarrow> A \<subseteq> B \<Longrightarrow> strict_weak_on lss A"
  unfolding strict_weak_on_def by (meson subsetD)

lemma strict_weak_asym:
  "strict_weak_on lss A \<Longrightarrow> x \<in> A \<Longrightarrow> y \<in> A \<Longrightarrow> lt lss x y \<Longrightarrow> \<not> lt lss y x"
  unfolding strict_weak_on_def by blast

lemma strict_weak_trans:
  "strict_weak_on lss A \<Longrightarrow> x \<in> A \<Longrightarrow> y \<in> A \<Longrightarrow> z \<in> A \<Longrightarrow>
     \<not> lt lss x y \<Longrightarrow> \<not> lt lss y z \<Longrightarrow> \<not> lt lss x z"
  unfolding strict_weak_on_def by blast

definition in_order :: "'a less_fn \<Rightarrow> 'a list \<Rightarrow> bool" where
  "in_order lss xs \<longleftrightarrow> sorted_wrt (\<lambda>x y. \<not> lt lss y x) xs"

definition panics_at :: "'a less_fn \<Rightarrow> 'a \<Rightarrow> bool" where
  "panics_at lss x \<longleftrightarrow> (\<forall>y. lss x y = None \<and> lss y x = None)"

locale slice_sort =
  fixes sort :: "'a slice_sorter"
  assumes sort_perm: "sort lss xs = Some ys \<Longrightarrow> mset ys = mset xs"
    and sort_total: "less_total lss (set xs) \<Longrightarrow> \<exists>ys. sort lss xs = Some ys"
    and sort_order: "strict_weak_on lss (set xs) \<Longrightarrow> sort lss xs = Some ys \<Longrightarrow> in_order lss ys"
    and sort_panics: "x \<in> set xs \<Longrightarrow> panics_at lss x \<Longrightarrow> 2 \<le> length xs \<Longrightarrow> sort lss xs = None"
begin

lemma sort_set: "sort lss xs = Some ys \<Longrightarrow> set ys = set xs"
  by (metis sort_perm set_mset_mset)

lemma sort_length: "sort lss xs = Some ys \<Longrightarrow> length ys = length xs"
  by (metis sort_perm size_mset)

text \<open>Sorting by a key that every element has: the comparison of all the fields the program sorts by.\<close>

lemma sort_by_key_on:
  fixes key :: "'a \<Rightarrow> 'k :: linorder option"
  assumes lss: "\<And>x y. x \<in> set xs \<Longrightarrow> y \<in> set xs \<Longrightarrow> lss x y = Some (the (key x) < the (key y))"
  shows "\<exists>ys. sort lss xs = Some ys \<and> mset ys = mset xs \<and> sorted (map (the \<circ> key) ys)"
proof -
  have "less_total lss (set xs)" by (auto simp: less_total_def lss)
  then obtain ys where ys: "sort lss xs = Some ys" using sort_total by blast
  have lt_key: "lt lss x y \<longleftrightarrow> the (key x) < the (key y)" if "x \<in> set xs" "y \<in> set xs" for x y
    using that by (simp add: lt_def lss)
  have "strict_weak_on lss (set xs)" by (auto simp: strict_weak_on_def lt_key)
  from this ys have "in_order lss ys" by (rule sort_order)
  then have "sorted_wrt (\<lambda>x y. the (key x) \<le> the (key y)) ys"
    unfolding in_order_def
    by (rule sorted_wrt_mono_rel [rotated]) (simp add: lt_key sort_set [OF ys] not_less)
  then have "sorted (map (the \<circ> key) ys)" by (simp add: sorted_map)
  with ys show ?thesis by (blast intro: sort_perm)
qed

lemma sort_by_key:
  fixes key :: "'a \<Rightarrow> 'k :: linorder option"
  assumes lss: "\<And>x y. lss x y =
      (case (key x, key y) of (Some k, Some l) \<Rightarrow> Some (k < l) | _ \<Rightarrow> None)"
    and keys: "\<forall>x \<in> set xs. key x \<noteq> None"
  shows "\<exists>ys. sort lss xs = Some ys \<and> mset ys = mset xs \<and> sorted (map (the \<circ> key) ys)"
proof (rule sort_by_key_on)
  fix x y assume "x \<in> set xs" "y \<in> set xs"
  with keys obtain k l where "key x = Some k" "key y = Some l" by blast
  then show "lss x y = Some (the (key x) < the (key y))" by (simp add: lss)
qed

text \<open>A key that is missing in one of two or more elements makes the sort panic.\<close>

lemma sort_by_missing_key:
  assumes lss: "\<And>x y. lss x y =
      (case (key x, key y) of (Some k, Some l) \<Rightarrow> Some (cmp k l) | _ \<Rightarrow> None)"
    and "x \<in> set xs" "key x = None" "2 \<le> length xs"
  shows "sort lss xs = None"
proof -
  have "panics_at lss x"
    using assms(3) by (auto simp: panics_at_def lss split: option.split)
  with assms show ?thesis by (blast intro: sort_panics)
qed

end

subsection \<open>The insertion sort meets the contract\<close>

lemma mset_sift_left: "sift_left lss x ys = Some zs \<Longrightarrow> mset zs = add_mset x (mset ys)"
  by (induction ys arbitrary: zs) (auto split: option.splits bool.splits)

lemma mset_insertion_loop:
  "insertion_loop lss acc xs = Some ys \<Longrightarrow> mset ys = mset acc + mset xs"
  by (induction xs arbitrary: acc) (auto split: option.splits dest: mset_sift_left)

lemma set_sift_left: "sift_left lss x ys = Some zs \<Longrightarrow> set zs = insert x (set ys)"
  by (metis mset_sift_left set_mset_add_mset_insert set_mset_mset)

lemma sift_left_total:
  "less_total lss (insert x (set ys)) \<Longrightarrow> \<exists>zs. sift_left lss x ys = Some zs"
  by (induction ys) (auto simp: less_total_def split: option.split bool.split)

lemma insertion_loop_total:
  "less_total lss (set acc \<union> set xs) \<Longrightarrow> \<exists>ys. insertion_loop lss acc xs = Some ys"
proof (induction xs arbitrary: acc)
  case Nil
  then show ?case by simp
next
  case (Cons x xs)
  then have "less_total lss (insert x (set acc))" by (auto simp: less_total_def)
  then obtain zs where zs: "sift_left lss x acc = Some zs" using sift_left_total [of lss x acc] by auto
  with Cons.prems have "less_total lss (set zs \<union> set xs)"
    by (auto simp: set_sift_left [OF zs] less_total_def)
  with zs Cons.IH show ?case by simp
qed

text \<open>The prefix, read from right to left, stays ordered.\<close>

lemma sift_left_order:
  assumes "strict_weak_on lss (insert x (set ys))" and "sorted_wrt (\<lambda>a b. \<not> lt lss a b) ys"
    and "sift_left lss x ys = Some zs"
  shows "sorted_wrt (\<lambda>a b. \<not> lt lss a b) zs"
  using assms
proof (induction ys arbitrary: zs)
  case Nil
  then show ?case by auto
next
  case (Cons y ys)
  note sw = Cons.prems(1)
  have y_ys: "\<forall>b \<in> set ys. \<not> lt lss y b" using Cons.prems(2) by simp
  show ?case
  proof (cases "lt lss x y")
    case True
    then obtain zs' where zs': "sift_left lss x ys = Some zs'" "zs = y # zs'"
      using Cons.prems(3) by (auto simp: lt_def)
    have "strict_weak_on lss (insert x (set ys))"
      using sw by (rule strict_weak_subset) auto
    with zs' Cons have "sorted_wrt (\<lambda>a b. \<not> lt lss a b) zs'" by simp
    moreover have "\<not> lt lss y x" using strict_weak_asym [OF sw _ _ True] by simp
    ultimately show ?thesis using y_ys zs' by (simp add: set_sift_left [OF zs'(1)])
  next
    case False
    then have zs: "zs = x # y # ys"
      using Cons.prems(3) by (auto simp: lt_def split: option.splits bool.splits)
    have "\<forall>b \<in> set ys. \<not> lt lss x b"
      using y_ys strict_weak_trans [OF sw _ _ _ False] by simp
    with zs False Cons.prems(2) show ?thesis by simp
  qed
qed

lemma insertion_loop_order:
  assumes "strict_weak_on lss (set acc \<union> set xs)" and "sorted_wrt (\<lambda>a b. \<not> lt lss a b) acc"
    and "insertion_loop lss acc xs = Some ys"
  shows "in_order lss ys"
  using assms
proof (induction xs arbitrary: acc)
  case Nil
  then show ?case by (auto simp: in_order_def sorted_wrt_rev)
next
  case (Cons x xs)
  then obtain zs where zs: "sift_left lss x acc = Some zs" "insertion_loop lss zs xs = Some ys"
    by (auto split: option.splits)
  have "strict_weak_on lss (insert x (set acc))"
    using Cons.prems(1) by (rule strict_weak_subset) auto
  then have "sorted_wrt (\<lambda>a b. \<not> lt lss a b) zs"
    using Cons.prems(2) zs(1) by (rule sift_left_order)
  moreover have "strict_weak_on lss (set zs \<union> set xs)"
    using Cons.prems(1) by (simp add: set_sift_left [OF zs(1)])
  ultimately show ?case using Cons.IH zs(2) by blast
qed

text \<open>Each element after the first is compared with its left neighbour at once.\<close>

lemma insertion_loop_panics:
  assumes "acc \<noteq> []" "panics_at lss x" "x \<in> set xs \<or> (x = hd acc \<and> xs \<noteq> [])"
  shows "insertion_loop lss acc xs = None"
  using assms
proof (induction xs arbitrary: acc)
  case Nil
  then show ?case by simp
next
  case (Cons y ys)
  then obtain a as where acc: "acc = a # as" by (cases acc) auto
  show ?case
  proof (cases "x = y \<or> x = a")
    case True
    with Cons.prems acc show ?thesis by (auto simp: panics_at_def)
  next
    case False
    with Cons.prems acc have x: "x \<in> set ys" by simp
    show ?thesis
    proof (cases "sift_left lss y acc")
      case (Some zs)
      then have "zs \<noteq> []" by (metis set_sift_left insert_not_empty set_empty)
      with Cons x Some show ?thesis by simp
    qed simp
  qed
qed

interpretation insertion: slice_sort insertionSort_func
proof unfold_locales
  fix lss :: "'a less_fn" and xs ys :: "'a list" and x :: 'a
  show "insertionSort_func lss xs = Some ys \<Longrightarrow> mset ys = mset xs"
    by (auto simp: insertionSort_func_def dest: mset_insertion_loop)
  show "less_total lss (set xs) \<Longrightarrow> \<exists>ys. insertionSort_func lss xs = Some ys"
    by (simp add: insertionSort_func_def insertion_loop_total)
  show "strict_weak_on lss (set xs) \<Longrightarrow> insertionSort_func lss xs = Some ys \<Longrightarrow> in_order lss ys"
    by (auto simp: insertionSort_func_def intro: insertion_loop_order [of lss "[]"])
  show "x \<in> set xs \<Longrightarrow> panics_at lss x \<Longrightarrow> 2 \<le> length xs \<Longrightarrow> insertionSort_func lss xs = None"
  proof (cases xs)
    case (Cons y ys)
    assume "x \<in> set xs" "panics_at lss x" "2 \<le> length xs"
    with Cons insertion_loop_panics [of "[y]" lss x ys] show ?thesis
      by (cases ys) (auto simp: insertionSort_func_def)
  qed simp
qed

text \<open>So does \<open>sort.Slice\<close> as a whole, if the quicksort for long slices does.\<close>

lemma slice_sort_Slice:
  assumes "slice_sort big"
  shows "slice_sort (sort_Slice big)"
proof -
  note b = assms [unfolded slice_sort_def] and i = insertion.slice_sort_axioms [unfolded slice_sort_def]
  show ?thesis
    unfolding slice_sort_def sort_Slice_def using b i by (auto split: if_splits)
qed

end
