(* ===== verification/Aws.thy ===== *)
theory Aws
  imports CloudAws GoSort
begin

text \<open>
  internal/address/aws.go: the assigner of Elastic IPs. The three services it holds are the fields of
  \<open>awsAssigner\<close>; \<open>NewAwsAssigner\<close> fills them with the services of CloudAws. Dereferences of SDK
  pointers are explicit, also those in log statements, since they panic on nil.
\<close>

record 'w awsAssigner =
  aws_region :: string
  instanceGetter :: "string \<Rightarrow> string \<Rightarrow> ('w, ec2_instance option) prog"
  eipLister :: "ec2_filters \<Rightarrow> bool \<Rightarrow> ('w, ec2_address list) prog"
  eipAssigner_assign :: "string \<Rightarrow> string \<Rightarrow> ('w, unit) prog"
  eipAssigner_unassign :: "string \<Rightarrow> ('w, unit) prog"

definition aws_services ::
  "'w ec2_client \<Rightarrow> ('w \<Rightarrow> ec2_filters \<Rightarrow> ec2_filters) \<Rightarrow> string \<Rightarrow> 'w awsAssigner" where
  "aws_services client ord region =
     \<lparr>aws_region = region,
      instanceGetter = ec2InstanceGetter_Get client,
      eipLister = eipLister_List client ord,
      eipAssigner_assign = eipAssigner_Assign client,
      eipAssigner_unassign = eipAssigner_Unassign client\<rparr>"

text \<open>Loading the AWS configuration and building the EC2 client are calls of the SDK: \<open>load_client\<close>.\<close>

definition NewAwsAssigner ::
  "(string \<Rightarrow> ('w, 'w ec2_client) prog) \<Rightarrow> ('w \<Rightarrow> ec2_filters \<Rightarrow> ec2_filters) \<Rightarrow> string \<Rightarrow>
   ('w, 'w awsAssigner) prog" where
  "NewAwsAssigner load_client ord region =
     check (load_client region) (wrap ''failed to load AWS config'' []) (\<lambda>client.
     ret (aws_services client ord region))"

subsection \<open>Filters\<close>

definition shorthandFilterTokens :: nat where "shorthandFilterTokens = 2"

definition parseShorthandFilter :: "string \<Rightarrow> (string \<times> string list) result" where
  "parseShorthandFilter filt =
     (let exp = SplitN filt CHR '','' shorthandFilterTokens in
      if length exp \<noteq> shorthandFilterTokens
      then Fail (new_error ''invalid filter format; supported format Name=string,Values=string,string,'' [])
      else (let name = Split (exp ! 0) CHR ''='' in
        if length name \<noteq> 2 \<or> name ! 0 \<noteq> ''Name'' then Fail (new_error ''invalid filter Name'' [])
        else (let values = Split (exp ! 1) CHR ''='' in
          if length values \<noteq> 2 \<or> values ! 0 \<noteq> ''Values''
          then Fail (new_error ''invalid filter Values list'' [])
          else Ok (name ! 1, Split (values ! 1) CHR '',''))))"

text \<open>The loop of \<open>getAvailableElasticIPs\<close> that fills the filter map.\<close>

fun parse_filters :: "string list \<Rightarrow> ec2_filters \<Rightarrow> ec2_filters result" where
  "parse_filters [] filters = Ok filters"
| "parse_filters (f # fs) filters =
     rcheck (parseShorthandFilter f) (wrap ''failed to parse filter %s'' [f]) (\<lambda>(name, values).
     parse_filters fs (AList.update name values filters))"

subsection \<open>Sorting\<close>

text \<open>The two nested range loops of \<open>sortAddressesByTag\<close>: \<open>None\<close> is a nil dereference, \<open>Some None\<close> a
  loop that ended without a return.\<close>

fun tag_inner :: "ec2_tag list \<Rightarrow> string \<Rightarrow> string option \<Rightarrow> bool option option" where
  "tag_inner [] key v = Some None"
| "tag_inner (tag2 # rest) key v =
     (case Tag_Key tag2 of
        None \<Rightarrow> None
      | Some k2 \<Rightarrow>
          if k2 = key then
            (case (v, Tag_Value tag2) of (Some a, Some b) \<Rightarrow> Some (Some (a < b)) | _ \<Rightarrow> None)
          else tag_inner rest key v)"

fun tag_outer :: "ec2_tag list \<Rightarrow> ec2_tag list \<Rightarrow> string \<Rightarrow> bool option" where
  "tag_outer [] tags2 key = Some False"
| "tag_outer (tag # rest) tags2 key =
     (case Tag_Key tag of
        None \<Rightarrow> None
      | Some k \<Rightarrow>
          if k = key then
            (case tag_inner tags2 key (Tag_Value tag) of
               None \<Rightarrow> None
             | Some (Some b) \<Rightarrow> Some b
             | Some None \<Rightarrow> tag_outer rest tags2 key)
          else tag_outer rest tags2 key)"

definition tag_less :: "string \<Rightarrow> ec2_address less_fn" where
  "tag_less key x y =
     (case Tags x of
        None \<Rightarrow> Some False
      | Some tx \<Rightarrow> (case Tags y of None \<Rightarrow> Some True | Some ty \<Rightarrow> tag_outer tx ty key))"

definition field_less :: "(ec2_address \<Rightarrow> string option) \<Rightarrow> ec2_address less_fn" where
  "field_less f x y =
     (case (f x, f y) of (Some k, Some l) \<Rightarrow> Some (k < l) | _ \<Rightarrow> None)"

definition sortAddressesByTag ::
  "ec2_address slice_sorter \<Rightarrow> ec2_address list \<Rightarrow> string \<Rightarrow> ec2_address list result" where
  "sortAddressesByTag big addresses key = deref (sort_Slice big (tag_less key) addresses)"

definition sortAddressesByField ::
  "ec2_address slice_sorter \<Rightarrow> ec2_address list \<Rightarrow> string \<Rightarrow> ec2_address list result" where
  "sortAddressesByField big addresses sortBy =
     (let by_field = (\<lambda>f. deref (sort_Slice big (field_less f) addresses)) in
      if HasPrefix sortBy ''Tag:''
      then sortAddressesByTag big addresses (TrimPrefix sortBy ''Tag:'')
      else if sortBy = ''AllocationId'' then by_field AllocationId
      else if sortBy = ''AssociationId'' then by_field AssociationId
      else if sortBy = ''Domain'' then by_field (\<lambda>a. Some (Domain a))
      else if sortBy = ''InstanceId'' then by_field InstanceId
      else if sortBy = ''NetworkInterfaceId'' then by_field NetworkInterfaceId
      else if sortBy = ''NetworkInterfaceOwnerId'' then by_field NetworkInterfaceOwnerId
      else if sortBy = ''PrivateIpAddress'' then by_field PrivateIpAddress
      else if sortBy = ''PublicIp'' then by_field PublicIp
      else if sortBy = ''PublicIpv4Pool'' then by_field PublicIpv4Pool
      else Ok addresses)"

subsection \<open>Listing\<close>

definition forceCheckAddressAssigned :: "'w awsAssigner \<Rightarrow> string \<Rightarrow> ('w, bool) prog" where
  "forceCheckAddressAssigned a allocationID =
     check (eipLister a [(''allocation-id'', [allocationID])] True)
       (wrap ''failed to list elastic IPs by allocation-id %s'' [allocationID]) (\<lambda>addresses.
     case addresses of [] \<Rightarrow> ret False | x # _ \<Rightarrow> ret (AssociationId x \<noteq> None))"

definition checkElasticIPAssigned :: "'w awsAssigner \<Rightarrow> string \<Rightarrow> ('w, unit) prog" where
  "checkElasticIPAssigned a instanceID =
     check (eipLister a [(''instance-id'', [instanceID])] True)
       (wrap ''failed to list elastic IPs attached to instance %s'' [instanceID]) (\<lambda>addresses.
     if addresses \<noteq> [] then throw (Sentinel ErrStaticIPAlreadyAssigned) else ret ())"

definition getAssignedElasticIP :: "'w awsAssigner \<Rightarrow> string \<Rightarrow> ('w, ec2_address) prog" where
  "getAssignedElasticIP a instanceID =
     check (eipLister a [(''instance-id'', [instanceID])] True)
       (wrap ''failed to list elastic IPs attached to instance %s'' [instanceID]) (\<lambda>addresses.
     case addresses of [] \<Rightarrow> throw (Sentinel ErrNoStaticIPAssigned) | x # _ \<Rightarrow> ret x)"

text \<open>The loop that logs the public addresses reads every one of them.\<close>

fun deref_ips :: "ec2_address list \<Rightarrow> string list result" where
  "deref_ips [] = Ok []"
| "deref_ips (x # xs) =
     rcheck (deref (PublicIp x)) id (\<lambda>ip. rcheck (deref_ips xs) id (\<lambda>ips. Ok (ip # ips)))"

definition getAvailableElasticIPs ::
  "ec2_address slice_sorter \<Rightarrow> 'w awsAssigner \<Rightarrow> string list \<Rightarrow> string \<Rightarrow> ('w, ec2_address list) prog"
where
  "getAvailableElasticIPs big a filt orderBy =
     check (lift (parse_filters filt [])) id (\<lambda>filters.
     check (eipLister a filters False) (wrap ''failed to list available elastic IPs'' []) (\<lambda>addresses.
     if addresses = [] then throw (new_error ''no available elastic IPs'' [])
     else
       check (lift (sortAddressesByField big addresses orderBy)) id (\<lambda>addresses.
       check (lift (deref_ips addresses)) id (\<lambda>_.
       ret addresses))))"

subsection \<open>The network interface\<close>

definition primary_public :: "ec2_interface \<Rightarrow> bool" where
  "primary_public ni \<longleftrightarrow>
     (case ni_Association ni of None \<Rightarrow> False | Some assoc \<Rightarrow> assoc_PublicIp assoc \<noteq> None) \<and>
     (case ni_Attachment ni of None \<Rightarrow> False | Some att \<Rightarrow> att_DeviceIndex att = Some 0)"

fun find_interface :: "ec2_interface list \<Rightarrow> string result" where
  "find_interface [] = Ok []"
| "find_interface (ni # rest) =
     (if primary_public ni then deref (ni_NetworkInterfaceId ni) else find_interface rest)"

definition getNetworkInterfaceID :: "ec2_instance option \<Rightarrow> string result" where
  "getNetworkInterfaceID inst =
     rcheck (deref inst) id (\<lambda>i.
     if inst_NetworkInterfaces i = [] then
       rcheck (deref (inst_InstanceId i)) id (\<lambda>iid.
       Fail (new_error ''no network interfaces found for instance %s'' [iid]))
     else
       rcheck (find_interface (inst_NetworkInterfaces i)) id (\<lambda>networkInterfaceID.
       if networkInterfaceID = [] then
         rcheck (deref (inst_InstanceId i)) id (\<lambda>iid.
         Fail (new_error ''no network interfaces with public IP address found for instance %s'' [iid]))
       else Ok networkInterfaceID))"

subsection \<open>Assign and Unassign\<close>

text \<open>An error return whose message prints the public address dereferences it.\<close>

definition fail_with_ip :: "ec2_address \<Rightarrow> (string \<Rightarrow> go_error) \<Rightarrow> ('w, 'a) prog" where
  "fail_with_ip address mk = check (lift (deref (PublicIp address))) id (\<lambda>ip. throw (mk ip))"

definition aws_tryAssignAddress ::
  "'w awsAssigner \<Rightarrow> ec2_address \<Rightarrow> string \<Rightarrow> string \<Rightarrow> ('w, unit) prog" where
  "aws_tryAssignAddress a address networkInterfaceID instanceID =
     check (lift (deref (AllocationId address))) id (\<lambda>alloc.
     attempt (forceCheckAddressAssigned a alloc)
       (\<lambda>e. fail_with_ip address (\<lambda>ip. wrap ''failed to check if address %s is assigned'' [ip] e))
       (\<lambda>addressAssigned.
     if addressAssigned then fail_with_ip address (\<lambda>ip. new_error ''address %s is already assigned'' [ip])
     else
       attempt (eipAssigner_assign a networkInterfaceID alloc)
         (\<lambda>e. fail_with_ip address
            (\<lambda>ip. wrap ''failed to assign elastic IP %s to the instance %s'' [ip, instanceID] e))
         (\<lambda>_. ret ())))"

text \<open>The loop over the candidates: the error of the last failed attempt (nil at first) and, once an
  attempt succeeds, its public address.\<close>

fun aws_assign_loop ::
  "'w awsAssigner \<Rightarrow> string \<Rightarrow> string \<Rightarrow> ec2_address list \<Rightarrow> go_error option \<Rightarrow>
   ('w, go_error option \<times> string) prog" where
  "aws_assign_loop a ni instanceID [] err = ret (err, [])"
| "aws_assign_loop a ni instanceID (x # xs) err =
     check (lift (deref (PublicIp x))) id (\<lambda>ip.
     check (lift (deref (AllocationId x))) id (\<lambda>alloc.
     attempt (aws_tryAssignAddress a x ni instanceID)
       (\<lambda>e. aws_assign_loop a ni instanceID xs (Some e))
       (\<lambda>_. ret (None, ip))))"

definition aws_Assign ::
  "ec2_address slice_sorter \<Rightarrow> 'w awsAssigner \<Rightarrow> string \<Rightarrow> string \<Rightarrow> string list \<Rightarrow> string \<Rightarrow>
   ('w, string) prog" where
  "aws_Assign big a instanceID zone filt orderBy =
     check (checkElasticIPAssigned a instanceID)
       (wrap ''check if elastic IP is already assigned to instance %s'' [instanceID]) (\<lambda>_.
     check (getAvailableElasticIPs big a filt orderBy)
       (wrap ''failed to get available elastic IPs'' []) (\<lambda>addresses.
     check (instanceGetter a instanceID (aws_region a))
       (wrap ''failed to get instance %s'' [instanceID]) (\<lambda>inst.
     check (lift (getNetworkInterfaceID inst))
       (wrap ''failed to get network interface ID for instance %s'' [instanceID]) (\<lambda>networkInterfaceID.
     check (aws_assign_loop a networkInterfaceID instanceID addresses None) id (\<lambda>(err, assignedAddress).
     case err of
       Some e \<Rightarrow> throw (wrap ''failed to assign elastic IP address'' [] e)
     | None \<Rightarrow> ret assignedAddress)))))"

definition aws_Unassign :: "'w awsAssigner \<Rightarrow> string \<Rightarrow> string \<Rightarrow> ('w, unit) prog" where
  "aws_Unassign a instanceID zone =
     check (getAssignedElasticIP a instanceID)
       (wrap ''check if elastic IP is assigned to instance %s'' [instanceID]) (\<lambda>address.
     check (lift (deref (AssociationId address))) id (\<lambda>assoc.
     check (eipAssigner_unassign a assoc) (wrap ''failed to unassign elastic IP'' []) (\<lambda>_.
     check (lift (deref (PublicIp address))) id (\<lambda>_.
     check (lift (deref (AllocationId address))) id (\<lambda>_.
     ret ())))))"

subsection \<open>Reading filters\<close>

lemma length_2E:
  assumes "length xs = 2"
  obtains a b where "xs = [a, b]"
  using assms by (auto simp: length_2_iff)

lemma parseShorthandFilter_Ok:
  "parseShorthandFilter s = Ok (n, vs) \<longleftrightarrow>
     (\<exists>a b v. SplitN s CHR '','' 2 = [a, b] \<and> Split a CHR ''='' = [''Name'', n] \<and>
        Split b CHR ''='' = [''Values'', v] \<and> vs = Split v CHR '','')"
  by (auto simp: parseShorthandFilter_def shorthandFilterTokens_def Let_def length_2_iff
      split: if_splits)

text \<open>C33. The shorthand filter syntax of the AWS command line, \<open>Name=n,Values=v1,v2,...\<close>, is parsed
  exactly: a text is accepted precisely when it is a name and a non-empty list of values written in
  that form with no comma or equals sign inside them, and parsing returns that name and that list.\<close>

theorem parseShorthandFilter_exact:
  "parseShorthandFilter s = Ok (n, vs) \<longleftrightarrow>
     s = ''Name='' @ n @ '',Values='' @ Join vs '','' \<and> vs \<noteq> [] \<and>
     CHR '','' \<notin> set n \<and> CHR ''='' \<notin> set n \<and>
     (\<forall>v \<in> set vs. CHR '','' \<notin> set v \<and> CHR ''='' \<notin> set v)"
proof
  assume "parseShorthandFilter s = Ok (n, vs)"
  then obtain v where v: "s = ''Name='' @ n @ '',Values='' @ v" "CHR '','' \<notin> set n"
      "CHR ''='' \<notin> set n" "CHR ''='' \<notin> set v" "vs = Split v CHR '',''"
    by (auto simp: parseShorthandFilter_Ok SplitN_2_iff Split_two_iff)
  then have j: "Join vs '','' = v" by (simp add: Join_Split)
  then have "CHR ''='' \<notin> set (Join vs '','')" using v(4) by simp
  then have "\<forall>x \<in> set vs. CHR ''='' \<notin> set x" by (induction vs) (auto simp: Join_Cons split: if_splits)
  with v j Split_parts_no_sep [of v "CHR '',''"]
  show "s = ''Name='' @ n @ '',Values='' @ Join vs '','' \<and> vs \<noteq> [] \<and>
     CHR '','' \<notin> set n \<and> CHR ''='' \<notin> set n \<and>
     (\<forall>v \<in> set vs. CHR '','' \<notin> set v \<and> CHR ''='' \<notin> set v)" by simp
next
  assume s: "s = ''Name='' @ n @ '',Values='' @ Join vs '','' \<and> vs \<noteq> [] \<and>
     CHR '','' \<notin> set n \<and> CHR ''='' \<notin> set n \<and>
     (\<forall>v \<in> set vs. CHR '','' \<notin> set v \<and> CHR ''='' \<notin> set v)"
  then have "\<forall>v \<in> set vs. CHR ''='' \<notin> set v" by blast
  then have "CHR ''='' \<notin> set (Join vs '','')" by (induction vs) (auto simp: Join_Cons)
  moreover have "Split (Join vs '','') CHR '','' = vs" using s by (simp add: Split_Join)
  moreover have "SplitN s CHR '','' 2 = [''Name='' @ n, ''Values='' @ Join vs '','']"
    using s by (simp add: SplitN_2_iff)
  moreover have "Split (''Name='' @ n) CHR ''='' = [''Name'', n]"
    unfolding Split_two_iff using s by simp
  moreover have "CHR ''='' \<notin> set (Join vs '','') \<Longrightarrow>
      Split (''Values='' @ Join vs '','') CHR ''='' = [''Values'', Join vs '','']"
    unfolding Split_two_iff by simp
  ultimately show "parseShorthandFilter s = Ok (n, vs)"
    unfolding parseShorthandFilter_Ok by metis
qed

lemma parseShorthandFilter_exact_witness:
  "parseShorthandFilter ''Name=tag:env,Values=dev,test'' = Ok (''tag:env'', [''dev'', ''test''])"
  by (rule parseShorthandFilter_exact [THEN iffD2]) (simp add: Join_Cons)

subsection \<open>Sorting\<close>

text \<open>The field a sort key names, as the switch of \<open>sortAddressesByField\<close> reads it.\<close>

definition sort_field :: "string \<Rightarrow> (ec2_address \<Rightarrow> string option) option" where
  "sort_field sortBy = map_of
     [(''AllocationId'', AllocationId), (''AssociationId'', AssociationId),
      (''Domain'', \<lambda>a. Some (Domain a)), (''InstanceId'', InstanceId),
      (''NetworkInterfaceId'', NetworkInterfaceId),
      (''NetworkInterfaceOwnerId'', NetworkInterfaceOwnerId),
      (''PrivateIpAddress'', PrivateIpAddress), (''PublicIp'', PublicIp),
      (''PublicIpv4Pool'', PublicIpv4Pool)] sortBy"

lemma sortAddressesByField_field:
  assumes "sort_field sortBy = Some f"
  shows "sortAddressesByField big xs sortBy = deref (sort_Slice big (field_less f) xs)"
  using assms
  by (auto simp: sort_field_def sortAddressesByField_def Let_def HasPrefix_def split: if_splits)

lemma sortAddressesByField_perm:
  assumes "slice_sort big" "sortAddressesByField big xs sortBy = Ok ys"
  shows "mset ys = mset xs"
  using assms slice_sort.sort_perm [OF slice_sort_Slice [OF assms(1)]]
  by (auto simp: sortAddressesByField_def sortAddressesByTag_def Let_def split: if_splits)

text \<open>Ordering by a field that every candidate has is a sort: for each of the nine field names the
  result exists, has the same addresses with the same multiplicities, and is ordered by that field.
  The quicksort for long slices only has to meet the contract of \<open>sort.Slice\<close>.\<close>

theorem sort_by_field_sorts:
  assumes "slice_sort big" and "sort_field sortBy = Some f" and "\<forall>x \<in> set xs. f x \<noteq> None"
  shows "\<exists>ys. sortAddressesByField big xs sortBy = Ok ys \<and> mset ys = mset xs
     \<and> sorted (map (the \<circ> f) ys)"
proof -
  have "\<exists>ys. sort_Slice big (field_less f) xs = Some ys \<and> mset ys = mset xs \<and> sorted (map (the \<circ> f) ys)"
    by (rule slice_sort.sort_by_key [OF slice_sort_Slice [OF assms(1)]])
      (simp_all add: field_less_def assms(3))
  then show ?thesis by (auto simp: sortAddressesByField_field [OF assms(2)])
qed

definition ex_address :: "string \<Rightarrow> string \<Rightarrow> ec2_address" where
  "ex_address alloc ip = \<lparr>AllocationId = Some alloc, AssociationId = None, Domain = ''vpc'',
     InstanceId = None, NetworkInterfaceId = None, NetworkInterfaceOwnerId = None,
     PrivateIpAddress = None, PublicIp = Some ip, PublicIpv4Pool = None, Tags = None\<rparr>"

theorem sort_by_field_sorts_witness:
  "\<exists>ys. sortAddressesByField insertionSort_func
      [ex_address ''a2'' ''100.0.0.2'', ex_address ''a1'' ''100.0.0.1''] ''PublicIp'' = Ok ys
    \<and> mset ys = mset [ex_address ''a2'' ''100.0.0.2'', ex_address ''a1'' ''100.0.0.1'']
    \<and> sorted (map (the \<circ> PublicIp) ys)"
  by (rule sort_by_field_sorts [OF insertion.slice_sort_axioms])
    (simp_all add: sort_field_def ex_address_def)

text \<open>A field that is nil in one candidate makes the comparison dereference nil.\<close>

lemma sort_by_missing_field:
  assumes "slice_sort big" "sort_field sortBy = Some f" "x \<in> set xs" "f x = None" "2 \<le> length xs"
  shows "sortAddressesByField big xs sortBy = Abort Panic"
proof -
  have "sort_Slice big (field_less f) xs = None"
    by (rule slice_sort.sort_by_missing_key
        [OF slice_sort_Slice [OF assms(1)], where key = f and cmp = "(<)"])
      (use assms in \<open>simp_all add: field_less_def\<close>)
  then show ?thesis by (simp add: sortAddressesByField_field [OF assms(2)])
qed

text \<open>C40. Asking for the order \<open>AssociationId\<close>, one of the documented field names, crashes the agent as
  soon as two addresses are available: the candidates are by construction the addresses without an
  association, so the comparison dereferences a nil pointer. The same holds for every field that is
  nil in one of the candidates.\<close>

theorem order_by_association_panics:
  assumes "slice_sort big" and "parse_filters filt [] = Ok fs"
    and "DescribeAddresses client (ord w fs) w = (Ok ys, w')"
    and "2 \<le> length (filter (\<lambda>a. AssociationId a = None) ys)"
  shows "getAvailableElasticIPs big (aws_services client ord region) filt ''AssociationId'' w
     = (Abort Panic, w')"
proof -
  let ?xs = "filter (\<lambda>a. AssociationId a = None) ys"
  have l: "eipLister_List client ord fs False w = (Ok ?xs, w')"
    using assms(3) by (simp add: eipLister_List_Ok_iff)
  from assms(4) obtain x where x: "x \<in> set ?xs" by (cases ?xs) auto
  have "sort_field ''AssociationId'' = Some AssociationId" by (simp add: sort_field_def)
  moreover have "AssociationId x = None" using aws_lister.list_available [OF l x] .
  ultimately have "sortAddressesByField big ?xs ''AssociationId'' = Abort Panic"
    using assms(1,4) x by (intro sort_by_missing_field)
  moreover have "?xs \<noteq> []" using assms(4) by (metis list.size(3) not_numeral_le_zero)
  ultimately show ?thesis
    using assms(2) l by (simp add: getAvailableElasticIPs_def aws_services_def check_lift)
qed

definition ex_client :: "ec2_address list \<Rightarrow> unit ec2_client" where
  "ex_client xs = \<lparr>
     DescribeAddresses = (\<lambda>_. ret xs),
     DescribeInstances = (\<lambda>_. ret []),
     AssociateAddress = (\<lambda>_ _ _. ret ()),
     DisassociateAddress = (\<lambda>_. ret ())\<rparr>"

theorem order_by_association_panics_witness:
  "getAvailableElasticIPs insertionSort_func
     (aws_services (ex_client [ex_address ''a2'' ''100.0.0.2'', ex_address ''a1'' ''100.0.0.1''])
        (\<lambda>_ fs. fs) ''us-east-1'') [] ''AssociationId'' () = (Abort Panic, ())"
  by (rule order_by_association_panics [OF insertion.slice_sort_axioms,
        where ys = "[ex_address ''a2'' ''100.0.0.2'', ex_address ''a1'' ''100.0.0.1'']"
          and fs = "[]"])
    (simp_all add: ex_client_def ex_address_def)

text \<open>The value of a tag: the first entry with the key.\<close>

fun first_tag :: "ec2_tag list \<Rightarrow> string \<Rightarrow> string option" where
  "first_tag [] key = None"
| "first_tag (t # ts) key = (if Tag_Key t = Some key then Tag_Value t else first_tag ts key)"

definition tag_value :: "string \<Rightarrow> ec2_address \<Rightarrow> string option" where
  "tag_value key x = (case Tags x of None \<Rightarrow> None | Some ts \<Rightarrow> first_tag ts key)"

definition tags_complete :: "ec2_address \<Rightarrow> bool" where
  "tags_complete x \<longleftrightarrow>
     (case Tags x of None \<Rightarrow> True | Some ts \<Rightarrow> \<forall>t \<in> set ts. Tag_Key t \<noteq> None \<and> Tag_Value t \<noteq> None)"

lemma tag_inner_value:
  "\<forall>t \<in> set ts. Tag_Key t \<noteq> None \<Longrightarrow> first_tag ts key = Some l \<Longrightarrow>
     tag_inner ts key (Some k) = Some (Some (k < l))"
  by (induction ts) (auto split: if_splits)

lemma tag_outer_value:
  "\<forall>t \<in> set tx. Tag_Key t \<noteq> None \<Longrightarrow> \<forall>t \<in> set ty. Tag_Key t \<noteq> None \<Longrightarrow>
     first_tag tx key = Some k \<Longrightarrow> first_tag ty key = Some l \<Longrightarrow> tag_outer tx ty key = Some (k < l)"
  by (induction tx) (auto simp: tag_inner_value split: if_splits)

lemma tag_less_value:
  "tags_complete x \<Longrightarrow> tags_complete y \<Longrightarrow> tag_value key x = Some k \<Longrightarrow> tag_value key y = Some l \<Longrightarrow>
     tag_less key x y = Some (k < l)"
  by (auto simp: tags_complete_def tag_value_def tag_less_def tag_outer_value split: option.splits)

text \<open>C35. Ordering by a tag that every candidate carries is a sort by the value of that tag.\<close>

theorem sort_by_tag_sorts:
  assumes "slice_sort big" and "\<forall>x \<in> set xs. tags_complete x \<and> tag_value key x \<noteq> None"
  shows "\<exists>ys. sortAddressesByField big xs (''Tag:'' @ key) = Ok ys \<and> mset ys = mset xs
     \<and> sorted (map (the \<circ> tag_value key) ys)"
proof -
  have "\<exists>ys. sort_Slice big (tag_less key) xs = Some ys \<and> mset ys = mset xs
      \<and> sorted (map (the \<circ> tag_value key) ys)"
    by (rule slice_sort.sort_by_key_on [OF slice_sort_Slice [OF assms(1)]])
      (use assms(2) in \<open>auto simp: tag_less_value\<close>)
  then show ?thesis
    by (simp only: sortAddressesByField_def sortAddressesByTag_def Let_def HasPrefix_append
        TrimPrefix_append if_True deref_Ok_iff)
qed

definition ex_tagged :: "string \<Rightarrow> string \<Rightarrow> ec2_address" where
  "ex_tagged ip v = (ex_address ip ip)\<lparr>Tags := Some [\<lparr>Tag_Key = Some ''order'', Tag_Value = Some v\<rparr>]\<rparr>"

theorem sort_by_tag_sorts_witness:
  "\<exists>ys. sortAddressesByField insertionSort_func [ex_tagged ''1.1.1.1'' ''b'', ex_tagged ''2.2.2.2'' ''a'']
      ''Tag:order'' = Ok ys
    \<and> mset ys = mset [ex_tagged ''1.1.1.1'' ''b'', ex_tagged ''2.2.2.2'' ''a'']
    \<and> sorted (map (the \<circ> tag_value ''order'') ys)"
  using sort_by_tag_sorts [OF insertion.slice_sort_axioms,
      of "[ex_tagged ''1.1.1.1'' ''b'', ex_tagged ''2.2.2.2'' ''a'']" "''order''"]
  by (simp add: ex_tagged_def ex_address_def tags_complete_def tag_value_def)

text \<open>Ordering by a tag that some candidates lack is not a sort, not even of the candidates that
  carry it: an address without the tag counts as equal to every other one, which is no weak order, and
  an address with the larger tag value stays in front of one with the smaller value.\<close>

theorem sort_by_partial_tag_unsorted:
  "let a = ex_tagged ''1.1.1.1'' ''b''; x = (ex_address ''2.2.2.2'' ''2.2.2.2'')\<lparr>Tags := Some []\<rparr>;
       c = ex_tagged ''3.3.3.3'' ''a''
   in sortAddressesByField big [a, x, c] ''Tag:order'' = Ok [a, x, c]
      \<and> tag_value ''order'' a = Some ''b'' \<and> tag_value ''order'' c = Some ''a''
      \<and> \<not> strict_weak_on (tag_less ''order'') {a, x, c}"
proof -
  let ?a = "ex_tagged ''1.1.1.1'' ''b''" and ?c = "ex_tagged ''3.3.3.3'' ''a''"
    and ?x = "(ex_address ''2.2.2.2'' ''2.2.2.2'')\<lparr>Tags := Some []\<rparr>"
  have less: "tag_less ''order'' ?x ?a = Some False" "tag_less ''order'' ?c ?x = Some False"
      "tag_less ''order'' ?a ?x = Some False" "tag_less ''order'' ?x ?c = Some False"
      "tag_less ''order'' ?c ?a = Some True"
    by (simp_all add: tag_less_def ex_tagged_def ex_address_def)
  have "sort_Slice big (tag_less ''order'') [?a, ?x, ?c] = Some [?a, ?x, ?c]"
    by (simp add: sort_Slice_def maxInsertion_def insertionSort_func_def less)
  then have "sortAddressesByField big [?a, ?x, ?c] ''Tag:order'' = Ok [?a, ?x, ?c]"
    by (simp add: sortAddressesByField_def sortAddressesByTag_def HasPrefix_def TrimPrefix_def)
  moreover have "\<not> strict_weak_on (tag_less ''order'') {?a, ?x, ?c}"
    using less unfolding strict_weak_on_def lt_def by (metis insertCI option.inject)
  ultimately show ?thesis by (simp add: Let_def tag_value_def ex_tagged_def ex_address_def)
qed

subsection \<open>The primary network interface\<close>

lemma find_interface_eq:
  "find_interface nis =
     (case find primary_public nis of None \<Rightarrow> Ok [] | Some ni \<Rightarrow> deref (ni_NetworkInterfaceId ni))"
  by (induction nis) auto

text \<open>The network interface that gets the address is the first one of the instance with device index
  0 and a public IP address; an instance without one has no result, and no other interface is ever
  chosen.\<close>

theorem getNetworkInterfaceID_first_primary:
  "getNetworkInterfaceID (Some inst) = Ok i \<longleftrightarrow>
     i \<noteq> [] \<and> (\<exists>ni. find primary_public (inst_NetworkInterfaces inst) = Some ni
        \<and> ni_NetworkInterfaceId ni = Some i)"
  by (auto simp: getNetworkInterfaceID_def rcheck_Ok_iff find_interface_eq split: option.splits)

subsection \<open>What an assignment does\<close>

lemma fail_with_ip_not_Ok [simp]: "fail_with_ip x mk w \<noteq> (Ok y, w')"
  by (auto simp: fail_with_ip_def returned)

lemma forceCheck_Ok:
  "forceCheckAddressAssigned a al w = (Ok b, w') \<longleftrightarrow>
     (\<exists>xs. eipLister a [(''allocation-id'', [al])] True w = (Ok xs, w') \<and>
        b = (xs \<noteq> [] \<and> AssociationId (hd xs) \<noteq> None))"
proof -
  have "(case xs of [] \<Rightarrow> ret False | x # _ \<Rightarrow> ret (AssociationId x \<noteq> None)) w1 = (Ok b, w') \<longleftrightarrow>
      w1 = w' \<and> b = (xs \<noteq> [] \<and> AssociationId (hd xs) \<noteq> None)" for xs w1
    by (cases xs) auto
  then show ?thesis
    unfolding forceCheckAddressAssigned_def check_Ok_iff by auto
qed

lemma aws_tryAssign_Ok:
  "aws_tryAssignAddress a x ni iid w = (Ok u, w') \<longleftrightarrow>
     (\<exists>al w1. AllocationId x = Some al \<and> forceCheckAddressAssigned a al w = (Ok False, w1) \<and>
        eipAssigner_assign a ni al w1 = (Ok (), w'))"
  by (auto simp: aws_tryAssignAddress_def returned attempt_Ok_iff split: if_splits)

lemma aws_assign_loop_Ok:
  assumes "aws_assign_loop a ni iid xs err w = (Ok (None, ip), w')" and "xs \<noteq> []"
  shows "\<exists>x w1. x \<in> set xs \<and> PublicIp x = Some ip \<and> aws_tryAssignAddress a x ni iid w1 = (Ok (), w')"
  using assms
proof (induction xs arbitrary: err w)
  case Nil
  then show ?case by simp
next
  case (Cons x xs)
  from Cons.prems(1) consider
      (now) "PublicIp x = Some ip" "aws_tryAssignAddress a x ni iid w = (Ok (), w')"
    | (later) e w1 where "aws_assign_loop a ni iid xs (Some e) w1 = (Ok (None, ip), w')"
    by (auto simp: returned attempt_Ok_iff)
  then show ?case
  proof cases
    case now
    then show ?thesis by auto
  next
    case later
    then have "xs \<noteq> []" by (cases xs) auto
    with later Cons.IH show ?thesis by fastforce
  qed
qed

lemma getAvailable_Ok:
  assumes "slice_sort big" and "getAvailableElasticIPs big a filt ob w = (Ok xs, w')"
  shows "\<exists>fs ys. parse_filters filt [] = Ok fs \<and> eipLister a fs False w = (Ok ys, w') \<and>
     mset xs = mset ys \<and> xs \<noteq> []"
proof -
  from assms(2) obtain fs ys where *: "parse_filters filt [] = Ok fs"
      "eipLister a fs False w = (Ok ys, w')" "ys \<noteq> []" "sortAddressesByField big ys ob = Ok xs"
    by (auto simp: getAvailableElasticIPs_def returned)
  moreover from this(4) have "mset xs = mset ys" by (rule sortAddressesByField_perm [OF assms(1)])
  ultimately show ?thesis by auto
qed

definition aws_associated ::
  "'w ec2_client \<Rightarrow> ('w \<Rightarrow> ec2_filters \<Rightarrow> ec2_filters) \<Rightarrow> string \<Rightarrow> string \<Rightarrow> string list \<Rightarrow> string \<Rightarrow> 'w \<Rightarrow> bool" where
  "aws_associated client ord region iid filt ip w' \<longleftrightarrow>
     (\<exists>fs ys x al inst ni w1 w2 w3 w4 w5 zs. parse_filters filt [] = Ok fs
     \<and> DescribeAddresses client (ord w1 fs) w1 = (Ok ys, w2) \<and> x \<in> set ys \<and> AssociationId x = None
     \<and> PublicIp x = Some ip \<and> AllocationId x = Some al
     \<and> ec2InstanceGetter_Get client iid region w2 = (Ok (Some inst), w3)
     \<and> getNetworkInterfaceID (Some inst) = Ok ni
     \<and> DescribeAddresses client (ord w4 [(''allocation-id'', [al])]) w4 = (Ok zs, w5)
     \<and> (\<forall>z \<in> set zs. AssociationId z = None)
     \<and> AssociateAddress client al ni False w5 = (Ok (), w'))"

lemma aws_Assign_associates:
  assumes "slice_sort big"
    and "aws_Assign big (aws_services client ord region) iid zone filt ob w = (Ok ip, w')"
  shows "aws_associated client ord region iid filt ip w'"
proof -
  let ?a = "aws_services client ord region"
  from assms(2) obtain xs inst ni w1 w2 w3 where
      av: "getAvailableElasticIPs big ?a filt ob w1 = (Ok xs, w2)"
      and g: "ec2InstanceGetter_Get client iid region w2 = (Ok inst, w3)"
      and ni: "getNetworkInterfaceID inst = Ok ni"
      and lp: "aws_assign_loop ?a ni iid xs None w3 = (Ok (None, ip), w')"
    by (auto simp: aws_Assign_def returned aws_services_def split: option.splits)
  from ni obtain inst' where inst: "inst = Some inst'"
    by (auto simp: getNetworkInterfaceID_def rcheck_Ok_iff)
  from getAvailable_Ok [OF assms(1) av] obtain fs ys where
      fs: "parse_filters filt [] = Ok fs" and ys: "eipLister_List client ord fs False w1 = (Ok ys, w2)"
      and xs: "mset xs = mset ys" "xs \<noteq> []"
    by (auto simp: aws_services_def)
  from aws_assign_loop_Ok [OF lp xs(2)] obtain x w4 where
      x: "x \<in> set xs" "PublicIp x = Some ip" "aws_tryAssignAddress ?a x ni iid w4 = (Ok (), w')" by blast
  from x(3) obtain al zs w5 where al: "AllocationId x = Some al"
      and zs: "eipLister_List client ord [(''allocation-id'', [al])] True w4 = (Ok zs, w5)"
      and free: "zs = [] \<or> AssociationId (hd zs) = None"
      and ass: "eipAssigner_Assign client ni al w5 = (Ok (), w')"
    by (auto simp: aws_tryAssign_Ok forceCheck_Ok aws_services_def)
  have "zs = []"
    using free aws_lister.list_assigned [OF zs, of "hd zs"] by (cases zs) auto
  with zs obtain zs' where "DescribeAddresses client (ord w4 [(''allocation-id'', [al])]) w4 = (Ok zs', w5)"
      and "\<forall>z \<in> set zs'. AssociationId z = None"
    by (auto simp: eipLister_List_none_in_use)
  moreover have "x \<in> set ys" using x(1) xs(1) by (metis set_mset_mset)
  then have "AssociationId x = None" by (rule aws_lister.list_available [OF ys])
  moreover from ys \<open>x \<in> set ys\<close> obtain ys' where
      "DescribeAddresses client (ord w1 fs) w1 = (Ok ys', w2)" "x \<in> set ys'"
    by (auto simp: eipLister_List_Ok_iff)
  moreover from ass have "AssociateAddress client al ni False w5 = (Ok (), w')"
    by (auto simp: eipAssigner_Assign_def returned)
  ultimately show ?thesis using fs x(2) al g ni inst unfolding aws_associated_def by blast
qed

text \<open>C11. When \<open>Assign\<close> reports an address, that address has really been associated, and nothing was
  taken from another node: the last effect on the world is a successful \<open>AssociateAddress\<close> call
  without reassociation, for the allocation of that address and the primary public interface of the
  requested instance; the address is one that the listing with the parsed user filters showed
  without an association, and directly before the call it was looked up once more and still had none.\<close>

theorem aws_assign_associates:
  assumes "slice_sort big"
    and "aws_Assign big (aws_services client ord region) iid zone filt ob w = (Ok ip, w')"
  shows "\<exists>fs ys x al inst ni w1 w2 w3 w4 w5 zs. parse_filters filt [] = Ok fs
     \<and> DescribeAddresses client (ord w1 fs) w1 = (Ok ys, w2) \<and> x \<in> set ys \<and> AssociationId x = None
     \<and> PublicIp x = Some ip \<and> AllocationId x = Some al
     \<and> ec2InstanceGetter_Get client iid region w2 = (Ok (Some inst), w3)
     \<and> getNetworkInterfaceID (Some inst) = Ok ni
     \<and> DescribeAddresses client (ord w4 [(''allocation-id'', [al])]) w4 = (Ok zs, w5)
     \<and> (\<forall>z \<in> set zs. AssociationId z = None)
     \<and> AssociateAddress client al ni False w5 = (Ok (), w')"
  using aws_Assign_associates [OF assms] unfolding aws_associated_def .

text \<open>A small EC2 for the witnesses: one address, free until it is associated (the world says whether it
  is), and one instance with a primary public interface.\<close>

definition ex_instance :: ec2_instance where
  "ex_instance = \<lparr>inst_InstanceId = Some ''i-1'', inst_NetworkInterfaces =
     [\<lparr>ni_Association = Some \<lparr>assoc_PublicIp = Some ''54.0.0.9''\<rparr>,
       ni_Attachment = Some \<lparr>att_DeviceIndex = Some 0\<rparr>, ni_NetworkInterfaceId = Some ''eni-1''\<rparr>]\<rparr>"

definition ex_ec2 :: "bool ec2_client" where
  "ex_ec2 = \<lparr>
     DescribeAddresses = (\<lambda>_ w. (Ok [(ex_address ''a1'' ''100.0.0.1'')
        \<lparr>AssociationId := if w then Some ''assoc-1'' else None\<rparr>], w)),
     DescribeInstances = (\<lambda>_. ret [[ex_instance]]),
     AssociateAddress = (\<lambda>al ni re w. if w \<and> \<not> re then (Fail (new_error ''in use'' []), w) else (Ok (), True)),
     DisassociateAddress = (\<lambda>assoc w. if w \<and> assoc = ''assoc-1'' then (Ok (), False)
        else (Fail (new_error ''not found'' []), w))\<rparr>"

abbreviation ex_aws :: "bool awsAssigner" where
  "ex_aws \<equiv> aws_services ex_ec2 (\<lambda>_ fs. fs) ''us-east-1''"

lemma ex_aws_assign:
  "aws_Assign insertionSort_func ex_aws ''i-1'' ''us-east-1a'' [] [] False = (Ok ''100.0.0.1'', True)"
  by code_simp

theorem aws_assign_associates_witness:
  "aws_Assign insertionSort_func ex_aws ''i-1'' ''us-east-1a'' [] [] False = (Ok ''100.0.0.1'', True)
   \<and> (\<exists>al ni w. AssociateAddress ex_ec2 al ni False w = (Ok (), True))"
proof (rule conjI [OF ex_aws_assign])
  show "\<exists>al ni w. AssociateAddress ex_ec2 al ni False w = (Ok (), True)"
    using aws_assign_associates [OF insertion.slice_sort_axioms ex_aws_assign]
    by (elim exE conjE) (intro exI, assumption)
qed

lemma preserves_aws_assign_loop [pres_intros]:
  assumes "\<And>f u. preserves I (eipLister a f u)" "\<And>n al. preserves I (eipAssigner_assign a n al)"
  shows "preserves I (aws_assign_loop a ni iid xs err)"
proof (induction xs arbitrary: err)
  case Nil
  then show ?case by (simp add: pres_intros)
next
  case (Cons x xs)
  have "preserves I (aws_tryAssignAddress a x ni iid)"
    unfolding aws_tryAssignAddress_def forceCheckAddressAssigned_def fail_with_ip_def
    by (intro pres_intros assms) (auto intro: pres_intros split: list.split)
  with Cons show ?case by (auto intro!: pres_intros)
qed

lemma preserves_aws_Assign:
  assumes "\<And>f u. preserves I (eipLister a f u)" "\<And>n al. preserves I (eipAssigner_assign a n al)"
    "\<And>i r. preserves I (instanceGetter a i r)"
  shows "preserves I (aws_Assign big a iid zone filt ob)"
  unfolding aws_Assign_def checkElasticIPAssigned_def getAvailableElasticIPs_def
  by (intro pres_intros assms) (auto intro: pres_intros split: option.split)

text \<open>C12. \<open>Assign\<close> changes the cloud only by associating free addresses: every property of the world that
  the describe calls and \<open>AssociateAddress\<close> calls \<^emph>\<open>without\<close> reassociation keep is kept by
  \<open>Assign\<close>, whatever it returns. In particular it never disassociates an address and never moves one
  from another node.\<close>

theorem aws_assign_only_associates:
  assumes "\<And>f. preserves I (DescribeAddresses client f)"
    and "\<And>ids. preserves I (DescribeInstances client ids)"
    and "\<And>al ni. preserves I (AssociateAddress client al ni False)"
  shows "preserves I (aws_Assign big (aws_services client ord region) iid zone filt ob)"
  by (rule preserves_aws_Assign)
    (simp_all add: aws_services_def assms preserves_eipLister_List preserves_eipAssigner_Assign
      preserves_ec2InstanceGetter_Get)

theorem aws_assign_only_associates_witness:
  "preserves (\<lambda>w. w) (aws_Assign insertionSort_func ex_aws ''i-1'' ''us-east-1a'' [] [])
   \<and> \<not> preserves (\<lambda>w. w) (DisassociateAddress ex_ec2 ''assoc-1'')"
proof
  show "preserves (\<lambda>w. w) (aws_Assign insertionSort_func ex_aws ''i-1'' ''us-east-1a'' [] [])"
    by (rule aws_assign_only_associates) (auto simp: preserves_def ex_ec2_def)
qed (auto simp: preserves_def ex_ec2_def intro: exI [of _ True])

text \<open>An instance that already has an Elastic IP is left alone: if the listing shows an associated
  address for it, \<open>Assign\<close> fails with an error that is \<open>ErrStaticIPAlreadyAssigned\<close>, and the listing is
  its only call.\<close>

theorem aws_already_assigned:
  assumes "DescribeAddresses client (ord w [(''instance-id'', [iid])]) w = (Ok ys, w')"
    and "\<exists>y \<in> set ys. AssociationId y \<noteq> None"
  shows "\<exists>e. aws_Assign big (aws_services client ord region) iid zone filt ob w = (Fail e, w')
     \<and> errors_is e ErrStaticIPAlreadyAssigned"
proof -
  let ?xs = "filter (\<lambda>a. (AssociationId a \<noteq> None) = True) ys"
  have "eipLister_List client ord [(''instance-id'', [iid])] True w = (Ok ?xs, w')"
    unfolding eipLister_List_Ok_iff using assms(1) by blast
  moreover have "?xs \<noteq> []" using assms(2) by (auto simp: filter_empty_conv)
  ultimately show ?thesis
    by (simp add: aws_Assign_def checkElasticIPAssigned_def aws_services_def)
qed

theorem aws_already_assigned_witness:
  "\<exists>e. aws_Assign insertionSort_func ex_aws ''i-1'' ''us-east-1a'' [] [] True = (Fail e, True)
     \<and> errors_is e ErrStaticIPAlreadyAssigned"
  by (rule aws_already_assigned) (auto simp: ex_ec2_def)

text \<open>C38. What \<open>Assign\<close> makes of the answer about its instance, once the checks before it have passed. An
  error of \<open>DescribeInstances\<close>, which is what EC2 documents for an ID it does not know, comes back
  wrapped. An answer without an error and without an instance, which the getter has a branch for,
  crashes the agent: that branch wraps the nil error of the successful call, so the getter returns a
  nil instance with a nil error, and \<open>Assign\<close> dereferences the nil pointer.\<close>

theorem unlisted_instance_panics:
  assumes "checkElasticIPAssigned (aws_services client ord region) iid w = (Ok (), w1)"
    and "getAvailableElasticIPs big (aws_services client ord region) filt ob w1 = (Ok xs, w2)"
  shows "(\<forall>e w3. DescribeInstances client [iid] w2 = (Fail e, w3) \<longrightarrow>
       aws_Assign big (aws_services client ord region) iid zone filt ob w =
         (Fail (wrap ''failed to get instance %s'' [iid] (wrap ''failed to describe instances, %v'' [] e)), w3))
     \<and> (\<forall>rs w3. DescribeInstances client [iid] w2 = (Ok rs, w3) \<longrightarrow> rs = [] \<or> hd rs = [] \<longrightarrow>
       aws_Assign big (aws_services client ord region) iid zone filt ob w = (Abort Panic, w3))"
proof (intro conjI allI impI)
  fix e w3 assume "DescribeInstances client [iid] w2 = (Fail e, w3)"
  then show "aws_Assign big (aws_services client ord region) iid zone filt ob w =
      (Fail (wrap ''failed to get instance %s'' [iid] (wrap ''failed to describe instances, %v'' [] e)), w3)"
    using assms by (simp add: aws_Assign_def aws_services_def ec2InstanceGetter_Get_def)
next
  fix rs w3 assume "DescribeInstances client [iid] w2 = (Ok rs, w3)" "rs = [] \<or> hd rs = []"
  then have "ec2InstanceGetter_Get client iid region w2 = (Ok None, w3)"
    by (auto simp: ec2InstanceGetter_Get_def split: list.split)
  moreover have "getNetworkInterfaceID None = Abort Panic"
    by (simp add: getNetworkInterfaceID_def)
  ultimately show "aws_Assign big (aws_services client ord region) iid zone filt ob w = (Abort Panic, w3)"
    using assms by (simp add: aws_Assign_def check_lift aws_services_def)
qed

theorem unlisted_instance_panics_witness:
  "aws_Assign insertionSort_func
     (aws_services (ex_client [ex_address ''a1'' ''100.0.0.1'']) (\<lambda>_ fs. fs) ''us-east-1'')
     ''i-404'' ''us-east-1a'' [] [] () = (Abort Panic, ())"
proof -
  let ?a = "aws_services (ex_client [ex_address ''a1'' ''100.0.0.1'']) (\<lambda>_ fs. fs) ''us-east-1''"
  have 1: "checkElasticIPAssigned ?a ''i-404'' () = (Ok (), ())" by code_simp
  have 2: "getAvailableElasticIPs insertionSort_func ?a [] [] () = (Ok [ex_address ''a1'' ''100.0.0.1''], ())"
    by code_simp
  have 3: "DescribeInstances (ex_client [ex_address ''a1'' ''100.0.0.1'']) [''i-404''] () = (Ok [], ())"
    by (simp add: ex_client_def)
  show ?thesis using unlisted_instance_panics [OF 1 2] 3 by blast
qed

definition aws_disassociated ::
  "'w ec2_client \<Rightarrow> ('w \<Rightarrow> ec2_filters \<Rightarrow> ec2_filters) \<Rightarrow> string \<Rightarrow> 'w \<Rightarrow> 'w \<Rightarrow> bool" where
  "aws_disassociated client ord iid w w' \<longleftrightarrow>
     (\<exists>ys w1 x assoc. DescribeAddresses client (ord w [(''instance-id'', [iid])]) w = (Ok ys, w1)
       \<and> find (\<lambda>a. AssociationId a \<noteq> None) ys = Some x \<and> AssociationId x = Some assoc
       \<and> DisassociateAddress client assoc w1 = (Ok (), w'))"

lemma aws_Unassign_disassociates:
  assumes "aws_Unassign (aws_services client ord region) iid zone w = (Ok (), w')"
  shows "aws_disassociated client ord iid w w'"
proof -
  from assms obtain x assoc w1 where
      g: "getAssignedElasticIP (aws_services client ord region) iid w = (Ok x, w1)"
      and assoc: "AssociationId x = Some assoc" and d: "DisassociateAddress client assoc w1 = (Ok (), w')"
    by (auto simp: aws_Unassign_def returned aws_services_def eipAssigner_Unassign_def)
  from g obtain xs where "eipLister_List client ord [(''instance-id'', [iid])] True w = (Ok (x # xs), w1)"
    by (auto simp: getAssignedElasticIP_def returned aws_services_def)
  then obtain ys where ys: "DescribeAddresses client (ord w [(''instance-id'', [iid])]) w = (Ok ys, w1)"
      and "filter (\<lambda>a. (AssociationId a \<noteq> None) = True) ys = x # xs"
    unfolding eipLister_List_Ok_iff by (elim exE conjE) simp
  then have "find (\<lambda>a. (AssociationId a \<noteq> None) = True) ys = Some x" by (intro find_of_filter)
  with ys assoc d show ?thesis by (auto simp: aws_disassociated_def)
qed

text \<open>C24. \<open>Unassign\<close> releases exactly one address, one of the instance: it succeeds only through a
  \<open>DisassociateAddress\<close> call for the first associated address the listing shows for the instance.\<close>

theorem aws_unassign_releases:
  assumes "aws_Unassign (aws_services client ord region) iid zone w = (Ok (), w')"
  shows "\<exists>ys w1 x assoc. DescribeAddresses client (ord w [(''instance-id'', [iid])]) w = (Ok ys, w1)
       \<and> find (\<lambda>a. AssociationId a \<noteq> None) ys = Some x \<and> AssociationId x = Some assoc
       \<and> DisassociateAddress client assoc w1 = (Ok (), w')"
  using aws_Unassign_disassociates [OF assms] unfolding aws_disassociated_def .

theorem aws_unassign_releases_witness:
  "aws_Unassign ex_aws ''i-1'' ''us-east-1a'' True = (Ok (), False)
   \<and> (\<exists>assoc. DisassociateAddress ex_ec2 assoc True = (Ok (), False))"
proof -
  have run: "aws_Unassign ex_aws ''i-1'' ''us-east-1a'' True = (Ok (), False)" by code_simp
  from aws_unassign_releases [OF this] obtain ys w1 assoc where
      "DescribeAddresses ex_ec2 [(''instance-id'', [''i-1''])] True = (Ok ys, w1)"
      "DisassociateAddress ex_ec2 assoc w1 = (Ok (), False)" by blast
  moreover from this(1) have "w1 = True" by (simp add: ex_ec2_def)
  ultimately show ?thesis using run by blast
qed

lemma aws_unassign_none:
  assumes "DescribeAddresses client (ord w [(''instance-id'', [iid])]) w = (Ok ys, w')"
    and "\<forall>y \<in> set ys. AssociationId y = None"
  shows "\<exists>e. aws_Unassign (aws_services client ord region) iid zone w = (Fail e, w')
     \<and> errors_is e ErrNoStaticIPAssigned"
proof -
  have "eipLister_List client ord [(''instance-id'', [iid])] True w = (Ok [], w')"
    unfolding eipLister_List_none_in_use using assms by blast
  then show ?thesis by (simp add: aws_Unassign_def getAssignedElasticIP_def aws_services_def)
qed

end
