(* ===== verification/CloudGcp.thy ===== *)
theory CloudGcp
  imports GoStrings
begin

text \<open>
  internal/cloud/gcp_address.go, gcp_instance.go, gcp_lister.go and gcp_waiter.go: the services over
  the Compute Engine client. The client (package google.golang.org/api/compute/v1) is the parameter
  record \<open>compute_service\<close>, one field per API call the code makes. \<open>ListCall\<close> and \<open>WaitCall\<close> are
  builders: values that collect the arguments of the call until \<open>Do\<close> makes it.
\<close>

record AccessConfig =
  ac_Name :: string
  ac_Type :: string
  ac_Kind :: string
  NatIP :: string
  ExternalIpv6 :: string
  ac_NetworkTier :: string
  ExternalIpv6PrefixLength :: go_int

record NetworkInterface =
  nif_Name :: string
  Fingerprint :: string
  StackType :: string
  AccessConfigs :: "AccessConfig list"
  Ipv6AccessConfigs :: "AccessConfig list"

record compute_Instance =
  gi_Name :: string
  SelfLink :: string
  NetworkInterfaces :: "NetworkInterface list"

record compute_Address =
  ga_Name :: string
  ga_Address :: string
  ga_Status :: string
  Users :: "string list"
  ga_NetworkTier :: string
  PrefixLength :: go_int

record compute_Operation =
  op_Name :: string
  op_Status :: string
  op_Error :: "op_error option"

record AddressList =
  Items :: "compute_Address list"
  NextPageToken :: string

record gcpListCall =
  call_project :: string
  call_region :: string
  call_filter :: "string option"
  call_orderBy :: "string option"
  call_pageToken :: "string option"

text \<open>\<open>UpdateNetworkInterface\<close> takes the patch of the interface, a record with the other fields empty.\<close>

record 'w compute_service =
  Instances_Get :: "string \<Rightarrow> string \<Rightarrow> string \<Rightarrow> ('w, compute_Instance) prog"
  Instances_UpdateNetworkInterface ::
    "string \<Rightarrow> string \<Rightarrow> string \<Rightarrow> string \<Rightarrow> NetworkInterface \<Rightarrow> ('w, compute_Operation option) prog"
  Instances_AddAccessConfig ::
    "string \<Rightarrow> string \<Rightarrow> string \<Rightarrow> string \<Rightarrow> AccessConfig \<Rightarrow> ('w, compute_Operation option) prog"
  Instances_DeleteAccessConfig ::
    "string \<Rightarrow> string \<Rightarrow> string \<Rightarrow> string \<Rightarrow> string \<Rightarrow> ('w, compute_Operation option) prog"
  Addresses_Get :: "string \<Rightarrow> string \<Rightarrow> string \<Rightarrow> ('w, compute_Address) prog"
  Addresses_List :: "gcpListCall \<Rightarrow> ('w, AddressList) prog"
  ZoneOperations_Wait ::
    "string \<Rightarrow> string \<Rightarrow> string \<Rightarrow> 'w go_context \<Rightarrow> ('w, compute_Operation option) prog"

subsection \<open>gcp_lister.go and gcp_waiter.go\<close>

definition gcpLister_List :: "string \<Rightarrow> string \<Rightarrow> gcpListCall" where
  "gcpLister_List projectID region = \<lparr>call_project = projectID, call_region = region,
     call_filter = None, call_orderBy = None, call_pageToken = None\<rparr>"

definition call_Filter :: "gcpListCall \<Rightarrow> string \<Rightarrow> gcpListCall" where
  "call_Filter c f = c\<lparr>call_filter := Some f\<rparr>"

definition call_OrderBy :: "gcpListCall \<Rightarrow> string \<Rightarrow> gcpListCall" where
  "call_OrderBy c orderBy = c\<lparr>call_orderBy := Some orderBy\<rparr>"

definition call_PageToken :: "gcpListCall \<Rightarrow> string \<Rightarrow> gcpListCall" where
  "call_PageToken c tok = c\<lparr>call_pageToken := Some tok\<rparr>"

definition listCall_Do :: "'w compute_service \<Rightarrow> gcpListCall \<Rightarrow> ('w, AddressList) prog" where
  "listCall_Do client c = Addresses_List client c"

text \<open>A wait call has its context set by \<open>Context\<close> before \<open>Do\<close>; without one it would be the background
  context.\<close>

record 'w zoneWaitCall =
  wait_project :: string
  wait_zone :: string
  wait_operation :: string
  wait_context :: "'w go_context"

definition background :: "'w go_context" where
  "background = \<lparr>ctx_Err = (\<lambda>_. None), ctx_Deadline = None\<rparr>"

definition zoneWaiter_Wait :: "string \<Rightarrow> string \<Rightarrow> string \<Rightarrow> 'w zoneWaitCall" where
  "zoneWaiter_Wait projectID zone operationName = \<lparr>wait_project = projectID, wait_zone = zone,
     wait_operation = operationName, wait_context = background\<rparr>"

definition waitCall_Context :: "'w zoneWaitCall \<Rightarrow> 'w go_context \<Rightarrow> 'w zoneWaitCall" where
  "waitCall_Context c ctx = c\<lparr>wait_context := ctx\<rparr>"

definition waitCall_Do ::
  "'w compute_service \<Rightarrow> 'w zoneWaitCall \<Rightarrow> ('w, compute_Operation option) prog" where
  "waitCall_Do client c =
     ZoneOperations_Wait client (wait_project c) (wait_zone c) (wait_operation c) (wait_context c)"

subsection \<open>gcp_instance.go\<close>

definition instanceGetter_Get ::
  "'w compute_service \<Rightarrow> string \<Rightarrow> string \<Rightarrow> string \<Rightarrow> ('w, compute_Instance) prog" where
  "instanceGetter_Get client projectID zone inst = Instances_Get client projectID zone inst"

subsection \<open>gcp_address.go\<close>

definition ipv4Only :: string where "ipv4Only = ''IPV4_ONLY''"
definition ipv4ipv6 :: string where "ipv4ipv6 = ''IPV4_IPV6''"

definition empty_interface :: NetworkInterface where
  "empty_interface = \<lparr>nif_Name = [], Fingerprint = [], StackType = [], AccessConfigs = [],
     Ipv6AccessConfigs = []\<rparr>"

definition addressManager_AddAccessConfig ::
  "'w compute_service \<Rightarrow> bool \<Rightarrow> string \<Rightarrow> string \<Rightarrow> string \<Rightarrow> string \<Rightarrow> string \<Rightarrow> AccessConfig \<Rightarrow>
   ('w, compute_Operation option) prog" where
  "addressManager_AddAccessConfig client ipv6 project zone inst networkInterface fingerprint accessconfig =
     (if ipv6 then
        Instances_UpdateNetworkInterface client project zone inst networkInterface
          (empty_interface\<lparr>Fingerprint := fingerprint, StackType := ipv4ipv6,
             Ipv6AccessConfigs := [accessconfig]\<rparr>)
      else Instances_AddAccessConfig client project zone inst networkInterface accessconfig)"

definition addressManager_DeleteAccessConfig ::
  "'w compute_service \<Rightarrow> bool \<Rightarrow> string \<Rightarrow> string \<Rightarrow> string \<Rightarrow> string \<Rightarrow> string \<Rightarrow> string \<Rightarrow>
   ('w, compute_Operation option) prog" where
  "addressManager_DeleteAccessConfig client ipv6 project zone inst accessConfig networkInterface fingerprint =
     (if ipv6 then
        Instances_UpdateNetworkInterface client project zone inst networkInterface
          (empty_interface\<lparr>Fingerprint := fingerprint, StackType := ipv4Only\<rparr>)
      else Instances_DeleteAccessConfig client project zone inst accessConfig networkInterface)"

definition addressManager_GetAddress ::
  "'w compute_service \<Rightarrow> string \<Rightarrow> string \<Rightarrow> string \<Rightarrow> ('w, compute_Address) prog" where
  "addressManager_GetAddress client project region name = Addresses_Get client project region name"

end
