(* ===== verification/Gcp.thy ===== *)
theory Gcp
  imports CloudGcp
begin

text \<open>
  internal/address/gcp.go: the assigner of static external IP addresses of Google Cloud. The services
  it holds are the fields of \<open>gcpAssigner\<close>; \<open>gcp_services\<close> fills them with those of CloudGcp.

  Two loops may run for as long as the cloud keeps them going, the one over the pages of a listing and
  the one that waits for an operation; they take fuel, and \<open>OutOfFuel\<close> is the result of a loop that
  was cut off. \<open>gcp_list_all_pages\<close> and \<open>wait_for_operation_returns\<close> say how much is enough.
\<close>

definition operationDone :: string where "operationDone = ''DONE''"
definition inUseStatus :: string where "inUseStatus = ''IN_USE''"
definition reservedStatus :: string where "reservedStatus = ''RESERVED''"
definition defaultTimeout :: go_int where "defaultTimeout = 600000000000"
definition defaultNetworkName :: string where "defaultNetworkName = ''External IP''"
definition defaultNetworkNameIPv6 :: string where "defaultNetworkNameIPv6 = ''External IPv6''"
definition defaultAccessConfigType :: string where "defaultAccessConfigType = ''ONE_TO_ONE_NAT''"
definition defaultAccessConfigIPv6Type :: string where "defaultAccessConfigIPv6Type = ''DIRECT_IPV6''"
definition defaultNetworkTier :: string where "defaultNetworkTier = ''PREMIUM''"
definition accessConfigKind :: string where "accessConfigKind = ''compute#accessConfig''"
definition defaultPrefixLength :: go_int where "defaultPrefixLength = 96"
definition maxRetries :: nat where "maxRetries = 10"

record 'w gcpAssigner =
  gcp_list_Do :: "gcpListCall \<Rightarrow> ('w, AddressList) prog"
  gcp_wait_Do :: "'w zoneWaitCall \<Rightarrow> ('w, compute_Operation option) prog"
  gcp_AddAccessConfig :: "string \<Rightarrow> string \<Rightarrow> string \<Rightarrow> string \<Rightarrow> string \<Rightarrow> AccessConfig \<Rightarrow>
    ('w, compute_Operation option) prog"
  gcp_DeleteAccessConfig :: "string \<Rightarrow> string \<Rightarrow> string \<Rightarrow> string \<Rightarrow> string \<Rightarrow> string \<Rightarrow>
    ('w, compute_Operation option) prog"
  gcp_GetAddress :: "string \<Rightarrow> string \<Rightarrow> string \<Rightarrow> ('w, compute_Address) prog"
  gcp_instance_Get :: "string \<Rightarrow> string \<Rightarrow> string \<Rightarrow> ('w, compute_Instance) prog"
  gcp_clock :: "'w \<Rightarrow> int"
  gcp_project :: string
  gcp_region :: string
  gcp_ipv6 :: bool

definition gcp_services ::
  "'w compute_service \<Rightarrow> ('w \<Rightarrow> int) \<Rightarrow> string \<Rightarrow> string \<Rightarrow> bool \<Rightarrow> 'w gcpAssigner" where
  "gcp_services client now project region ipv6 = \<lparr>
     gcp_list_Do = listCall_Do client,
     gcp_wait_Do = waitCall_Do client,
     gcp_AddAccessConfig = addressManager_AddAccessConfig client ipv6,
     gcp_DeleteAccessConfig = addressManager_DeleteAccessConfig client ipv6,
     gcp_GetAddress = addressManager_GetAddress client,
     gcp_instance_Get = instanceGetter_Get client,
     gcp_clock = now,
     gcp_project = project, gcp_region = region, gcp_ipv6 = ipv6\<rparr>"

subsection \<open>Operation errors\<close>

definition newOperationError :: "string \<Rightarrow> op_error option \<Rightarrow> go_error" where
  "newOperationError name err = OperationErr name err"

fun isOperationError :: "go_error \<Rightarrow> bool" where
  "isOperationError (OperationErr _ _) = True"
| "isOperationError _ = False"

definition joinErrorMessages :: "op_error option \<Rightarrow> string" where
  "joinErrorMessages operationError = (case operationError of
     None \<Rightarrow> ''''
   | Some e \<Rightarrow> if op_messages e = [] then '''' else Join (op_messages e) ''; '')"

text \<open>The message of an operation error, \<open>Error()\<close>.\<close>

definition operationError_Error :: "string \<Rightarrow> op_error option \<Rightarrow> string" where
  "operationError_Error name err = (case err of
     None \<Rightarrow> ''''
   | Some e \<Rightarrow> ''operation '' @ name @ '' failed with error '' @ joinErrorMessages (Some e))"

subsection \<open>NewGCPAssigner\<close>

definition zone_to_region :: "string \<Rightarrow> string" where
  "zone_to_region region =
     (if 2 < length region \<and> region ! (length region - 2) = CHR ''-''
      then take (length region - 2) region else region)"

record 'w metadata_server =
  metadata_ProjectID :: "('w, string) prog"
  metadata_InstanceAttributeValue :: "string \<Rightarrow> ('w, string) prog"

definition NewGCPAssigner ::
  "('w, 'w compute_service) prog \<Rightarrow> 'w metadata_server \<Rightarrow> ('w \<Rightarrow> int) \<Rightarrow>
   string \<Rightarrow> string \<Rightarrow> bool \<Rightarrow> ('w, 'w gcpAssigner) prog" where
  "NewGCPAssigner NewService md now project region ipv6 =
     check NewService (wrap ''failed to initialize Google Cloud client'' []) (\<lambda>client.
     check (if project = '''' then metadata_ProjectID md else ret project)
       (wrap ''failed to get project ID from metadata server'' []) (\<lambda>project.
     check (if region = ''''
            then check (metadata_InstanceAttributeValue md ''cluster-location'') id
                   (\<lambda>region. ret (zone_to_region region))
            else ret region)
       (wrap ''failed to get region from metadata server'' []) (\<lambda>region.
     ret (gcp_services client now project region ipv6))))"

subsection \<open>Waiting for an operation\<close>

text \<open>The loop of \<open>waitForOperation\<close>; a nil operation from \<open>Wait\<close> is dereferenced by the loop condition.\<close>

fun wait_loop ::
  "nat \<Rightarrow> 'w gcpAssigner \<Rightarrow> 'w go_context \<Rightarrow> string \<Rightarrow> string \<Rightarrow> compute_Operation option \<Rightarrow>
   ('w, unit) prog" where
  "wait_loop n a ctx zone name None = abort Panic"
| "wait_loop n a ctx zone name (Some op) =
     (if op_Status op = operationDone then ret ()
      else (case n of
          0 \<Rightarrow> abort OutOfFuel
        | Suc m \<Rightarrow>
            attempt (gcp_wait_Do a (waitCall_Context (zoneWaiter_Wait (gcp_project a) zone name) ctx))
              (\<lambda>err. if errors_is err ContextCanceled then throw (new_error ''operation timed out'' [])
                     else throw (wrap ''failed to get operation %s'' [name] err))
              (\<lambda>op. case op of
                  None \<Rightarrow> wait_loop m a ctx zone name None
                | Some p \<Rightarrow>
                    if op_Error p \<noteq> None then throw (newOperationError (op_Name p) (op_Error p))
                    else wait_loop m a ctx zone name (Some p))))"

definition waitForOperation ::
  "nat \<Rightarrow> 'w gcpAssigner \<Rightarrow> 'w go_context \<Rightarrow> compute_Operation option \<Rightarrow> string \<Rightarrow> go_int \<Rightarrow>
   ('w, unit) prog" where
  "waitForOperation fuel a c op zone timeout = (case op of
     None \<Rightarrow> ret ()
   | Some p \<Rightarrow> observe (gcp_clock a) (\<lambda>t0.
       wait_loop fuel a (WithTimeout (gcp_clock a) t0 c timeout) zone (op_Name p) (Some p)))"

text \<open>The end of \<open>DeleteInstanceAddress\<close> and \<open>AddInstanceAddress\<close>: operation errors are returned, all
  others logged (with the operation's name) and dropped.\<close>

definition await ::
  "nat \<Rightarrow> 'w gcpAssigner \<Rightarrow> 'w go_context \<Rightarrow> compute_Operation option \<Rightarrow> string \<Rightarrow> ('w, unit) prog" where
  "await fuel a ctx op zone =
     attempt (waitForOperation fuel a ctx op zone defaultTimeout)
       (\<lambda>err. if isOperationError err then throw err
              else check (lift (deref op)) id (\<lambda>_. ret ()))
       (\<lambda>_. ret ())"

subsection \<open>Access configs\<close>

definition getAccessConfig :: "NetworkInterface \<Rightarrow> bool \<Rightarrow> AccessConfig result" where
  "getAccessConfig networkInterface ipv6 =
     (if ipv6 then
        (case Ipv6AccessConfigs networkInterface of
           [] \<Rightarrow> Fail (Sentinel ErrNoPublicIPAssigned) | c # _ \<Rightarrow> Ok c)
      else
        (case AccessConfigs networkInterface of
           [] \<Rightarrow> Fail (Sentinel ErrNoPublicIPAssigned) | c # _ \<Rightarrow> Ok c))"

definition getNetworkInterface :: "compute_Instance \<Rightarrow> NetworkInterface result" where
  "getNetworkInterface inst = (case NetworkInterfaces inst of
     [] \<Rightarrow> Fail (new_error ''instance has no network interfaces'' []) | n # _ \<Rightarrow> Ok n)"

definition addressAddressOrEmpty :: "compute_Address option \<Rightarrow> string" where
  "addressAddressOrEmpty address = (case address of None \<Rightarrow> '''' | Some x \<Rightarrow> ga_Address x)"

definition addressNetworkTierOrDefault :: "compute_Address option \<Rightarrow> string" where
  "addressNetworkTierOrDefault address =
     (case address of None \<Rightarrow> defaultNetworkTier | Some x \<Rightarrow> ga_NetworkTier x)"

definition addressPrefixLengthOrDefault :: "compute_Address option \<Rightarrow> go_int" where
  "addressPrefixLengthOrDefault address =
     (case address of None \<Rightarrow> defaultPrefixLength | Some x \<Rightarrow> PrefixLength x)"

definition createAccessConfig :: "compute_Address option \<Rightarrow> bool \<Rightarrow> AccessConfig" where
  "createAccessConfig address ipv6 =
     (let c = \<lparr>ac_Name = defaultNetworkName, ac_Type = defaultAccessConfigType,
               ac_Kind = accessConfigKind, NatIP = [], ExternalIpv6 = [], ac_NetworkTier = [],
               ExternalIpv6PrefixLength = 0\<rparr> in
      if ipv6 then
        c\<lparr>ac_Name := defaultNetworkNameIPv6, ac_Type := defaultAccessConfigIPv6Type,
          ExternalIpv6 := addressAddressOrEmpty address,
          ac_NetworkTier := addressNetworkTierOrDefault address,
          ExternalIpv6PrefixLength := addressPrefixLengthOrDefault address\<rparr>
      else c\<lparr>NatIP := addressAddressOrEmpty address\<rparr>)"

definition DeleteInstanceAddress ::
  "nat \<Rightarrow> 'w gcpAssigner \<Rightarrow> 'w go_context \<Rightarrow> compute_Instance \<Rightarrow> string \<Rightarrow> ('w, unit) prog" where
  "DeleteInstanceAddress fuel a ctx inst zone =
     check (lift (getNetworkInterface inst)) (wrap ''failed to get instance network interface'' [])
       (\<lambda>networkInterface.
     check (lift (getAccessConfig networkInterface (gcp_ipv6 a)))
       (wrap ''failed to get instance network interface access config'' []) (\<lambda>accessConfig.
     check (gcp_DeleteAccessConfig a (gcp_project a) zone (gi_Name inst) (ac_Name accessConfig)
              (nif_Name networkInterface) (Fingerprint networkInterface))
       (wrap ''failed to delete access config %s from instance %s'' [ac_Name accessConfig, gi_Name inst])
       (\<lambda>op. await fuel a ctx op zone)))"

definition AddInstanceAddress ::
  "nat \<Rightarrow> 'w gcpAssigner \<Rightarrow> 'w go_context \<Rightarrow> compute_Instance \<Rightarrow> string \<Rightarrow> compute_Address option \<Rightarrow>
   ('w, unit) prog" where
  "AddInstanceAddress fuel a ctx inst zone address =
     check (lift (getNetworkInterface inst)) (wrap ''failed to get instance network interface'' [])
       (\<lambda>networkInterface.
     check (gcp_AddAccessConfig a (gcp_project a) zone (gi_Name inst) (nif_Name networkInterface)
              (Fingerprint networkInterface) (createAccessConfig address (gcp_ipv6 a)))
       (wrap ''failed to add access config to instance %s'' [gi_Name inst])
       (\<lambda>op. await fuel a ctx op zone))"

definition CheckAddressAssigned ::
  "'w gcpAssigner \<Rightarrow> string \<Rightarrow> string \<Rightarrow> ('w, bool) prog" where
  "CheckAddressAssigned a region addressName =
     check (gcp_GetAddress a (gcp_project a) region addressName)
       (wrap ''failed to get address %s'' [addressName]) (\<lambda>address.
     ret (ga_Status address = inUseStatus))"

subsection \<open>Listing addresses\<close>

definition address_filters :: "'w gcpAssigner \<Rightarrow> string list \<Rightarrow> string \<Rightarrow> string list" where
  "address_filters a filt status =
     [''(status='' @ status @ '')'', ''(addressType=EXTERNAL)''] @
     (if gcp_ipv6 a then [''(ipVersion=IPV6)''] else [''(ipVersion!=IPV6)'']) @
     map (\<lambda>f. ''('' @ f @ '')'') filt"

definition address_call :: "'w gcpAssigner \<Rightarrow> string list \<Rightarrow> string \<Rightarrow> string \<Rightarrow> gcpListCall" where
  "address_call a filt orderBy status =
     (let call = call_Filter (gcpLister_List (gcp_project a) (gcp_region a))
                   (Join (address_filters a filt status) '' '') in
      if orderBy \<noteq> '''' then call_OrderBy call orderBy else call)"

fun list_pages ::
  "nat \<Rightarrow> 'w gcpAssigner \<Rightarrow> gcpListCall \<Rightarrow> compute_Address list \<Rightarrow> ('w, compute_Address list) prog" where
  "list_pages 0 a call addresses = abort OutOfFuel"
| "list_pages (Suc n) a call addresses =
     check (gcp_list_Do a call) (wrap ''failed to list available addresses'' []) (\<lambda>page.
     if NextPageToken page = '''' then ret (addresses @ Items page)
     else list_pages n a (call_PageToken call (NextPageToken page)) (addresses @ Items page))"

definition listAddresses ::
  "nat \<Rightarrow> 'w gcpAssigner \<Rightarrow> string list \<Rightarrow> string \<Rightarrow> string \<Rightarrow> ('w, compute_Address list) prog" where
  "listAddresses fuel a filt orderBy status = list_pages fuel a (address_call a filt orderBy status) []"

definition createUserMap :: "compute_Address list \<Rightarrow> (string \<times> string) list" where
  "createUserMap assigned =
     fold (\<lambda>address users. fold (\<lambda>user. AList.update user (ga_Address address)) (Users address) users)
       assigned []"

text \<open>\<open>checkStaticIPAssigned\<close> returns the instance, the address and the error, all three as they are.\<close>

definition checkStaticIPAssigned ::
  "nat \<Rightarrow> 'w gcpAssigner \<Rightarrow> string \<Rightarrow> string \<Rightarrow>
   ('w, compute_Instance option \<times> string \<times> go_error option) prog" where
  "checkStaticIPAssigned fuel a zone instanceID =
     attempt (gcp_instance_Get a (gcp_project a) zone instanceID)
       (\<lambda>err. ret (None, '''', Some (wrap ''failed to get instance %s'' [instanceID] err))) (\<lambda>inst.
     attempt (listAddresses fuel a [] '''' inUseStatus)
       (\<lambda>err. ret (None, '''', Some (wrap ''failed to list assigned addresses'' [] err))) (\<lambda>assigned.
     case map_of (createUserMap assigned) (SelfLink inst) of
       Some address \<Rightarrow> ret (None, address, Some (Sentinel ErrStaticIPAlreadyAssigned))
     | None \<Rightarrow> ret (Some inst, '''', None)))"

subsection \<open>Assign\<close>

text \<open>The interface \<open>internalAssigner\<close> that the two helper functions take.\<close>

record 'w internalAssigner =
  as_CheckAddressAssigned :: "string \<Rightarrow> string \<Rightarrow> ('w, bool) prog"
  as_AddInstanceAddress ::
    "'w go_context \<Rightarrow> compute_Instance \<Rightarrow> string \<Rightarrow> compute_Address option \<Rightarrow> ('w, unit) prog"
  as_DeleteInstanceAddress :: "'w go_context \<Rightarrow> compute_Instance \<Rightarrow> string \<Rightarrow> ('w, unit) prog"

definition internal_assigner :: "nat \<Rightarrow> 'w gcpAssigner \<Rightarrow> 'w internalAssigner" where
  "internal_assigner fuel a = \<lparr>
     as_CheckAddressAssigned = CheckAddressAssigned a,
     as_AddInstanceAddress = AddInstanceAddress fuel a,
     as_DeleteInstanceAddress = DeleteInstanceAddress fuel a\<rparr>"

definition tryAssignAddress ::
  "'w go_context \<Rightarrow> 'w internalAssigner \<Rightarrow> compute_Instance \<Rightarrow> string \<Rightarrow> string \<Rightarrow>
   compute_Address \<Rightarrow> ('w, unit) prog" where
  "tryAssignAddress ctx as inst region zone address =
     check (as_CheckAddressAssigned as region (ga_Name address))
       (wrap ''failed to check if address is assigned'' []) (\<lambda>addressAssigned.
     if addressAssigned then throw (new_error ''address is already assigned'' [])
     else check (as_AddInstanceAddress as ctx inst zone (Some address))
       (wrap ''failed to assign static public IP address'' []) ret)"

fun retry_loop ::
  "nat \<Rightarrow> 'w go_context \<Rightarrow> 'w internalAssigner \<Rightarrow> compute_Instance \<Rightarrow> string \<Rightarrow> ('w, unit) prog" where
  "retry_loop 0 ctx as inst zone = throw (new_error ''reached max retries'' [])"
| "retry_loop (Suc i) ctx as inst zone = observe (ctx_Err ctx) (\<lambda>done.
     case done of
       Some e \<Rightarrow> throw (wrap ''context cancelled while assigning ephemeral addresses'' [] e)
     | None \<Rightarrow> attempt (as_AddInstanceAddress as ctx inst zone None)
         (\<lambda>_. retry_loop i ctx as inst zone) ret)"

definition retryAddEphemeralAddress ::
  "'w go_context \<Rightarrow> 'w internalAssigner \<Rightarrow> compute_Instance \<Rightarrow> string \<Rightarrow> ('w, unit) prog" where
  "retryAddEphemeralAddress ctx as inst zone = retry_loop maxRetries ctx as inst zone"

fun gcp_assign_loop ::
  "nat \<Rightarrow> 'w gcpAssigner \<Rightarrow> 'w go_context \<Rightarrow> compute_Instance \<Rightarrow> string \<Rightarrow> compute_Address list \<Rightarrow>
   go_error option \<Rightarrow> ('w, string) prog" where
  "gcp_assign_loop fuel a ctx inst zone [] err = (case err of
     Some e \<Rightarrow> throw (wrap ''failed to assign static public IP address'' [] e)
   | None \<Rightarrow> ret '''')"
| "gcp_assign_loop fuel a ctx inst zone (address # rest) err = observe (ctx_Err ctx) (\<lambda>done.
     case done of
       Some e \<Rightarrow> throw (wrap ''context cancelled while assigning addresses'' [] e)
     | None \<Rightarrow>
         attempt (tryAssignAddress ctx (internal_assigner fuel a) inst (gcp_region a) zone address)
           (\<lambda>e. gcp_assign_loop fuel a ctx inst zone rest (Some e))
           (\<lambda>_. ret (ga_Address address)))"

text \<open>The part of \<open>Assign\<close> after the check for an address the instance already has.\<close>

definition gcp_assign_new ::
  "nat \<Rightarrow> 'w gcpAssigner \<Rightarrow> 'w go_context \<Rightarrow> string \<Rightarrow> string \<Rightarrow> string list \<Rightarrow> string \<Rightarrow>
   compute_Instance \<Rightarrow> ('w, string) prog" where
  "gcp_assign_new fuel a ctx instanceID zone filt orderBy inst =
     check (listAddresses fuel a filt orderBy reservedStatus)
       (wrap ''failed to list available addresses'' []) (\<lambda>addresses.
     if addresses = [] then throw (new_error ''no available addresses'' [])
     else
     check (attempt (DeleteInstanceAddress fuel a ctx inst zone)
              (\<lambda>e. if errors_is e ErrNoPublicIPAssigned then ret () else throw e) ret)
       (wrap ''failed to delete current public IP address'' []) (\<lambda>_.
     check (gcp_instance_Get a (gcp_project a) zone instanceID)
       (wrap ''failed refresh network interface fingerprint for instance %s'' [instanceID]) (\<lambda>inst.
     gcp_assign_loop fuel a ctx inst zone addresses None)))"

definition gcp_Assign ::
  "nat \<Rightarrow> 'w gcpAssigner \<Rightarrow> 'w go_context \<Rightarrow> string \<Rightarrow> string \<Rightarrow> string list \<Rightarrow> string \<Rightarrow>
   ('w, string) prog" where
  "gcp_Assign fuel a ctx instanceID zone filt orderBy =
     check (checkStaticIPAssigned fuel a zone instanceID) id (\<lambda>(inst, address, err).
     case err of
       Some e \<Rightarrow>
         if errors_is e ErrStaticIPAlreadyAssigned then ret address
         else throw (wrap ''check if static public IP is already assigned to instance %s'' [instanceID] e)
     | None \<Rightarrow>
         check (lift (deref inst)) id (gcp_assign_new fuel a ctx instanceID zone filt orderBy))"

subsection \<open>Unassign\<close>

definition gcp_Unassign ::
  "nat \<Rightarrow> 'w gcpAssigner \<Rightarrow> 'w go_context \<Rightarrow> string \<Rightarrow> string \<Rightarrow> ('w, unit) prog" where
  "gcp_Unassign fuel a ctx instanceID zone =
     check (gcp_instance_Get a (gcp_project a) zone instanceID)
       (wrap ''failed to get instance %s'' [instanceID]) (\<lambda>inst.
     check (listAddresses fuel a [] '''' inUseStatus)
       (wrap ''failed to list assigned addresses'' []) (\<lambda>assigned.
     if assigned = [] then throw (Sentinel ErrNoStaticIPAssigned)
     else if map_of (createUserMap assigned) (SelfLink inst) \<noteq> None then
       check (DeleteInstanceAddress fuel a ctx inst zone)
         (wrap ''failed to delete current public IP address'' []) (\<lambda>_.
       check (gcp_instance_Get a (gcp_project a) zone instanceID)
         (wrap ''failed refresh network interface fingerprint for instance %s'' [instanceID]) (\<lambda>inst.
       check (retryAddEphemeralAddress ctx (internal_assigner fuel a) inst zone)
         (wrap ''failed to assign ephemeral public IP address'' []) ret))
     else ret ()))"

subsection \<open>The region\<close>

text \<open>The region taken from the metadata of a zonal cluster is the zone without its one-letter
  suffix, and the location of a regional cluster, which does not end that way, is kept as it is.\<close>

theorem zone_to_region_correct:
  "zone_to_region (r # rs @ [CHR ''-'', c]) = r # rs \<and>
   (2 \<le> length reg \<and> reg ! (length reg - 2) \<noteq> CHR ''-'' \<longrightarrow> zone_to_region reg = reg)"
  by (simp add: zone_to_region_def nth_append)

lemma zone_to_region_correct_witness:
  "zone_to_region ''us-central1-a'' = ''us-central1'' \<and> zone_to_region ''us-east10'' = ''us-east10''"
  using zone_to_region_correct [of "CHR ''u''" "''s-central1''" "CHR ''a''" "''us-east10''"] by simp

subsection \<open>Listing\<close>

text \<open>The pages of a listing as the service hands them out: \<open>ps\<close> are the pages from this call on.\<close>

fun page_chain ::
  "'w gcpAssigner \<Rightarrow> gcpListCall \<Rightarrow> 'w \<Rightarrow> compute_Address list list \<Rightarrow> 'w \<Rightarrow> bool" where
  "page_chain a call w [] w' = False"
| "page_chain a call w (p # ps) w' =
     (\<exists>tok w1. gcp_list_Do a call w = (Ok \<lparr>Items = p, NextPageToken = tok\<rparr>, w1) \<and>
        (if ps = [] then tok = [] \<and> w1 = w'
         else tok \<noteq> [] \<and> page_chain a (call_PageToken call tok) w1 ps w'))"

lemma page_chain_nonempty: "page_chain a call w ps w' \<Longrightarrow> ps \<noteq> []"
  by (cases ps) auto

lemma list_pages_chain:
  "list_pages n a call acc w = (Ok xs, w') \<Longrightarrow>
     \<exists>ps. page_chain a call w ps w' \<and> length ps \<le> n \<and> xs = acc @ concat ps"
proof (induction n arbitrary: call acc w)
  case (Suc n)
  then obtain page w1 where d: "gcp_list_Do a call w = (Ok page, w1)" and
    r: "(if NextPageToken page = '''' then ret (acc @ Items page)
         else list_pages n a (call_PageToken call (NextPageToken page)) (acc @ Items page)) w1
        = (Ok xs, w')"
    by (auto simp: check_Ok_iff)
  obtain its tok where page: "page = \<lparr>Items = its, NextPageToken = tok\<rparr>" by (cases page)
  show ?case
  proof (cases "tok = ''''")
    case True
    with d r page have "page_chain a call w [its] w' \<and> length [its] \<le> Suc n \<and> xs = acc @ concat [its]"
      by simp
    then show ?thesis by blast
  next
    case False
    with r page Suc.IH [of "call_PageToken call tok" "acc @ its" w1]
    obtain ps where ps: "page_chain a (call_PageToken call tok) w1 ps w'" "length ps \<le> n"
      "xs = (acc @ its) @ concat ps"
      by auto
    with page_chain_nonempty [OF ps(1)] d page False
    have "page_chain a call w (its # ps) w' \<and> length (its # ps) \<le> Suc n \<and> xs = acc @ concat (its # ps)"
      by simp
    then show ?thesis by blast
  qed
qed simp

lemma chain_list_pages:
  "page_chain a call w ps w' \<Longrightarrow> length ps \<le> n \<Longrightarrow>
     list_pages n a call acc w = (Ok (acc @ concat ps), w')"
proof (induction ps arbitrary: n call acc w)
  case (Cons p ps)
  then obtain m where n: "n = Suc m" by (cases n) auto
  from Cons obtain tok w1 where d: "gcp_list_Do a call w = (Ok \<lparr>Items = p, NextPageToken = tok\<rparr>, w1)"
    and rest: "if ps = [] then tok = [] \<and> w1 = w'
      else tok \<noteq> [] \<and> page_chain a (call_PageToken call tok) w1 ps w'"
    by auto
  show ?case
  proof (cases "ps = []")
    case False
    with rest Cons.IH [of "call_PageToken call tok" w1 m "acc @ p"] Cons.prems n
    have "list_pages m a (call_PageToken call tok) (acc @ p) w1 = (Ok (acc @ p @ concat ps), w')"
      by simp
    with d rest False n show ?thesis by simp
  qed (use d rest n in simp)
qed simp

text \<open>C29. A listing collects every page: it returns exactly when the service hands out a last page within
  the fuel, and then it returns the addresses of all pages, in order, none dropped or doubled.\<close>

theorem gcp_list_all_pages:
  "listAddresses fuel a filt orderBy status w = (Ok xs, w') \<longleftrightarrow>
     (\<exists>ps. page_chain a (address_call a filt orderBy status) w ps w' \<and> length ps \<le> fuel \<and> xs = concat ps)"
  using list_pages_chain [of fuel a "address_call a filt orderBy status" "[]" w xs w']
    chain_list_pages [of a "address_call a filt orderBy status" w _ w' fuel "[]"]
  by (auto simp: listAddresses_def)

lemma fold_update_all:
  "map_of (fold (\<lambda>user. AList.update user v) us m) u = (if u \<in> set us then Some v else map_of m u)"
  by (induction us arbitrary: m) (auto simp: update_conv')

lemma find_snoc:
  "find P (ys @ [x]) = (case find P ys of Some y \<Rightarrow> Some y | None \<Rightarrow> if P x then Some x else None)"
  by (induction ys) auto

lemma fold_users:
  "map_of (fold (\<lambda>address users. fold (\<lambda>user. AList.update user (ga_Address address)) (Users address) users)
     xs m) u =
   (case find (\<lambda>x. u \<in> set (Users x)) (rev xs) of Some x \<Rightarrow> Some (ga_Address x) | None \<Rightarrow> map_of m u)"
  by (induction xs arbitrary: m) (simp_all add: find_snoc fold_update_all split: option.split)

text \<open>The user map holds for every resource the address of the last listed entry that names it as a
  user, and nothing else.\<close>

theorem user_map_last:
  "map_of (createUserMap xs) u = map_option ga_Address (find (\<lambda>x. u \<in> set (Users x)) (rev xs))"
  by (simp add: createUserMap_def fold_users split: option.split)

subsection \<open>Waiting\<close>

text \<open>What the documentation says of a wait call, \<open>D\<close> nanoseconds being the least time it takes when it
  does not bring the end of the operation: the server holds the request until the operation is done
  or its own time limit of some two minutes is over. And a call whose context has ended returns an
  error, as every HTTP request of Go does.\<close>

definition wait_laws :: "'w gcpAssigner \<Rightarrow> int \<Rightarrow> bool" where
  "wait_laws a D \<longleftrightarrow> (\<forall>c w r w'. gcp_wait_Do a c w = (r, w') \<longrightarrow> r \<noteq> Abort OutOfFuel \<and>
     (ctx_Err (wait_context c) w \<noteq> None \<longrightarrow> (\<exists>e. r = Fail e)) \<and>
     (\<forall>p. r = Ok (Some p) \<longrightarrow> op_Status p \<noteq> operationDone \<longrightarrow> gcp_clock a w + D \<le> gcp_clock a w'))"

declare wait_loop.simps(2) [simp del]

lemma wait_loop_done [simp]: "op_Status op = operationDone \<Longrightarrow> wait_loop n a ctx zone name (Some op) = ret ()"
  by (simp add: wait_loop.simps(2))

lemma wait_loop_Suc [simp]:
  "op_Status op \<noteq> operationDone \<Longrightarrow> wait_loop (Suc n) a ctx zone name (Some op) =
     attempt (gcp_wait_Do a (waitCall_Context (zoneWaiter_Wait (gcp_project a) zone name) ctx))
       (\<lambda>err. if errors_is err ContextCanceled then throw (new_error ''operation timed out'' [])
              else throw (wrap ''failed to get operation %s'' [name] err))
       (\<lambda>op. case op of
           None \<Rightarrow> abort Panic
         | Some p \<Rightarrow>
             if op_Error p \<noteq> None then throw (newOperationError (op_Name p) (op_Error p))
             else wait_loop n a ctx zone name (Some p))"
  by (simp add: wait_loop.simps(2) cong: option.case_cong)

lemma wait_loop_more_fuel:
  "fst (wait_loop n a ctx zone name op w) \<noteq> Abort OutOfFuel \<Longrightarrow>
     wait_loop (n + m) a ctx zone name op w = wait_loop n a ctx zone name op w"
proof (induction n arbitrary: op w)
  case 0
  then show ?case
    by (cases op; cases "op_Status (the op) = operationDone") (auto simp: wait_loop.simps(2))
next
  case (Suc n)
  let ?c = "waitCall_Context (zoneWaiter_Wait (gcp_project a) zone name) ctx"
  show ?case
  proof (cases op)
    case (Some p)
    show ?thesis
    proof (cases "op_Status p = operationDone")
      case False
      obtain r w1 where d: "gcp_wait_Do a ?c w = (r, w1)" by (cases "gcp_wait_Do a ?c w")
      from Suc.IH [of "Some q" w1 for q] Suc.prems show ?thesis
        using d False Some by (cases r) (auto split: option.splits if_splits)
    qed (simp add: Some)
  qed simp
qed

text \<open>A loop under a context that ends at \<open>d\<close>: each round that is not the last brings the clock nearer.\<close>

lemma wait_loop_deadline:
  assumes "wait_laws a D" and "\<And>v. d \<le> gcp_clock a v \<Longrightarrow> ctx_Err ctx v \<noteq> None"
  shows "0 < n \<Longrightarrow> d + D \<le> gcp_clock a w + int n * D \<Longrightarrow>
    fst (wait_loop n a ctx zone name (Some op) w) \<noteq> Abort OutOfFuel"
proof (induction n arbitrary: op w)
  case (Suc n)
  let ?c = "waitCall_Context (zoneWaiter_Wait (gcp_project a) zone name) ctx"
  obtain r w1 where d: "gcp_wait_Do a ?c w = (r, w1)" by (cases "gcp_wait_Do a ?c w")
  note law = assms(1) [unfolded wait_laws_def, rule_format, OF d]
  have next_round: "fst (wait_loop n a ctx zone name (Some p) w1) \<noteq> Abort OutOfFuel" if r: "r = Ok (Some p)" for p
  proof (cases "op_Status p = operationDone")
    case False
    with law r have later: "gcp_clock a w + D \<le> gcp_clock a w1" by blast
    from law r have "ctx_Err ctx w = None" by (auto simp: waitCall_Context_def zoneWaiter_Wait_def)
    with assms(2) [of w] have "\<not> d \<le> gcp_clock a w" by auto
    with Suc.prems(2) have "0 < n" by (cases n) auto
    moreover from later Suc.prems(2) have "d + D \<le> gcp_clock a w1 + int n * D" by (simp add: algebra_simps)
    ultimately show ?thesis by (rule Suc.IH)
  qed simp
  show ?case
  proof (cases "op_Status op = operationDone")
    case False
    then show ?thesis using d law next_round by (cases r) (auto split: option.split)
  qed simp
qed simp

lemma WithTimeout_ends:
  assumes "t0 + sint timeout \<le> now v"
  shows "ctx_Err (WithTimeout now t0 c timeout) v \<noteq> None"
  using assms by (auto simp: WithTimeout_def Let_def split: option.split)

text \<open>C31. \<open>waitForOperation\<close> returns, because its context does: if a wait call that brings no end of the
  operation takes at least \<open>D\<close> nanoseconds, then after at most \<open>timeout / D + 1\<close> rounds (rounded up) the
  loop is over, even if the operation never is: every fuel from there on gives one and the same
  result, and it is not the one of a loop that was cut off.\<close>

theorem wait_for_operation_returns:
  assumes "wait_laws a D" "0 < D"
  shows "\<exists>r w'. r \<noteq> Abort OutOfFuel \<and> (\<forall>fuel. 0 < fuel \<longrightarrow> sint timeout + D \<le> int fuel * D \<longrightarrow>
    waitForOperation fuel a c op zone timeout w = (r, w'))"
proof (cases op)
  case None
  then have "\<forall>fuel. waitForOperation fuel a c op zone timeout w = (Ok (), w)"
    by (simp add: waitForOperation_def)
  then show ?thesis by (intro exI [of _ "Ok ()"] exI [of _ w]) simp
next
  case (Some p)
  let ?ctx = "WithTimeout (gcp_clock a) (gcp_clock a w) c timeout"
  let ?loop = "\<lambda>n. wait_loop n a ?ctx zone (op_Name p) (Some p) w"
  have enough: "fst (?loop n) \<noteq> Abort OutOfFuel" if "0 < n" "sint timeout + D \<le> int n * D" for n
    by (rule wait_loop_deadline [where d = "gcp_clock a w + sint timeout", OF assms(1) WithTimeout_ends that(1)])
      (use that(2) in linarith)+
  obtain m where m: "0 < m" "sint timeout + D \<le> int m * D"
  proof
    show "0 < nat (\<bar>sint timeout\<bar> + 1)" by simp
    have "\<bar>sint timeout\<bar> * 1 \<le> \<bar>sint timeout\<bar> * D" using assms(2) by (intro mult_left_mono) auto
    then show "sint timeout + D \<le> int (nat (\<bar>sint timeout\<bar> + 1)) * D" by (simp add: algebra_simps)
  qed
  have "?loop n = ?loop m" if "0 < n" "sint timeout + D \<le> int n * D" for n
    using wait_loop_more_fuel [OF enough [OF m], of "n - m"] wait_loop_more_fuel [OF enough [OF that], of "m - n"]
    by (cases "n \<le> m") simp_all
  moreover have "waitForOperation n a c op zone timeout w = ?loop n" for n
    using Some by (simp add: waitForOperation_def)
  ultimately show ?thesis
    using enough [OF m] by (intro exI [of _ "fst (?loop m)"] exI [of _ "snd (?loop m)"]) simp
qed

text \<open>C37. A failed operation can pass for a success: if the API answers the request with an operation that
  is already \<open>DONE\<close> and carries errors, the loop that would look at them is not entered, and
  \<open>AddInstanceAddress\<close> reports success.\<close>

theorem done_operation_error_ignored:
  assumes "NetworkInterfaces inst = nif # nifs"
    and "gcp_AddAccessConfig a (gcp_project a) zone (gi_Name inst) (nif_Name nif) (Fingerprint nif)
           (createAccessConfig address (gcp_ipv6 a)) w = (Ok (Some p), w')"
    and "op_Status p = operationDone" and "op_Error p = Some errs"
  shows "AddInstanceAddress fuel a ctx inst zone address w = (Ok (), w')"
proof -
  have "await fuel a ctx (Some p) zone w' = (Ok (), w')"
    using assms(3) by (simp add: await_def waitForOperation_def attempt_def)
  with assms(1,2) show ?thesis by (simp add: AddInstanceAddress_def getNetworkInterface_def)
qed

subsection \<open>Assign and Unassign\<close>

lemma gcp_assign_loop_Ok:
  assumes "gcp_assign_loop fuel a ctx inst zone xs err w = (Ok ip, w')" "xs \<noteq> [] \<or> err \<noteq> None"
  shows "\<exists>x \<in> set xs. \<exists>v v1. ip = ga_Address x \<and> ctx_Err ctx v = None \<and>
    CheckAddressAssigned a (gcp_region a) (ga_Name x) v = (Ok False, v1) \<and>
    AddInstanceAddress fuel a ctx inst zone (Some x) v1 = (Ok (), w')"
  using assms
proof (induction xs arbitrary: err w)
  case Nil
  then show ?case by (auto simp: option_throw_Ok_iff split: option.splits)
next
  case (Cons x xs)
  have alive: "ctx_Err ctx w = None"
    using Cons.prems(1) by (cases "ctx_Err ctx w") auto
  let ?attempt = "tryAssignAddress ctx (internal_assigner fuel a) inst (gcp_region a) zone x"
  show ?case
  proof (cases rule: attempt_cases [of ?attempt w "\<lambda>e. gcp_assign_loop fuel a ctx inst zone xs (Some e)"
        "\<lambda>_. ret (ga_Address x)"])
    case (Ok y w1)
    with Cons.prems(1) alive have "ip = ga_Address x" "w1 = w'" by simp_all
    moreover from Ok(1) obtain v1 where "CheckAddressAssigned a (gcp_region a) (ga_Name x) w = (Ok False, v1)"
      "AddInstanceAddress fuel a ctx inst zone (Some x) v1 = (Ok (), w1)"
      by (auto simp: tryAssignAddress_def internal_assigner_def returned)
    ultimately show ?thesis using alive by auto
  next
    case (Fail e w1)
    with Cons.prems(1) alive have "gcp_assign_loop fuel a ctx inst zone xs (Some e) w1 = (Ok ip, w')" by simp
    with Cons.IH show ?thesis by fastforce
  next
    case (Abort b w1)
    with Cons.prems(1) alive show ?thesis by simp
  qed
qed

text \<open>The two ways \<open>Assign\<close> succeeds: the instance is a user of an in-use address, which is returned; or
  a listed address was seen not in use and directly afterwards added to the instance.\<close>

definition gcp_kept ::
  "nat \<Rightarrow> 'w gcpAssigner \<Rightarrow> string \<Rightarrow> string \<Rightarrow> 'w \<Rightarrow> string \<Rightarrow> 'w \<Rightarrow> bool" where
  "gcp_kept fuel a iid zone w ip w' \<longleftrightarrow>
     (\<exists>inst w1 xs. gcp_instance_Get a (gcp_project a) zone iid w = (Ok inst, w1) \<and>
        listAddresses fuel a [] '''' inUseStatus w1 = (Ok xs, w') \<and>
        map_of (createUserMap xs) (SelfLink inst) = Some ip)"

definition gcp_added ::
  "nat \<Rightarrow> 'w gcpAssigner \<Rightarrow> 'w go_context \<Rightarrow> string \<Rightarrow> string \<Rightarrow> string list \<Rightarrow> string \<Rightarrow> string \<Rightarrow> 'w \<Rightarrow> bool" where
  "gcp_added fuel a ctx iid zone filt ob ip w' \<longleftrightarrow>
     (\<exists>xs v0 v1 x inst v2 v3 v v'. listAddresses fuel a filt ob reservedStatus v0 = (Ok xs, v1) \<and>
        x \<in> set xs \<and> ip = ga_Address x \<and>
        gcp_instance_Get a (gcp_project a) zone iid v2 = (Ok inst, v3) \<and> ctx_Err ctx v = None \<and>
        CheckAddressAssigned a (gcp_region a) (ga_Name x) v = (Ok False, v') \<and>
        AddInstanceAddress fuel a ctx inst zone (Some x) v' = (Ok (), w'))"

lemma gcp_assign_new_Ok:
  assumes "gcp_assign_new fuel a ctx iid zone filt ob inst w = (Ok ip, w')"
  shows "gcp_added fuel a ctx iid zone filt ob ip w'"
proof -
  from assms obtain xs w1 w2 inst' w3 where "listAddresses fuel a filt ob reservedStatus w = (Ok xs, w1)"
    and "xs \<noteq> []" and "gcp_instance_Get a (gcp_project a) zone iid w2 = (Ok inst', w3)"
    and l: "gcp_assign_loop fuel a ctx inst' zone xs None w3 = (Ok ip, w')"
    by (auto simp: gcp_assign_new_def returned)
  with gcp_assign_loop_Ok [OF l] show ?thesis unfolding gcp_added_def by blast
qed

lemma gcp_Assign_cases:
  assumes "gcp_Assign fuel a ctx iid zone filt ob w = (Ok ip, w')" "ip \<noteq> ''''"
  shows "gcp_kept fuel a iid zone w ip w' \<or> gcp_added fuel a ctx iid zone filt ob ip w'"
proof -
  from assms(1) obtain inst address err w1 where
    c: "checkStaticIPAssigned fuel a zone iid w = (Ok (inst, address, err), w1)" and
    r: "(case err of
          Some e \<Rightarrow> if errors_is e ErrStaticIPAlreadyAssigned then ret address
            else throw (wrap ''check if static public IP is already assigned to instance %s'' [iid] e)
        | None \<Rightarrow> check (lift (deref inst)) id (gcp_assign_new fuel a ctx iid zone filt ob)) w1
        = (Ok ip, w')"
    unfolding gcp_Assign_def check_Ok_iff by auto
  show ?thesis
  proof (cases err)
    case None
    with r have "\<exists>i. gcp_assign_new fuel a ctx iid zone filt ob i w1 = (Ok ip, w')"
      by (auto simp: check_Ok_iff)
    then show ?thesis by (auto dest: gcp_assign_new_Ok)
  next
    case (Some e)
    with r have "address = ip \<and> w1 = w'" by (auto split: if_splits)
    with c Some assms(2) show ?thesis
      by (auto simp: gcp_kept_def checkStaticIPAssigned_def attempt_Ok_iff split: option.splits)
  qed
qed

text \<open>C9. What a successful \<open>Assign\<close> has done: it returns either the static address that the project's
  in-use addresses list for the instance, and then these two reads were its only calls; or one of the
  reserved addresses it listed, which was not in use when it was looked at, directly before it was
  added to the refreshed instance, while the context was alive.\<close>

theorem gcp_assign_result:
  assumes "gcp_Assign fuel a ctx iid zone filt ob w = (Ok ip, w')" "ip \<noteq> ''''"
  shows "gcp_kept fuel a iid zone w ip w' \<or> gcp_added fuel a ctx iid zone filt ob ip w'"
  using assms by (rule gcp_Assign_cases)

text \<open>A small project for the witnesses: one address; the world says whether it is attached to the one
  instance.\<close>

definition ex_static :: "bool \<Rightarrow> compute_Address" where
  "ex_static w = \<lparr>ga_Name = ''ip-1'', ga_Address = ''35.0.0.1'',
     ga_Status = (if w then inUseStatus else reservedStatus), Users = (if w then [''link-1''] else []),
     ga_NetworkTier = defaultNetworkTier, PrefixLength = 0\<rparr>"

definition ex_vm :: compute_Instance where
  "ex_vm = \<lparr>gi_Name = ''vm-1'', SelfLink = ''link-1'', NetworkInterfaces =
     [\<lparr>nif_Name = ''nic0'', Fingerprint = ''f0'', StackType = ipv4Only,
       AccessConfigs = [createAccessConfig None False], Ipv6AccessConfigs = []\<rparr>]\<rparr>"

definition ex_done :: compute_Operation where
  "ex_done = \<lparr>op_Name = ''op-1'', op_Status = operationDone, op_Error = None\<rparr>"

definition ex_compute :: "bool compute_service" where
  "ex_compute = \<lparr>
     Instances_Get = (\<lambda>_ _ _. ret ex_vm),
     Instances_UpdateNetworkInterface = (\<lambda>_ _ _ _ _. ret (Some ex_done)),
     Instances_AddAccessConfig = (\<lambda>_ _ _ _ c w. (Ok (Some ex_done), NatIP c \<noteq> '''')),
     Instances_DeleteAccessConfig = (\<lambda>_ _ _ _ _ w. (Ok (Some ex_done), False)),
     Addresses_Get = (\<lambda>_ _ _ w. (Ok (ex_static w), w)),
     Addresses_List = (\<lambda>c w. (Ok \<lparr>Items =
         (if w = (call_filter c = Some ''(status=IN_USE) (addressType=EXTERNAL) (ipVersion!=IPV6)'')
          then [ex_static w] else []), NextPageToken = ''''\<rparr>, w)),
     ZoneOperations_Wait = (\<lambda>_ _ _ _. ret (Some ex_done))\<rparr>"

abbreviation ex_gcp :: "bool gcpAssigner" where
  "ex_gcp \<equiv> gcp_services ex_compute (\<lambda>_. 0) ''project-1'' ''us-central1'' False"

lemma ex_gcp_assign:
  "gcp_Assign 1 ex_gcp background ''vm-1'' ''us-central1-a'' [] [] False = (Ok ''35.0.0.1'', True)"
  by code_simp

lemma gcp_assign_result_witness:
  "gcp_kept 1 ex_gcp ''vm-1'' ''us-central1-a'' False ''35.0.0.1'' True \<or>
   gcp_added 1 ex_gcp background ''vm-1'' ''us-central1-a'' [] [] ''35.0.0.1'' True"
  by (rule gcp_assign_result [OF ex_gcp_assign]) simp

text \<open>A service whose operations never end: the world is its clock, and a wait call with a live context
  comes back after two minutes with the operation still running.\<close>

definition ex_endless :: "int gcpAssigner" where
  "ex_endless = gcp_services \<lparr>
     Instances_Get = (\<lambda>_ _ _. ret ex_vm),
     Instances_UpdateNetworkInterface = (\<lambda>_ _ _ _ _. ret None),
     Instances_AddAccessConfig = (\<lambda>_ _ _ _ _. ret None),
     Instances_DeleteAccessConfig = (\<lambda>_ _ _ _ _. ret None),
     Addresses_Get = (\<lambda>_ _ _. ret (ex_static False)),
     Addresses_List = (\<lambda>_. ret \<lparr>Items = [], NextPageToken = ''''\<rparr>),
     ZoneOperations_Wait = (\<lambda>_ _ _ ctx t. case ctx_Err ctx t of
        Some e \<Rightarrow> (Fail e, t) | None \<Rightarrow> (Ok (Some (ex_done\<lparr>op_Status := ''RUNNING''\<rparr>)), t + 120 * 10 ^ 9))\<rparr>
     (\<lambda>t. t) ''project-1'' ''us-central1'' False"

lemma ex_endless_laws: "wait_laws ex_endless (120 * 10 ^ 9)"
  by (auto simp: wait_laws_def ex_endless_def gcp_services_def waitCall_Do_def ex_done_def split: option.splits)

lemma wait_for_operation_returns_witness:
  "fst (waitForOperation 6 ex_endless background (Some (ex_done\<lparr>op_Status := ''RUNNING''\<rparr>))
     ''us-central1-a'' defaultTimeout 0) \<noteq> Abort OutOfFuel"
proof -
  let ?op = "Some (ex_done\<lparr>op_Status := ''RUNNING''\<rparr>)"
  have "0 < (120 * 10 ^ 9 :: int)" by simp
  from wait_for_operation_returns [OF ex_endless_laws this, of defaultTimeout background ?op "''us-central1-a''" 0]
  obtain r w' where "r \<noteq> Abort OutOfFuel"
    and "\<forall>fuel. 0 < fuel \<longrightarrow> sint defaultTimeout + 120 * 10 ^ 9 \<le> int fuel * (120 * 10 ^ 9) \<longrightarrow>
      waitForOperation fuel ex_endless background ?op ''us-central1-a'' defaultTimeout 0 = (r, w')" by blast
  from this(1) this(2) [rule_format, of 6] show ?thesis by (simp add: defaultTimeout_def)
qed

lemma done_operation_error_ignored_witness:
  "AddInstanceAddress 0
     (ex_gcp\<lparr>gcp_AddAccessConfig := (\<lambda>_ _ _ _ _ _. ret (Some (ex_done\<lparr>op_Error := Some (OpError [''quota''])\<rparr>)))\<rparr>)
     background ex_vm ''us-central1-a'' None False = (Ok (), False)"
  by (rule done_operation_error_ignored) (auto simp: ex_vm_def ex_done_def)

text \<open>\<open>n\<close> attempts in a row to add an ephemeral address, all failing, the context alive before each.\<close>

inductive failed_adds ::
  "'w go_context \<Rightarrow> 'w internalAssigner \<Rightarrow> compute_Instance \<Rightarrow> string \<Rightarrow> nat \<Rightarrow> 'w \<Rightarrow> 'w \<Rightarrow> bool"
  for ctx as inst zone where
  none: "failed_adds ctx as inst zone 0 w w"
| more: "ctx_Err ctx w = None \<Longrightarrow> as_AddInstanceAddress as ctx inst zone None w = (Fail e, w1) \<Longrightarrow>
    failed_adds ctx as inst zone n w1 w' \<Longrightarrow> failed_adds ctx as inst zone (Suc n) w w'"

inductive_cases failed_adds_SucE: "failed_adds ctx as inst zone (Suc n) w w'"

lemma failed_adds_0 [simp]: "failed_adds ctx as inst zone 0 w w' \<longleftrightarrow> w' = w"
  by (auto intro: none elim: failed_adds.cases)

lemma retry_loop_Ok_iff:
  "retry_loop m ctx as inst zone w = (Ok (), w') \<longleftrightarrow>
     (\<exists>n < m. \<exists>w1. failed_adds ctx as inst zone n w w1 \<and> ctx_Err ctx w1 = None \<and>
        as_AddInstanceAddress as ctx inst zone None w1 = (Ok (), w'))"
proof (induction m arbitrary: w)
  case (Suc m)
  show ?case
  proof
    assume r: "retry_loop (Suc m) ctx as inst zone w = (Ok (), w')"
    then have alive: "ctx_Err ctx w = None" by (cases "ctx_Err ctx w") auto
    with r consider "as_AddInstanceAddress as ctx inst zone None w = (Ok (), w')"
      | e w1 where "as_AddInstanceAddress as ctx inst zone None w = (Fail e, w1)"
        "retry_loop m ctx as inst zone w1 = (Ok (), w')"
      by (auto simp: attempt_Ok_iff)
    then show "\<exists>n < Suc m. \<exists>w1. failed_adds ctx as inst zone n w w1 \<and> ctx_Err ctx w1 = None \<and>
        as_AddInstanceAddress as ctx inst zone None w1 = (Ok (), w')"
    proof cases
      case 1
      with alive show ?thesis by (intro exI [of _ 0]) simp
    next
      case 2
      with Suc.IH obtain n w2 where "n < m" "failed_adds ctx as inst zone n w1 w2"
        "ctx_Err ctx w2 = None" "as_AddInstanceAddress as ctx inst zone None w2 = (Ok (), w')"
        by blast
      with more [OF alive 2(1)] show ?thesis by (intro exI [of _ "Suc n"]) auto
    qed
  next
    assume "\<exists>n < Suc m. \<exists>w1. failed_adds ctx as inst zone n w w1 \<and> ctx_Err ctx w1 = None \<and>
        as_AddInstanceAddress as ctx inst zone None w1 = (Ok (), w')"
    then obtain n w1 where n: "n < Suc m" "failed_adds ctx as inst zone n w w1"
      and ok: "ctx_Err ctx w1 = None" "as_AddInstanceAddress as ctx inst zone None w1 = (Ok (), w')"
      by blast
    show "retry_loop (Suc m) ctx as inst zone w = (Ok (), w')"
    proof (cases n)
      case 0
      with n ok show ?thesis by simp
    next
      case (Suc n')
      with n(2) obtain e w2 where "ctx_Err ctx w = None"
        "as_AddInstanceAddress as ctx inst zone None w = (Fail e, w2)"
        and f: "failed_adds ctx as inst zone n' w2 w1"
        by (auto elim: failed_adds_SucE)
      moreover have "retry_loop m ctx as inst zone w2 = (Ok (), w')"
        using Suc.IH n(1) Suc f ok by auto
      ultimately show ?thesis by simp
    qed
  qed
qed simp

text \<open>C30. Adding an ephemeral address is tried at most ten times: it succeeds exactly when one of the first
  ten attempts does, all before it having failed, with the context alive before every attempt.\<close>

theorem retry_ephemeral_ten_attempts:
  "retryAddEphemeralAddress ctx as inst zone w = (Ok (), w') \<longleftrightarrow>
     (\<exists>n < 10. \<exists>w1. failed_adds ctx as inst zone n w w1 \<and> ctx_Err ctx w1 = None \<and>
        as_AddInstanceAddress as ctx inst zone None w1 = (Ok (), w'))"
  unfolding retryAddEphemeralAddress_def maxRetries_def by (rule retry_loop_Ok_iff)

lemma user_map_used:
  "map_of (createUserMap xs) u \<noteq> None \<longleftrightarrow> (\<exists>x \<in> set xs. u \<in> set (Users x))"
proof -
  have "find P ys \<noteq> None \<longleftrightarrow> (\<exists>x \<in> set ys. P x)" for P :: "compute_Address \<Rightarrow> bool" and ys
    by (auto simp: find_None_iff)
  then show ?thesis
    by (simp add: createUserMap_def fold_users split: option.split) (metis option.distinct(1) set_rev)
qed

text \<open>The two changes to an instance as requests to the Compute API that were accepted, followed by the
  wait for their operation. An IPv6 address is set or removed by an update of the network interface.\<close>

definition access_deleted ::
  "nat \<Rightarrow> 'w compute_service \<Rightarrow> ('w \<Rightarrow> int) \<Rightarrow> string \<Rightarrow> string \<Rightarrow> bool \<Rightarrow> 'w go_context \<Rightarrow> compute_Instance \<Rightarrow>
   string \<Rightarrow> 'w \<Rightarrow> 'w \<Rightarrow> bool" where
  "access_deleted fuel client now project region ipv6 ctx inst zone w w' \<longleftrightarrow>
     (\<exists>nif nifs c cs op v. NetworkInterfaces inst = nif # nifs \<and>
        (if ipv6 then Ipv6AccessConfigs nif = c # cs \<and>
           Instances_UpdateNetworkInterface client project zone (gi_Name inst) (nif_Name nif)
             \<lparr>nif_Name = '''', Fingerprint = Fingerprint nif, StackType = ''IPV4_ONLY'', AccessConfigs = [],
              Ipv6AccessConfigs = []\<rparr> w = (Ok op, v)
         else AccessConfigs nif = c # cs \<and>
           Instances_DeleteAccessConfig client project zone (gi_Name inst) (ac_Name c) (nif_Name nif) w = (Ok op, v)) \<and>
        await fuel (gcp_services client now project region ipv6) ctx op zone v = (Ok (), w'))"

definition access_added ::
  "nat \<Rightarrow> 'w compute_service \<Rightarrow> ('w \<Rightarrow> int) \<Rightarrow> string \<Rightarrow> string \<Rightarrow> bool \<Rightarrow> 'w go_context \<Rightarrow> compute_Instance \<Rightarrow>
   string \<Rightarrow> string \<Rightarrow> 'w \<Rightarrow> 'w \<Rightarrow> bool" where
  "access_added fuel client now project region ipv6 ctx inst zone ip w w' \<longleftrightarrow>
     (\<exists>nif nifs c op v. NetworkInterfaces inst = nif # nifs \<and>
        (if ipv6 then ExternalIpv6 c = ip \<and>
           Instances_UpdateNetworkInterface client project zone (gi_Name inst) (nif_Name nif)
             \<lparr>nif_Name = '''', Fingerprint = Fingerprint nif, StackType = ''IPV4_IPV6'', AccessConfigs = [],
              Ipv6AccessConfigs = [c]\<rparr> w = (Ok op, v)
         else NatIP c = ip \<and>
           Instances_AddAccessConfig client project zone (gi_Name inst) (nif_Name nif) c w = (Ok op, v)) \<and>
        await fuel (gcp_services client now project region ipv6) ctx op zone v = (Ok (), w'))"

lemma getNetworkInterface_Ok: "getNetworkInterface inst = Ok n \<longleftrightarrow> (\<exists>ns. NetworkInterfaces inst = n # ns)"
  by (auto simp: getNetworkInterface_def split: list.splits)

lemma getAccessConfig_Ok: "getAccessConfig n ipv6 = Ok c \<longleftrightarrow>
    (\<exists>cs. (if ipv6 then Ipv6AccessConfigs n else AccessConfigs n) = c # cs)"
  by (auto simp: getAccessConfig_def split: list.splits)

lemma DeleteInstanceAddress_deletes:
  assumes "DeleteInstanceAddress fuel (gcp_services client now project region ipv6) ctx inst zone w = (Ok (), w')"
  shows "access_deleted fuel client now project region ipv6 ctx inst zone w w'"
  using assms
  by (cases ipv6) (auto simp: DeleteInstanceAddress_def check_Ok_iff getNetworkInterface_Ok getAccessConfig_Ok
      access_deleted_def gcp_services_def addressManager_DeleteAccessConfig_def empty_interface_def ipv4Only_def)

lemma AddInstanceAddress_adds:
  assumes "AddInstanceAddress fuel (gcp_services client now project region ipv6) ctx inst zone x w = (Ok (), w')"
  shows "access_added fuel client now project region ipv6 ctx inst zone (addressAddressOrEmpty x) w w'"
proof -
  have c: "ExternalIpv6 (createAccessConfig x True) = addressAddressOrEmpty x"
    "NatIP (createAccessConfig x False) = addressAddressOrEmpty x" by (simp_all add: createAccessConfig_def)
  from assms c show ?thesis
    by (cases ipv6) (fastforce simp: AddInstanceAddress_def check_Ok_iff getNetworkInterface_Ok
        access_added_def gcp_services_def addressManager_AddAccessConfig_def empty_interface_def ipv4ipv6_def)+
qed

definition gcp_released ::
  "nat \<Rightarrow> 'w compute_service \<Rightarrow> ('w \<Rightarrow> int) \<Rightarrow> string \<Rightarrow> string \<Rightarrow> bool \<Rightarrow> 'w go_context \<Rightarrow> string \<Rightarrow> string \<Rightarrow>
   'w \<Rightarrow> 'w \<Rightarrow> bool" where
  "gcp_released fuel client now project region ipv6 ctx iid zone w w' \<longleftrightarrow>
     (\<exists>inst w1 xs w2. Instances_Get client project zone iid w = (Ok inst, w1) \<and>
      listAddresses fuel (gcp_services client now project region ipv6) [] '''' ''IN_USE'' w1 = (Ok xs, w2) \<and>
      xs \<noteq> [] \<and>
      (if \<exists>x \<in> set xs. SelfLink inst \<in> set (Users x)
       then \<exists>w3 inst' w4 w5. access_deleted fuel client now project region ipv6 ctx inst zone w2 w3 \<and>
         Instances_Get client project zone iid w3 = (Ok inst', w4) \<and>
         access_added fuel client now project region ipv6 ctx inst' zone '''' w5 w'
       else w' = w2))"

lemma gcp_Unassign_releases:
  assumes "gcp_Unassign fuel (gcp_services client now project region ipv6) ctx iid zone w = (Ok (), w')"
  shows "gcp_released fuel client now project region ipv6 ctx iid zone w w'"
proof -
  let ?a = "gcp_services client now project region ipv6"
  have get: "gcp_instance_Get ?a (gcp_project ?a) z i = Instances_Get client project z i" for z i
    by (simp add: gcp_services_def instanceGetter_Get_def [abs_def])
  from assms obtain inst w1 xs w2 where
    g: "Instances_Get client project zone iid w = (Ok inst, w1)" and
    l: "listAddresses fuel ?a [] '''' ''IN_USE'' w1 = (Ok xs, w2)" and ne: "xs \<noteq> []" and
    k: "(if map_of (createUserMap xs) (SelfLink inst) \<noteq> None then
       check (DeleteInstanceAddress fuel ?a ctx inst zone)
         (wrap ''failed to delete current public IP address'' []) (\<lambda>_.
       check (Instances_Get client project zone iid)
         (wrap ''failed refresh network interface fingerprint for instance %s'' [iid]) (\<lambda>inst.
       check (retryAddEphemeralAddress ctx (internal_assigner fuel ?a) inst zone)
         (wrap ''failed to assign ephemeral public IP address'' []) ret))
     else ret ()) w2 = (Ok (), w')"
    unfolding gcp_Unassign_def get inUseStatus_def by (auto elim!: check_OkE split: if_splits)
  show ?thesis
  proof (cases "map_of (createUserMap xs) (SelfLink inst) = None")
    case True
    with k g l ne user_map_used [of xs "SelfLink inst"] show ?thesis by (auto simp: gcp_released_def)
  next
    case False
    with k obtain w3 inst' w4 where d: "DeleteInstanceAddress fuel ?a ctx inst zone w2 = (Ok (), w3)"
      and g': "Instances_Get client project zone iid w3 = (Ok inst', w4)"
      and "retryAddEphemeralAddress ctx (internal_assigner fuel ?a) inst' zone w4 = (Ok (), w')"
      by (auto simp: check_Ok_iff)
    then obtain w5 where "AddInstanceAddress fuel ?a ctx inst' zone None w5 = (Ok (), w')"
      by (auto simp: retryAddEphemeralAddress_def retry_loop_Ok_iff internal_assigner_def)
    from AddInstanceAddress_adds [OF this] DeleteInstanceAddress_deletes [OF d] g'
    have "\<exists>w3 inst' w4 w5. access_deleted fuel client now project region ipv6 ctx inst zone w2 w3 \<and>
        Instances_Get client project zone iid w3 = (Ok inst', w4) \<and>
        access_added fuel client now project region ipv6 ctx inst' zone '''' w5 w'"
      by (auto simp: addressAddressOrEmpty_def)
    with False g l ne user_map_used [of xs "SelfLink inst"] show ?thesis by (auto simp: gcp_released_def)
  qed
qed

text \<open>C23. What a successful \<open>Unassign\<close> has asked of the Compute API: if the instance was a user of an
  in-use address, the API accepted the deletion of the first access config of its first interface and
  afterwards, for the refreshed instance, the addition of one without a fixed address, and neither
  wait saw an operation error; if it was not, nothing was changed, and that counts as success as long
  as some other resource of the project uses an address.\<close>

theorem gcp_unassign_result:
  assumes "gcp_Unassign fuel (gcp_services client now project region ipv6) ctx iid zone w = (Ok (), w')"
  shows "\<exists>inst w1 xs w2. Instances_Get client project zone iid w = (Ok inst, w1) \<and>
    listAddresses fuel (gcp_services client now project region ipv6) [] '''' ''IN_USE'' w1 = (Ok xs, w2) \<and>
    xs \<noteq> [] \<and>
    (if \<exists>x \<in> set xs. SelfLink inst \<in> set (Users x)
     then \<exists>w3 inst' w4 w5. access_deleted fuel client now project region ipv6 ctx inst zone w2 w3 \<and>
       Instances_Get client project zone iid w3 = (Ok inst', w4) \<and>
       access_added fuel client now project region ipv6 ctx inst' zone '''' w5 w'
     else w' = w2)"
  using gcp_Unassign_releases [OF assms] unfolding gcp_released_def .

text \<open>The two ways \<open>Assign\<close> gives an address, at the level of the Compute API.\<close>

definition gcp_attached ::
  "nat \<Rightarrow> 'w compute_service \<Rightarrow> ('w \<Rightarrow> int) \<Rightarrow> string \<Rightarrow> string \<Rightarrow> bool \<Rightarrow> 'w go_context \<Rightarrow> string \<Rightarrow> string \<Rightarrow>
   string list \<Rightarrow> string \<Rightarrow> string \<Rightarrow> 'w \<Rightarrow> 'w \<Rightarrow> bool" where
  "gcp_attached fuel client now project region ipv6 ctx iid zone filt ob ip w w' \<longleftrightarrow>
     (\<exists>inst w1 xs x. Instances_Get client project zone iid w = (Ok inst, w1) \<and>
        listAddresses fuel (gcp_services client now project region ipv6) [] '''' ''IN_USE'' w1 = (Ok xs, w') \<and>
        x \<in> set xs \<and> SelfLink inst \<in> set (Users x) \<and> ip = ga_Address x) \<or>
     (\<exists>xs v0 v1 x inst v2 v3 y v v'.
        listAddresses fuel (gcp_services client now project region ipv6) filt ob ''RESERVED'' v0 = (Ok xs, v1) \<and>
        x \<in> set xs \<and> ip = ga_Address x \<and> Instances_Get client project zone iid v2 = (Ok inst, v3) \<and>
        ctx_Err ctx v = None \<and> Addresses_Get client project region (ga_Name x) v = (Ok y, v') \<and>
        ga_Status y \<noteq> ''IN_USE'' \<and>
        access_added fuel client now project region ipv6 ctx inst zone ip v' w')"

lemma gcp_Assign_attaches:
  assumes "gcp_Assign fuel (gcp_services client now project region ipv6) ctx iid zone filt ob w = (Ok ip, w')"
    and "ip \<noteq> ''''"
  shows "gcp_attached fuel client now project region ipv6 ctx iid zone filt ob ip w w'"
proof -
  let ?a = "gcp_services client now project region ipv6"
  have api: "gcp_instance_Get ?a = Instances_Get client" "gcp_project ?a = project" "gcp_region ?a = region"
    "gcp_GetAddress ?a = Addresses_Get client"
    by (simp_all add: gcp_services_def fun_eq_iff instanceGetter_Get_def addressManager_GetAddress_def)
  from gcp_Assign_cases [OF assms] show ?thesis
  proof
    assume "gcp_kept fuel ?a iid zone w ip w'"
    then show ?thesis unfolding gcp_kept_def gcp_attached_def api inUseStatus_def
      by (auto simp: user_map_last find_Some_iff) (metis nth_mem set_rev length_rev)
  next
    assume "gcp_added fuel ?a ctx iid zone filt ob ip w'"
    then obtain xs v0 v1 x inst v2 v3 v v' where
      g: "listAddresses fuel ?a filt ob ''RESERVED'' v0 = (Ok xs, v1)" "x \<in> set xs" "ip = ga_Address x"
        "Instances_Get client project zone iid v2 = (Ok inst, v3)" "ctx_Err ctx v = None"
      and c: "CheckAddressAssigned ?a region (ga_Name x) v = (Ok False, v')"
      and add: "AddInstanceAddress fuel ?a ctx inst zone (Some x) v' = (Ok (), w')"
      unfolding gcp_added_def api reservedStatus_def by blast
    from c obtain y where "Addresses_Get client project region (ga_Name x) v = (Ok y, v')"
      "ga_Status y \<noteq> ''IN_USE''"
      by (auto simp: CheckAddressAssigned_def api check_Ok_iff inUseStatus_def)
    moreover from AddInstanceAddress_adds [OF add]
    have "access_added fuel client now project region ipv6 ctx inst zone ip v' w'"
      by (simp add: addressAddressOrEmpty_def g(3))
    ultimately show ?thesis using g unfolding gcp_attached_def by blast
  qed
qed

lemma ex_gcp_unassign: "gcp_Unassign 1 ex_gcp background ''vm-1'' ''us-central1-a'' True = (Ok (), False)"
  by code_simp

lemma gcp_unassign_result_witness:
  "\<exists>inst w1 xs w2. Instances_Get ex_compute ''project-1'' ''us-central1-a'' ''vm-1'' True = (Ok inst, w1) \<and>
    listAddresses 1 ex_gcp [] '''' ''IN_USE'' w1 = (Ok xs, w2) \<and> xs \<noteq> []"
  using gcp_unassign_result [OF ex_gcp_unassign] by blast

end
