(* ===== verification/Filters.thy ===== *)
theory Filters
  imports GoStrings
begin

text \<open>
  internal/types/filters.go: the tag filters of the OCI assigner. A Go map is an association list
  in the order a range loop visits it (Go leaves that order open, so no result below depends on
  it), a nil map is \<open>None\<close>. Values of type \<open>interface{}\<close> are opaque.
\<close>

typedecl go_any

instantiation go_any :: equal
begin

definition equal_go_any :: "go_any \<Rightarrow> go_any \<Rightarrow> bool" where
  "equal_go_any x y \<longleftrightarrow> x = y"

instance by standard (simp add: equal_go_any_def)

end

type_synonym freeform_tags = "(string \<times> string) list"
type_synonym defined_tags = "(string \<times> (string \<times> go_any) list) list"

record OCIFilters =
  FreeformTags :: "freeform_tags option"
  DefinedTags :: "defined_tags option"

text \<open>The range loop over the filter map, with its early \<open>return false\<close>.\<close>

fun check_entries :: "freeform_tags \<Rightarrow> freeform_tags \<Rightarrow> bool" where
  "check_entries [] target = True"
| "check_entries ((key, value) # rest) target =
     (case map_of target key of
        None \<Rightarrow> False
      | Some val \<Rightarrow> if val \<noteq> value then False else check_entries rest target)"

definition CheckFreeformTagFilter :: "OCIFilters \<Rightarrow> freeform_tags option \<Rightarrow> bool" where
  "CheckFreeformTagFilter f target =
     (case FreeformTags f of
        None \<Rightarrow> True
      | Some flt \<Rightarrow> (case target of None \<Rightarrow> False | Some t \<Rightarrow> check_entries flt t))"

definition CheckDefinedTagFilter :: "OCIFilters \<Rightarrow> defined_tags option \<Rightarrow> bool" where
  "CheckDefinedTagFilter f target = True"

definition freeform_tag_prefix :: string where
  "freeform_tag_prefix = ''freeformTags.''"

definition ParseFreeformTagFilter :: "string \<Rightarrow> (string \<times> string) result" where
  "ParseFreeformTagFilter filt =
     (let bad = Fail (new_error (''invalid filter format for freeform tags, should be in format freeformTags.key=value, found: '' @ filt) []) in
      if HasPrefix filt freeform_tag_prefix then
        (let split = Split (TrimPrefix filt freeform_tag_prefix) CHR ''='' in
         if length split = 2 then Ok (split ! 0, split ! 1) else bad)
      else bad)"

definition ParseDefinedTagFilter :: "string \<Rightarrow> (string \<times> string \<times> string) result" where
  "ParseDefinedTagFilter filt = Ok ([], [], [])"

lemma check_entries_iff:
  "check_entries flt t \<longleftrightarrow> (\<forall>(k, v) \<in> set flt. map_of t k = Some v)"
  by (induction flt t rule: check_entries.induct) (auto split: option.split)

lemma check_entries_submap:
  "distinct (map fst flt) \<Longrightarrow> check_entries flt t \<longleftrightarrow> map_of flt \<subseteq>\<^sub>m map_of t"
  by (fastforce simp: check_entries_iff map_le_def dom_def)

text \<open>The freeform tag filter accepts a resource exactly when the filter map is contained in
  its tag map: for a filter and a tag map that are both present, the answer is map inclusion,
  whatever the order in which Go walks the filter map. (A filter that is present rejects a resource
  without a tag map, even when the filter is empty; an absent filter accepts everything.)\<close>

theorem freeform_filter_is_map_inclusion:
  assumes "distinct (map fst flt)"
  shows "CheckFreeformTagFilter \<lparr>FreeformTags = Some flt, DefinedTags = d\<rparr> target =
     (case target of None \<Rightarrow> False | Some t \<Rightarrow> map_of flt \<subseteq>\<^sub>m map_of t)"
  using assms
  by (simp add: CheckFreeformTagFilter_def check_entries_submap split: option.split)

theorem freeform_filter_is_map_inclusion_witness:
  "CheckFreeformTagFilter \<lparr>FreeformTags = Some [(''env'', ''dev'')], DefinedTags = None\<rparr>
      (Some [(''app'', ''x''), (''env'', ''dev'')])
   \<and> \<not> CheckFreeformTagFilter \<lparr>FreeformTags = Some [(''env'', ''dev'')], DefinedTags = None\<rparr>
      (Some [(''env'', ''prod'')])"
  using freeform_filter_is_map_inclusion
    [of "[(''env'', ''dev'')]" None "Some [(''app'', ''x''), (''env'', ''dev'')]"]
    freeform_filter_is_map_inclusion [of "[(''env'', ''dev'')]" None "Some [(''env'', ''prod'')]"]
  by (simp add: map_le_def)

lemma parse_freeform_exact:
  "ParseFreeformTagFilter s = Ok (k, v) \<longleftrightarrow>
     s = freeform_tag_prefix @ k @ ''='' @ v \<and> CHR ''='' \<notin> set k \<and> CHR ''='' \<notin> set v"
proof
  assume p: "ParseFreeformTagFilter s = Ok (k, v)"
  then obtain r where s: "s = freeform_tag_prefix @ r"
    by (auto simp: ParseFreeformTagFilter_def Let_def HasPrefix_iff split: if_splits)
  with p have "Split r CHR ''='' = [k, v]"
    by (auto simp: ParseFreeformTagFilter_def Let_def length_2_iff split: if_splits)
  with s show "s = freeform_tag_prefix @ k @ ''='' @ v \<and> CHR ''='' \<notin> set k \<and> CHR ''='' \<notin> set v"
    by (simp add: Split_two_iff)
next
  assume "s = freeform_tag_prefix @ k @ ''='' @ v \<and> CHR ''='' \<notin> set k \<and> CHR ''='' \<notin> set v"
  moreover from this have "Split (k @ ''='' @ v) CHR ''='' = [k, v]"
    by (simp add: Split_two_iff)
  ultimately show "ParseFreeformTagFilter s = Ok (k, v)"
    by (simp add: ParseFreeformTagFilter_def Let_def)
qed

text \<open>The parser of freeform tag filters accepts exactly the strings
  \<open>freeformTags.key=value\<close> with no further equals sign, and returns that key and value: parsing
  inverts the documented filter syntax.\<close>

theorem parse_freeform_iff:
  "ParseFreeformTagFilter s = Ok (k, v) \<longleftrightarrow>
     s = freeform_tag_prefix @ k @ ''='' @ v \<and> CHR ''='' \<notin> set k \<and> CHR ''='' \<notin> set v"
  by (rule parse_freeform_exact)

end
