(* ===== verification/CloudOci.thy ===== *)
theory CloudOci
  imports Filters
begin

text \<open>
  internal/cloud/oci_instance_service.go and oci_network_service.go: the services over the OCI compute
  and network clients (package oci-go-sdk), which are the parameter records \<open>compute_client\<close> and
  \<open>core_client\<close>; making them from the default configuration is a parameter too. Pointers and
  nil slices of the SDK types are options. \<open>errors.Wrap\<close> and \<open>errors.New\<close> do not format, so the percent
  signs of some messages stay in the text.
\<close>

record VnicAttachment =
  att_VnicId :: "string option"

record Vnic =
  vnic_Id :: "string option"
  vnic_IsPrimary :: "bool option"
  vnic_PublicIp :: "string option"
  AvailabilityDomain :: "string option"

record PrivateIp =
  priv_Id :: "string option"
  priv_IsPrimary :: "bool option"

record PublicIp =
  pip_Id :: "string option"
  IpAddress :: "string option"
  LifecycleState :: string
  pip_FreeformTags :: "freeform_tags option"
  pip_DefinedTags :: "defined_tags option"

definition PublicIpLifecycleStateAvailable :: string where
  "PublicIpLifecycleStateAvailable = ''AVAILABLE''"
definition PublicIpLifecycleStateAssigned :: string where
  "PublicIpLifecycleStateAssigned = ''ASSIGNED''"
definition ListPublicIpsScopeRegion :: string where "ListPublicIpsScopeRegion = ''REGION''"
definition ListPublicIpsScopeAvailabilityDomain :: string where
  "ListPublicIpsScopeAvailabilityDomain = ''AVAILABILITY_DOMAIN''"

record ListPublicIpsRequest =
  req_Scope :: string
  req_AvailabilityDomain :: "string option"
  req_CompartmentId :: string

record 'w compute_client =
  core_ListVnicAttachments :: "string \<Rightarrow> string \<Rightarrow> ('w, VnicAttachment list option) prog"

record 'w core_client =
  core_GetVnic :: "string option \<Rightarrow> ('w, Vnic) prog"
  core_ListPrivateIps :: "string \<Rightarrow> ('w, PrivateIp list option) prog"
  core_ListPublicIps :: "ListPublicIpsRequest \<Rightarrow> ('w, PublicIp list option) prog"
  core_GetPublicIp :: "string \<Rightarrow> ('w, PublicIp) prog"
  core_UpdatePublicIp :: "string \<Rightarrow> string \<Rightarrow> ('w, unit) prog"
  core_DeletePublicIp :: "string \<Rightarrow> ('w, unit) prog"

subsection \<open>oci_instance_service.go\<close>

text \<open>A service is its client.\<close>

definition NewOCIInstanceService ::
  "('w, 'w compute_client) prog \<Rightarrow> ('w, 'w compute_client) prog" where
  "NewOCIInstanceService NewComputeClient =
     check NewComputeClient (wrap ''failed to create OCI Compute client'' []) ret"

definition svc_ListVnicAttachments ::
  "'w compute_client \<Rightarrow> string \<Rightarrow> string \<Rightarrow> ('w, VnicAttachment list) prog" where
  "svc_ListVnicAttachments client compartmentOCID instanceOCID =
     check (core_ListVnicAttachments client compartmentOCID instanceOCID)
       (wrap ''error while listing VNIC attachments'' []) (\<lambda>items. case items of
         None \<Rightarrow> throw (new_error ''no VNIC attachments found, compartmentOCID: %s, instanceOCID: %s''
                    [compartmentOCID, instanceOCID])
       | Some xs \<Rightarrow> ret xs)"

subsection \<open>oci_network_service.go\<close>

definition NewOCINetworkService :: "('w, 'w core_client) prog \<Rightarrow> ('w, 'w core_client) prog" where
  "NewOCINetworkService NewVirtualNetworkClient =
     check NewVirtualNetworkClient (wrap ''failed to create OCI Virtual Network client'' []) ret"

definition svc_ListPublicIps ::
  "'w core_client \<Rightarrow> ListPublicIpsRequest \<Rightarrow> OCIFilters option \<Rightarrow> ('w, PublicIp list) prog" where
  "svc_ListPublicIps client request filters =
     check (core_ListPublicIps client request) (wrap ''failed to list public IPs'' []) (\<lambda>items.
     case items of
       None \<Rightarrow> throw (new_error ''no public IPs found'' [])
     | Some xs \<Rightarrow> (case filters of
           Some f \<Rightarrow> ret (filter (\<lambda>ip. CheckFreeformTagFilter f (pip_FreeformTags ip) \<and>
                                        CheckDefinedTagFilter f (pip_DefinedTags ip)) xs)
         | None \<Rightarrow> ret xs))"

definition svc_GetPublicIP :: "'w core_client \<Rightarrow> string \<Rightarrow> ('w, PublicIp option) prog" where
  "svc_GetPublicIP client publicIPOCID =
     check (core_GetPublicIp client publicIPOCID)
       (wrap (''failed to get details of public IP OCID: %s'' @ publicIPOCID) []) (\<lambda>ip.
     if pip_Id ip = None then throw (new_error ''no public IP found with OCID %s'' [publicIPOCID])
     else ret (Some ip))"

definition svc_UpdatePublicIP :: "'w core_client \<Rightarrow> string \<Rightarrow> string \<Rightarrow> ('w, unit) prog" where
  "svc_UpdatePublicIP client publicIPOCID privateIPOCID =
     check (core_UpdatePublicIp client publicIPOCID privateIPOCID)
       (wrap ''failed to update public IP'' []) (\<lambda>_. ret ())"

definition svc_DeletePublicIP :: "'w core_client \<Rightarrow> string \<Rightarrow> ('w, unit) prog" where
  "svc_DeletePublicIP client publicIPOCID =
     check (core_DeletePublicIp client publicIPOCID)
       (wrap ''failed to delete public IP'' []) (\<lambda>_. ret ())"

fun find_primary_ip :: "PrivateIp list \<Rightarrow> PrivateIp option result" where
  "find_primary_ip [] = Ok None"
| "find_primary_ip (ip # rest) =
     rcheck (deref (priv_IsPrimary ip)) id (\<lambda>primary.
     if primary then Ok (Some ip) else find_primary_ip rest)"

definition svc_GetPrimaryPrivateIPOfVnic :: "'w core_client \<Rightarrow> string \<Rightarrow> ('w, PrivateIp) prog" where
  "svc_GetPrimaryPrivateIPOfVnic client vnicOCID =
     check (core_ListPrivateIps client vnicOCID)
       (wrap (''failed to list private IPs for the VNIC %s'' @ vnicOCID) []) (\<lambda>items.
     case items of
       None \<Rightarrow> throw (new_error (''no private IPs found for the VNIC %s'' @ vnicOCID) [])
     | Some xs \<Rightarrow>
         check (lift (find_primary_ip xs)) id (\<lambda>found. case found of
             Some ip \<Rightarrow> ret ip
           | None \<Rightarrow> throw (new_error (''no primary private IP found for the VNIC %s'' @ vnicOCID) [])))"

text \<open>When \<open>GetVnic\<close> fails, the message dereferences the attachment's VNIC OCID.\<close>

fun svc_GetPrimaryVnic :: "'w core_client \<Rightarrow> VnicAttachment list \<Rightarrow> ('w, Vnic) prog" where
  "svc_GetPrimaryVnic client [] =
     throw (new_error ''no primary VNIC found from the given VNIC attachments'' [])"
| "svc_GetPrimaryVnic client (vnicAttachment # rest) =
     attempt (core_GetVnic client (att_VnicId vnicAttachment))
       (\<lambda>err. check (lift (deref (att_VnicId vnicAttachment))) id (\<lambda>i.
          throw (wrap (''failed to get VNIC details with OCID %s'' @ i) [] err)))
       (\<lambda>vnic. if vnic_IsPrimary vnic = Some True then ret vnic else svc_GetPrimaryVnic client rest)"

lemma svc_GetPrimaryVnic_primary:
  "svc_GetPrimaryVnic client atts w = (Ok vnic, w') \<Longrightarrow> vnic_IsPrimary vnic = Some True"
  by (induction atts arbitrary: w) (auto simp: attempt_Ok_iff check_Ok_iff split: if_splits)

subsection \<open>The interface\<close>

text \<open>\<open>ListPublicIps\<close> as its client reads it: whatever is listed satisfies the filters, when there are
  filters.\<close>

definition accepted :: "OCIFilters option \<Rightarrow> PublicIp \<Rightarrow> bool" where
  "accepted filters ip \<longleftrightarrow> (case filters of None \<Rightarrow> True | Some f \<Rightarrow>
     CheckFreeformTagFilter f (pip_FreeformTags ip) \<and> CheckDefinedTagFilter f (pip_DefinedTags ip))"

locale public_ip_lister =
  fixes lister :: "ListPublicIpsRequest \<Rightarrow> OCIFilters option \<Rightarrow> ('w, PublicIp list) prog"
  assumes lister_accepted: "lister req fs w = (Ok xs, w') \<Longrightarrow> ip \<in> set xs \<Longrightarrow> accepted fs ip"
begin

lemma lister_tags:
  assumes "lister req (Some \<lparr>FreeformTags = Some m, DefinedTags = d\<rparr>) w = (Ok xs, w')" "ip \<in> set xs"
    and "(k, v) \<in> set m"
  shows "\<exists>tags. pip_FreeformTags ip = Some tags \<and> map_of tags k = Some v"
  using lister_accepted [OF assms(1,2)] assms(3)
  by (fastforce simp: accepted_def CheckFreeformTagFilter_def check_entries_iff split: option.splits)

end

lemma svc_ListPublicIps_Ok_iff:
  "svc_ListPublicIps client req fs w = (Ok xs, w') \<longleftrightarrow>
     (\<exists>ys. core_ListPublicIps client req w = (Ok (Some ys), w') \<and> xs = filter (accepted fs) ys)"
  by (cases fs) (auto simp: svc_ListPublicIps_def check_Ok_iff accepted_def [abs_def] split: option.splits)

interpretation oci_lister: public_ip_lister "svc_ListPublicIps client" for client
  by unfold_locales (auto simp: svc_ListPublicIps_Ok_iff)

end
