(* ===== verification/NetIP.thy ===== *)
theory NetIP
  imports Prelude
begin

text \<open>
  The part of Go's package net that the agent uses: \<open>net.ParseIP\<close> (nil for text that is no IP
  address) and \<open>IP.String\<close>. An IP is a byte slice; \<open>ParseIP\<close> gives 16 bytes, an IPv4 address in the
  IPv4-mapped form. Dotted decimal has four fields of at most 255 without leading zeros; the IPv6
  reader takes groups of at most four hex digits, one ellipsis and a trailing dotted quad, and no
  zone. The lemmas show that printing never gives an empty text and that reading a printed address
  gives the address back.
\<close>

type_synonym byte = "8 word"
type_synonym net_ip = "byte list"

subsection \<open>Reading\<close>

definition dec_digit :: "char \<Rightarrow> bool" where
  "dec_digit c \<longleftrightarrow> 48 \<le> (of_char c :: nat) \<and> (of_char c :: nat) \<le> 57"

definition dec_value :: "char \<Rightarrow> nat" where
  "dec_value c = of_char c - 48"

text \<open>The loop of \<open>parseIPv4\<close>: the previous character, the value and the number of digits of the
  octet being read, and the octets already read.\<close>

fun parse_ipv4 :: "string \<Rightarrow> char option \<Rightarrow> nat \<Rightarrow> nat \<Rightarrow> byte list \<Rightarrow> byte list option" where
  "parse_ipv4 [] prev val digs flds =
     (if length flds < 3 then None else Some (flds @ [of_nat val]))"
| "parse_ipv4 (c # cs) prev val digs flds =
     (if dec_digit c then
        (if digs = 1 \<and> val = 0 then None
         else if 255 < val * 10 + dec_value c then None
         else parse_ipv4 cs (Some c) (val * 10 + dec_value c) (Suc digs) flds)
      else if c = CHR ''.'' then
        (if prev = None \<or> cs = [] \<or> prev = Some CHR ''.'' then None
         else if length flds = 3 then None
         else parse_ipv4 cs (Some c) 0 0 (flds @ [of_nat val]))
      else None)"

definition v4_in_v6 :: "byte list \<Rightarrow> net_ip" where
  "v4_in_v6 b = replicate 10 0 @ [255, 255] @ b"

definition hex_value :: "char \<Rightarrow> nat option" where
  "hex_value c = (let n = of_char c :: nat in
     if 48 \<le> n \<and> n \<le> 57 then Some (n - 48)
     else if 97 \<le> n \<and> n \<le> 102 then Some (n - 87)
     else if 65 \<le> n \<and> n \<le> 70 then Some (n - 55)
     else None)"

text \<open>The leading hex digits of a text: their value, their number and the rest.\<close>

fun hex_group :: "string \<Rightarrow> nat \<Rightarrow> nat \<Rightarrow> nat \<times> nat \<times> string" where
  "hex_group [] acc off = (acc, off, [])"
| "hex_group (c # cs) acc off =
     (case hex_value c of
        None \<Rightarrow> (acc, off, c # cs)
      | Some d \<Rightarrow> hex_group cs (16 * acc + d) (Suc off))"

text \<open>One group after another, as in \<open>parseIPv6\<close>: the bytes so far, the position of the ellipsis,
  and at the end the expansion of the ellipsis to 16 bytes. A round either stops or adds two bytes,
  so eight rounds are enough.\<close>

definition expand_ellipsis :: "byte list \<Rightarrow> nat option \<Rightarrow> string \<Rightarrow> byte list option" where
  "expand_ellipsis ip ell rest =
     (if rest \<noteq> [] then None
      else if length ip < 16 then
        (case ell of None \<Rightarrow> None
         | Some e \<Rightarrow> Some (take e ip @ replicate (16 - length ip) 0 @ drop e ip))
      else if ell \<noteq> None then None else Some ip)"

fun parse_ipv6_groups :: "nat \<Rightarrow> string \<Rightarrow> byte list \<Rightarrow> nat option \<Rightarrow> byte list option" where
  "parse_ipv6_groups 0 s ip ell = expand_ellipsis ip ell s"
| "parse_ipv6_groups (Suc rounds) s ip ell =
     (case hex_group s 0 0 of (acc, off, rest) \<Rightarrow>
        if off = 0 \<or> off > 4 then None
        else (case rest of
            [] \<Rightarrow> expand_ellipsis (ip @ [of_nat (acc div 256), of_nat acc]) ell []
          | r # rest' \<Rightarrow>
              if r = CHR ''.'' then
                (if (ell = None \<and> length ip \<noteq> 12) \<or> length ip + 4 > 16 then None
                 else (case parse_ipv4 s None 0 0 [] of
                     None \<Rightarrow> None
                   | Some q \<Rightarrow> expand_ellipsis (ip @ q) ell []))
              else if r \<noteq> CHR '':'' \<or> rest' = [] then None
              else if hd rest' = CHR '':'' then
                (if ell \<noteq> None then None
                 else (let ip' = ip @ [of_nat (acc div 256), of_nat acc] in
                   if tl rest' = [] then expand_ellipsis ip' (Some (length ip')) []
                   else parse_ipv6_groups rounds (tl rest') ip' (Some (length ip'))))
              else parse_ipv6_groups rounds rest' (ip @ [of_nat (acc div 256), of_nat acc]) ell))"

definition parse_ipv6 :: "string \<Rightarrow> net_ip option" where
  "parse_ipv6 s =
     (if take 2 s = ''::'' then
        (if drop 2 s = [] then Some (replicate 16 0)
         else parse_ipv6_groups 8 (drop 2 s) [] (Some 0))
      else parse_ipv6_groups 8 s [] None)"

definition ParseIP :: "string \<Rightarrow> net_ip option" where
  "ParseIP s =
     (case dropWhile (\<lambda>c. c \<noteq> CHR ''.'' \<and> c \<noteq> CHR '':'' \<and> c \<noteq> CHR ''%'') s of
        [] \<Rightarrow> None
      | c # _ \<Rightarrow>
          if c = CHR ''.'' then map_option v4_in_v6 (parse_ipv4 s None 0 0 [])
          else if c = CHR '':'' \<and> CHR ''%'' \<notin> set s then parse_ipv6 s
          else None)"

subsection \<open>Printing\<close>

definition digit_char :: "nat \<Rightarrow> char" where
  "digit_char n = char_of (if n < 10 then 48 + n else 87 + n)"

text \<open>A byte in decimal, a 16-bit group in hex without leading zeros.\<close>

definition show_octet :: "byte \<Rightarrow> string" where
  "show_octet b = (let n = unat b in
     if n < 10 then [digit_char n]
     else if n < 100 then [digit_char (n div 10), digit_char (n mod 10)]
     else [digit_char (n div 100), digit_char (n div 10 mod 10), digit_char (n mod 10)])"

definition show_hex16 :: "nat \<Rightarrow> string" where
  "show_hex16 n =
     (if n < 16 then [digit_char n]
      else if n < 256 then [digit_char (n div 16), digit_char (n mod 16)]
      else if n < 4096 then [digit_char (n div 256), digit_char (n div 16 mod 16), digit_char (n mod 16)]
      else [digit_char (n div 4096), digit_char (n div 256 mod 16), digit_char (n div 16 mod 16),
            digit_char (n mod 16)])"

fun show_ipv4 :: "byte list \<Rightarrow> string" where
  "show_ipv4 [] = []"
| "show_ipv4 [b] = show_octet b"
| "show_ipv4 (b # bs) = show_octet b @ ''.'' @ show_ipv4 bs"

fun groups16 :: "byte list \<Rightarrow> nat list" where
  "groups16 (a # b # rest) = (256 * unat a + unat b) # groups16 rest"
| "groups16 _ = []"

text \<open>The first longest run of at least two zero groups, as \<open>appendTo6\<close> looks for it: from each
  position the length of the run there, the best so far with its position.\<close>

fun zero_run :: "nat list \<Rightarrow> nat" where
  "zero_run (g # gs) = (if g = 0 then Suc (zero_run gs) else 0)"
| "zero_run [] = 0"

fun best_run :: "nat list \<Rightarrow> nat \<Rightarrow> nat \<times> nat \<Rightarrow> nat \<times> nat" where
  "best_run [] i best = best"
| "best_run (g # gs) i (pos, len) =
     best_run gs (Suc i) (if 2 \<le> zero_run (g # gs) \<and> len < zero_run (g # gs)
                          then (i, zero_run (g # gs)) else (pos, len))"

fun colon_sep :: "nat list \<Rightarrow> string" where
  "colon_sep [] = []"
| "colon_sep [g] = show_hex16 g"
| "colon_sep (g # gs) = show_hex16 g @ '':'' @ colon_sep gs"

definition show_ipv6 :: "net_ip \<Rightarrow> string" where
  "show_ipv6 ip = (let gs = groups16 ip; (pos, len) = best_run gs 0 (0, 0) in
     if len = 0 then colon_sep gs
     else colon_sep (take pos gs) @ ''::'' @ colon_sep (drop (pos + len) gs))"

definition To4 :: "net_ip \<Rightarrow> byte list option" where
  "To4 ip =
     (if length ip = 4 then Some ip
      else if length ip = 16 \<and> take 12 ip = replicate 10 0 @ [255, 255] then Some (drop 12 ip)
      else None)"

fun hex_bytes :: "byte list \<Rightarrow> string" where
  "hex_bytes [] = []"
| "hex_bytes (b # bs) = digit_char (unat b div 16) # digit_char (unat b mod 16) # hex_bytes bs"

definition IP_String :: "net_ip \<Rightarrow> string" where
  "IP_String ip =
     (if ip = [] then ''<nil>''
      else case To4 ip of
          Some b \<Rightarrow> show_ipv4 b
        | None \<Rightarrow> if length ip = 16 then show_ipv6 ip else CHR ''?'' # hex_bytes ip)"

subsection \<open>Printed addresses\<close>

lemma show_octet_nonempty [simp]: "show_octet b \<noteq> []"
  by (simp add: show_octet_def Let_def)

lemma show_hex16_nonempty [simp]: "show_hex16 n \<noteq> []"
  by (simp add: show_hex16_def)

lemma colon_sep_nonempty: "gs \<noteq> [] \<Longrightarrow> colon_sep gs \<noteq> []"
  by (cases gs rule: colon_sep.cases) simp_all

lemma show_ipv4_nonempty: "b \<noteq> [] \<Longrightarrow> show_ipv4 b \<noteq> []"
  by (cases b rule: show_ipv4.cases) simp_all

lemma show_ipv6_nonempty: "length ip = 16 \<Longrightarrow> show_ipv6 ip \<noteq> []"
proof -
  assume "length ip = 16"
  then have "groups16 ip \<noteq> []" by (cases ip rule: groups16.cases) auto
  then show ?thesis by (auto simp: show_ipv6_def Let_def colon_sep_nonempty split: prod.split)
qed

lemma IP_String_nonempty: "IP_String ip \<noteq> []"
  using show_ipv4_nonempty show_ipv6_nonempty
  by (auto simp: IP_String_def To4_def split: option.split)

lemma digit_char_dec [simp]: "n < 10 \<Longrightarrow> dec_digit (digit_char n)"
  by (simp add: dec_digit_def digit_char_def)

lemma digit_char_value [simp]: "n < 10 \<Longrightarrow> dec_value (digit_char n) = n"
  by (simp add: dec_value_def digit_char_def)

lemma digit_char_not_sep [simp]:
  "n < 10 \<Longrightarrow> digit_char n \<noteq> CHR ''.''" "n < 10 \<Longrightarrow> digit_char n \<noteq> CHR '':''"
  "n < 10 \<Longrightarrow> digit_char n \<noteq> CHR ''%''"
  using digit_char_dec [of n] by (auto simp: dec_digit_def)

lemma unat_byte_less: "unat (b :: byte) < 256"
  by (rule order_less_le_trans [OF unsigned_less]) simp

lemma parse_octet:
  "parse_ipv4 (show_octet b @ rest) prev 0 0 fs =
     parse_ipv4 rest (Some (last (show_octet b))) (unat b) (length (show_octet b)) fs"
proof -
  consider "unat b < 10" | "10 \<le> unat b" "unat b < 100" | "100 \<le> unat b" "unat b < 256"
    using unat_byte_less [of b] by linarith
  then show ?thesis
  proof cases
    case 1
    then show ?thesis by (simp add: show_octet_def Let_def)
  next
    case 2
    then have "unat b div 10 * 10 + unat b mod 10 = unat b" and "0 < unat b div 10"
      and "unat b div 10 < 10"
      by auto
    with 2 show ?thesis by (simp add: show_octet_def Let_def)
  next
    case 3
    moreover have "unat b div 100 * 10 + unat b div 10 mod 10 = unat b div 10"
      using div_mult_mod_eq [of "unat b div 10" 10] by (simp add: div_mult2_eq [symmetric])
    moreover have "unat b div 10 * 10 + unat b mod 10 = unat b"
      using div_mult_mod_eq [of "unat b" 10] by simp
    moreover have "0 < unat b div 100" "unat b div 100 < 10" "0 < unat b div 10"
      "\<not> 255 < unat b div 10" "\<not> unat b < 100" "\<not> unat b < 10"
      using 3 by auto
    ultimately show ?thesis by (simp add: show_octet_def Let_def)
  qed
qed

lemma last_show_octet_not_dot: "last (show_octet b) \<noteq> CHR ''.''"
proof -
  have "unat b mod 10 < 10" by simp
  then show ?thesis using unat_byte_less [of b] by (simp add: show_octet_def Let_def)
qed

lemma not_dec_dot [simp]: "\<not> dec_digit CHR ''.''"
  by (simp add: dec_digit_def)

lemma parse_octet_dot:
  "rest \<noteq> [] \<Longrightarrow> length fs < 3 \<Longrightarrow>
     parse_ipv4 (show_octet b @ CHR ''.'' # rest) prev 0 0 fs =
       parse_ipv4 rest (Some CHR ''.'') 0 0 (fs @ [b])"
  by (simp add: parse_octet last_show_octet_not_dot)

lemma parse_show_ipv4: "parse_ipv4 (show_ipv4 [a, b, c, d]) prev 0 0 [] = Some [a, b, c, d]"
  using parse_octet [of d "[]"] by (simp add: parse_octet_dot)

lemma show_octet_digits: "x \<in> set (show_octet b) \<Longrightarrow> \<exists>n < 10. x = digit_char n"
proof -
  assume x: "x \<in> set (show_octet b)"
  have "unat b mod 10 < 10" "unat b div 10 mod 10 < 10" "unat b div 100 < 10"
    "unat b < 100 \<longrightarrow> unat b div 10 < 10"
    using unat_byte_less [of b] by auto
  moreover have "m < 10 \<Longrightarrow> \<exists>n < 10. digit_char m = digit_char n" for m by blast
  ultimately show ?thesis using x
    by (auto simp: show_octet_def Let_def split: if_splits)
qed

lemma dropWhile_octet:
  "dropWhile (\<lambda>c. c \<noteq> CHR ''.'' \<and> c \<noteq> CHR '':'' \<and> c \<noteq> CHR ''%'') (show_octet b @ CHR ''.'' # rest)
     = CHR ''.'' # rest"
  by (subst dropWhile_append2) (auto dest!: show_octet_digits)

text \<open>Reading a printed IPv4 address gives the address back, in the 16-byte form.\<close>

lemma ParseIP_show_ipv4: "ParseIP (show_ipv4 [a, b, c, d]) = Some (v4_in_v6 [a, b, c, d])"
  using parse_show_ipv4 [of a b c d None] by (simp add: ParseIP_def dropWhile_octet)

lemma To4_v4_in_v6: "length b = 4 \<Longrightarrow> To4 (v4_in_v6 b) = Some b"
  by (simp add: To4_def v4_in_v6_def)

lemma length_4_iff: "length b = 4 \<longleftrightarrow> (\<exists>w x y z. b = [w, x, y, z])"
  by (auto simp: length_Suc_conv numeral_eq_Suc)

subsection \<open>Printed IPv6 addresses\<close>

lemma hex_value_digit [simp]: "n < 16 \<Longrightarrow> hex_value (digit_char n) = Some n"
  by (simp add: hex_value_def digit_char_def Let_def)

lemma hex_value_colon [simp]: "hex_value CHR '':'' = None"
  by (simp add: hex_value_def)

lemma hex_digit_not_sep [simp]:
  "n < 16 \<Longrightarrow> digit_char n \<noteq> CHR ''.''" "n < 16 \<Longrightarrow> digit_char n \<noteq> CHR '':''"
  "n < 16 \<Longrightarrow> digit_char n \<noteq> CHR ''%''"
  using hex_value_digit [of n] by (auto simp: hex_value_def simp del: hex_value_digit)

lemma nibbles:
  "16 * (n div 16) + n mod 16 = (n :: nat)"
  "16 * (n div 256) + n div 16 mod 16 = n div (16 :: nat)"
  "16 * (n div 4096) + n div 256 mod 16 = n div (256 :: nat)"
  using mult_div_mod_eq [of 16 "n div 16"] mult_div_mod_eq [of 16 "n div 256"]
  by (simp_all add: div_mult2_eq [symmetric])

lemma hex_group_stop: "rest = [] \<or> hex_value (hd rest) = None \<Longrightarrow> hex_group rest acc off = (acc, off, rest)"
  by (cases rest) auto

lemma hex_group_show:
  assumes "g < 65536" "rest = [] \<or> hex_value (hd rest) = None"
  shows "hex_group (show_hex16 g @ rest) 0 0 = (g, length (show_hex16 g), rest)"
proof -
  have "g div 4096 < 16" and 2: "g < 4096 \<longrightarrow> g div 256 < 16" and 1: "g < 256 \<longrightarrow> g div 16 < 16"
    using assms(1) by auto
  then show ?thesis
    using nibbles [of g]
    by (cases "g < 16"; cases "g < 256"; cases "g < 4096")
      (simp_all add: show_hex16_def hex_group_stop [OF assms(2)])
qed

lemma show_hex16_length [simp]: "0 < length (show_hex16 g)" "length (show_hex16 g) \<le> 4"
  by (simp_all add: show_hex16_def)

lemma show_hex16_digits: "g < 65536 \<Longrightarrow> c \<in> set (show_hex16 g) \<Longrightarrow> \<exists>n < 16. c = digit_char n"
proof -
  assume g: "g < 65536" and c: "c \<in> set (show_hex16 g)"
  have "g div 4096 < 16" "g < 4096 \<Longrightarrow> g div 256 < 16" "g < 256 \<Longrightarrow> g div 16 < 16"
    "g mod 16 < 16" "g div 16 mod 16 < 16" "g div 256 mod 16 < 16"
    using g by auto
  moreover have "m < 16 \<Longrightarrow> \<exists>n < 16. digit_char m = digit_char n" for m by blast
  ultimately show ?thesis using c by (auto simp: show_hex16_def split: if_splits)
qed

definition small :: "nat list \<Rightarrow> bool" where
  "small gs \<longleftrightarrow> (\<forall>g \<in> set gs. g < 65536)"

lemma small_simps [simp]: "small []" "small (g # gs) \<longleftrightarrow> g < 65536 \<and> small gs"
  by (simp_all add: small_def)

lemma small_parts: "small gs \<Longrightarrow> small (take n gs)" "small gs \<Longrightarrow> small (drop n gs)"
  by (auto simp: small_def dest: in_set_takeD in_set_dropD)

fun bytes_of :: "nat list \<Rightarrow> byte list" where
  "bytes_of [] = []"
| "bytes_of (g # gs) = of_nat (g div 256) # of_nat g # bytes_of gs"

lemma bytes_of_append [simp]: "bytes_of (gs @ hs) = bytes_of gs @ bytes_of hs"
  by (induction gs) simp_all

lemma length_bytes_of [simp]: "length (bytes_of gs) = 2 * length gs"
  by (induction gs) simp_all

lemma bytes_of_zeros [simp]: "bytes_of (replicate n 0) = replicate (2 * n) 0"
  by (induction n) simp_all

lemma colon_sep_chars: "small gs \<Longrightarrow> c \<in> set (colon_sep gs) \<Longrightarrow> c = CHR '':'' \<or> (\<exists>n < 16. c = digit_char n)"
  by (induction gs rule: colon_sep.induct) (auto dest: show_hex16_digits)

lemma show_hex16_hd [simp]: "g < 65536 \<Longrightarrow> hd (show_hex16 g) \<noteq> CHR '':''"
  using show_hex16_digits [of g, OF _ hd_in_set [of "show_hex16 g"]] hex_digit_not_sep(2) by fastforce

lemma colon_sep_hd: "small gs \<Longrightarrow> gs \<noteq> [] \<Longrightarrow> hd (colon_sep gs @ s) \<noteq> CHR '':''"
  by (cases gs rule: colon_sep.cases) simp_all

text \<open>One round of the reader on a printed group: at the end of the text, before another group, and
  before the ellipsis.\<close>

lemma groups_last:
  "g < 65536 \<Longrightarrow> parse_ipv6_groups (Suc n) (show_hex16 g) ip ell = expand_ellipsis (ip @ bytes_of [g]) ell []"
  using hex_group_show [of g "[]"] show_hex16_length [of g] by (simp del: show_hex16_length)

lemma groups_next:
  "g < 65536 \<Longrightarrow> s \<noteq> [] \<Longrightarrow> hd s \<noteq> CHR '':'' \<Longrightarrow>
     parse_ipv6_groups (Suc n) (show_hex16 g @ CHR '':'' # s) ip ell =
       parse_ipv6_groups n s (ip @ bytes_of [g]) ell"
  using hex_group_show [of g "CHR '':'' # s"] show_hex16_length [of g]
  by (simp del: show_hex16_length)

lemma groups_ellipsis:
  "g < 65536 \<Longrightarrow> parse_ipv6_groups (Suc n) (show_hex16 g @ CHR '':'' # CHR '':'' # s) ip None =
     (if s = [] then expand_ellipsis (ip @ bytes_of [g]) (Some (length ip + 2)) []
      else parse_ipv6_groups n s (ip @ bytes_of [g]) (Some (length ip + 2)))"
  using hex_group_show [of g "CHR '':'' # CHR '':'' # s"] show_hex16_length [of g]
  by (simp add: Let_def del: show_hex16_length)

lemma groups_colon_sep:
  "small gs \<Longrightarrow> gs \<noteq> [] \<Longrightarrow> length gs \<le> n \<Longrightarrow>
     parse_ipv6_groups n (colon_sep gs) ip ell = expand_ellipsis (ip @ bytes_of gs) ell []"
proof (induction gs arbitrary: n ip rule: colon_sep.induct)
  case (2 g)
  then show ?case by (cases n) (simp_all add: groups_last del: parse_ipv6_groups.simps)
next
  case (3 g h hs)
  then obtain m where "n = Suc m" "length (h # hs) \<le> m" by (cases n) auto
  with 3 colon_sep_hd [of "h # hs" "[]"] colon_sep_nonempty [of "h # hs"] show ?case
    by (simp add: groups_next del: parse_ipv6_groups.simps)
qed simp

lemma groups_with_ellipsis:
  "small gs \<Longrightarrow> gs \<noteq> [] \<Longrightarrow> small hs \<Longrightarrow> length gs + length hs \<le> n \<Longrightarrow>
     parse_ipv6_groups n (colon_sep gs @ ''::'' @ colon_sep hs) ip None =
       expand_ellipsis (ip @ bytes_of gs @ bytes_of hs) (Some (length ip + 2 * length gs)) []"
proof (induction gs arbitrary: n ip rule: colon_sep.induct)
  case (2 g)
  then obtain m where "n = Suc m" "length hs \<le> m" by (cases n) auto
  with 2 show ?case
    by (cases "hs = []")
      (simp_all add: groups_ellipsis groups_colon_sep colon_sep_nonempty del: parse_ipv6_groups.simps)
next
  case (3 g h gs)
  then obtain m where "n = Suc m" "length (h # gs) + length hs \<le> m" by (cases n) auto
  with 3 colon_sep_hd [of "h # gs" "''::'' @ colon_sep hs"] show ?case
    by (simp add: groups_next del: parse_ipv6_groups.simps)
qed simp

text \<open>The run of zeros that is printed as an ellipsis.\<close>

lemma zero_run_take: "take (zero_run gs) gs = replicate (zero_run gs) 0"
  by (induction gs) auto

lemma zero_run_le: "zero_run gs \<le> length gs"
  by (induction gs) auto

lemma best_run_cases:
  "best_run gs i best = best \<or>
   (\<exists>j < length gs. best_run gs i best = (i + j, zero_run (drop j gs)) \<and> 2 \<le> zero_run (drop j gs))"
proof (induction gs arbitrary: i best)
  case (Cons g gs)
  obtain pos len where best: "best = (pos, len)" by (cases best)
  let ?new = "(if 2 \<le> zero_run (g # gs) \<and> len < zero_run (g # gs) then (i, zero_run (g # gs)) else (pos, len))"
  have eq: "best_run (g # gs) i best = best_run gs (Suc i) ?new" by (simp add: best)
  from Cons.IH [of "Suc i" ?new] show ?case
  proof
    assume "best_run gs (Suc i) ?new = ?new"
    with eq have "best_run (g # gs) i best = ?new" by simp
    then have *: "best_run (g # gs) i best =
        (if 2 \<le> zero_run (g # gs) \<and> len < zero_run (g # gs) then (i, zero_run (g # gs)) else best)"
      by (simp only: best)
    show ?thesis
    proof (cases "2 \<le> zero_run (g # gs) \<and> len < zero_run (g # gs)")
      case True
      with * show ?thesis by (intro disjI2 exI [of _ 0]) (simp del: best_run.simps zero_run.simps)
    qed (use * in argo)
  next
    assume "\<exists>j < length gs. best_run gs (Suc i) ?new = (Suc i + j, zero_run (drop j gs)) \<and>
      2 \<le> zero_run (drop j gs)"
    then obtain j where "j < length gs" "best_run gs (Suc i) ?new = (Suc i + j, zero_run (drop j gs))"
      "2 \<le> zero_run (drop j gs)" by blast
    with eq show ?thesis by (intro disjI2 exI [of _ "Suc j"]) (simp del: best_run.simps)
  qed
qed simp

lemma best_run_split:
  assumes "best_run gs 0 (0, 0) = (pos, len)"
  shows "len = 0 \<or> (2 \<le> len \<and> pos + len \<le> length gs \<and>
    gs = take pos gs @ replicate len 0 @ drop (pos + len) gs)"
proof (cases "len = 0")
  case False
  with assms best_run_cases [of gs 0 "(0, 0)"] have *: "pos < length gs" "len = zero_run (drop pos gs)" "2 \<le> len"
    by auto
  have "drop pos gs = replicate len 0 @ drop len (drop pos gs)"
    using zero_run_take [of "drop pos gs"] *(2) by (metis append_take_drop_id)
  then have "gs = take pos gs @ replicate len 0 @ drop (pos + len) gs"
    by (metis add.commute append_take_drop_id drop_drop)
  moreover have "pos + len \<le> length gs"
    using zero_run_le [of "drop pos gs"] * by simp
  ultimately show ?thesis using *(3) by blast
qed simp

text \<open>Bytes and groups.\<close>

lemma bytes_of_groups16: "even (length ip) \<Longrightarrow> bytes_of (groups16 ip) = ip"
proof (induction ip rule: groups16.induct)
  case (1 a b rest)
  have "(256 * unat a + unat b) div 256 = unat a"
    using unat_byte_less [of b] by simp
  moreover have "(of_nat (256 * unat a + unat b) :: byte) = b"
  proof -
    have z: "(of_nat 256 :: byte) = 0" by simp
    show ?thesis by (simp only: of_nat_add of_nat_mult z) simp
  qed
  ultimately show ?case using 1 by simp
qed simp_all

lemma small_groups16: "small (groups16 ip)"
proof (induction ip rule: groups16.induct)
  case (1 a b rest)
  then show ?case using unat_byte_less [of a] unat_byte_less [of b] by simp
qed simp_all

lemma length_groups16 [simp]: "length (groups16 ip) = length ip div 2"
  by (induction ip rule: groups16.induct) simp_all

lemma show_ipv6_cases:
  assumes "length ip = 16"
  obtains (full) gs where "small gs" "length gs = 8" "ip = bytes_of gs" "show_ipv6 ip = colon_sep gs"
    | (zeros) p q n where "small p" "small q" "2 \<le> n" "length p + n + length q = 8"
        "ip = bytes_of p @ replicate (2 * n) 0 @ bytes_of q"
        "show_ipv6 ip = colon_sep p @ ''::'' @ colon_sep q"
proof -
  obtain gs where gs: "gs = groups16 ip" by simp
  obtain pos len where run: "best_run gs 0 (0, 0) = (pos, len)" by (cases "best_run gs 0 (0, 0)")
  have bytes: "bytes_of gs = ip" and sm: "small gs" and l8: "length gs = 8"
    using assms by (simp_all add: gs bytes_of_groups16 small_groups16)
  show thesis
  proof (cases "len = 0")
    case True
    then have "show_ipv6 ip = colon_sep gs" using run by (simp add: show_ipv6_def gs)
    with full [OF sm l8] bytes show thesis by simp
  next
    case False
    then have 2: "2 \<le> len" "pos + len \<le> 8" and
      split: "gs = take pos gs @ replicate len 0 @ drop (pos + len) gs"
      using best_run_split [OF run] l8 by auto
    have "ip = bytes_of (take pos gs) @ replicate (2 * len) 0 @ bytes_of (drop (pos + len) gs)"
      using bytes split by (metis bytes_of_append bytes_of_zeros)
    moreover have "show_ipv6 ip = colon_sep (take pos gs) @ ''::'' @ colon_sep (drop (pos + len) gs)"
      using run False by (simp add: show_ipv6_def gs Let_def)
    moreover have "length (take pos gs) + len + length (drop (pos + len) gs) = 8"
      using 2 l8 by simp
    ultimately show thesis using zeros small_parts [OF sm] 2(1) by blast
  qed
qed

lemma no_ellipsis: "small gs \<Longrightarrow> gs \<noteq> [] \<Longrightarrow> take 2 (colon_sep gs @ s) \<noteq> ''::''"
  using colon_sep_hd [of gs s] by (cases "colon_sep gs @ s") auto

lemma parse_show_ipv6:
  assumes "length ip = 16"
  shows "parse_ipv6 (show_ipv6 ip) = Some ip"
  using assms
proof (cases rule: show_ipv6_cases)
  case (full gs)
  then have "gs \<noteq> []" by auto
  with full show ?thesis
    using no_ellipsis [of gs "[]"] groups_colon_sep [of gs 8 "[]" None]
    by (simp add: parse_ipv6_def expand_ellipsis_def)
next
  case (zeros p q n)
  have "16 - (2 * length p + 2 * length q) = 2 * n" "2 * length p + 2 * length q < 16"
    using zeros(3,4) by simp_all
  then have ex: "expand_ellipsis (bytes_of p @ bytes_of q) (Some (2 * length p)) [] = Some ip"
    by (simp add: expand_ellipsis_def zeros(5))
  show ?thesis
  proof (cases "p = []")
    case True
    show ?thesis
    proof (cases "q = []")
      case True
      with \<open>p = []\<close> zeros show ?thesis by (simp add: parse_ipv6_def)
    next
      case False
      then have "parse_ipv6_groups 8 (colon_sep q) [] (Some 0) = Some ip"
        using groups_colon_sep [of q 8 "[]" "Some 0"] zeros(2,4) ex \<open>p = []\<close> by simp
      with False \<open>p = []\<close> zeros(6) show ?thesis
        by (simp add: parse_ipv6_def colon_sep_nonempty del: parse_ipv6_groups.simps)
    qed
  next
    case False
    then have "parse_ipv6_groups 8 (show_ipv6 ip) [] None = Some ip"
      using groups_with_ellipsis [of p q 8 "[]"] zeros ex by simp
    with no_ellipsis [OF zeros(1) False] show ?thesis by (simp add: parse_ipv6_def zeros(6))
  qed
qed

lemma show_ipv6_chars:
  assumes "length ip = 16"
  shows "CHR '':'' \<in> set (show_ipv6 ip)" "CHR ''%'' \<notin> set (show_ipv6 ip)" "CHR ''.'' \<notin> set (show_ipv6 ip)"
proof -
  have chars: "c = CHR '':'' \<or> (\<exists>n < 16. c = digit_char n)" if "c \<in> set (show_ipv6 ip)" for c
    using assms
  proof (cases rule: show_ipv6_cases)
    case (full gs)
    with that colon_sep_chars [of gs c] show ?thesis by simp
  next
    case (zeros p q n)
    with that colon_sep_chars [of p c] colon_sep_chars [of q c] show ?thesis by auto
  qed
  from chars [of "CHR ''%''"] show "CHR ''%'' \<notin> set (show_ipv6 ip)"
    using hex_digit_not_sep(3) by fastforce
  from chars [of "CHR ''.''"] show "CHR ''.'' \<notin> set (show_ipv6 ip)"
    using hex_digit_not_sep(1) by fastforce
  show "CHR '':'' \<in> set (show_ipv6 ip)"
    using assms
  proof (cases rule: show_ipv6_cases)
    case (full gs)
    then show ?thesis by (cases gs rule: colon_sep.cases) auto
  qed simp
qed

lemma ParseIP_show_ipv6:
  assumes "length ip = 16"
  shows "ParseIP (show_ipv6 ip) = Some ip"
proof -
  let ?sep = "\<lambda>c. c \<noteq> CHR ''.'' \<and> c \<noteq> CHR '':'' \<and> c \<noteq> CHR ''%''"
  note chars = show_ipv6_chars [OF assms]
  have "\<not> ?sep (CHR '':'')" by simp
  with chars(1) have "dropWhile ?sep (show_ipv6 ip) \<noteq> []" by (auto simp: dropWhile_eq_Nil_conv)
  then obtain c r where d: "dropWhile ?sep (show_ipv6 ip) = c # r"
    by (cases "dropWhile ?sep (show_ipv6 ip)") auto
  then have "\<not> ?sep c" using hd_dropWhile [of ?sep "show_ipv6 ip"] by auto
  moreover have "c \<in> set (show_ipv6 ip)"
    using d set_dropWhileD [of c ?sep "show_ipv6 ip"] by simp
  ultimately have "c = CHR '':''" using chars(2,3) by auto
  with d chars(2) parse_show_ipv6 [OF assms] show ?thesis by (simp add: ParseIP_def)
qed

text \<open>\<open>ParseIP\<close> yields 16 bytes.\<close>

lemma parse_ipv4_length: "parse_ipv4 s prev val digs flds = Some q \<Longrightarrow> length flds \<le> 3 \<Longrightarrow> length q = 4"
  by (induction s prev val digs flds rule: parse_ipv4.induct) (auto split: if_splits)

lemma expand_ellipsis_length: "expand_ellipsis ip ell s = Some q \<Longrightarrow> length ip \<le> 16 \<Longrightarrow> length q = 16"
  by (auto simp: expand_ellipsis_def split: if_splits option.splits)

lemma parse_groups_length:
  "parse_ipv6_groups n s ip ell = Some q \<Longrightarrow> length ip + 2 * n \<le> 16 \<Longrightarrow> length q = 16"
proof (induction n s ip ell rule: parse_ipv6_groups.induct)
  case (2 n s ip ell)
  then show ?case
    by (auto simp: Let_def dest!: expand_ellipsis_length dest: parse_ipv4_length
        split: prod.splits if_splits list.splits option.splits)
qed (simp add: expand_ellipsis_length)

lemma ParseIP_length: "ParseIP s = Some ip \<Longrightarrow> length ip = 16"
  by (auto simp: ParseIP_def parse_ipv6_def v4_in_v6_def dest: parse_ipv4_length parse_groups_length
      split: list.splits if_splits)

text \<open>Reading a printed 16-byte IP gives it back, be it dotted decimal or hexadecimal groups with the
  longest run of zeros left out.\<close>

lemma ParseIP_IP_String:
  assumes "length ip = 16"
  shows "ParseIP (IP_String ip) = Some ip"
proof (cases "To4 ip")
  case None
  with assms show ?thesis by (auto simp: IP_String_def ParseIP_show_ipv6)
next
  case (Some b)
  with assms have "length b = 4" and ip: "ip = v4_in_v6 b"
    using append_take_drop_id [of 12 ip, symmetric]
    by (auto simp: To4_def v4_in_v6_def simp del: append_take_drop_id split: if_splits)
  then obtain c d e f where "b = [c, d, e, f]" by (auto simp: length_4_iff)
  with assms Some ip show ?thesis by (auto simp: IP_String_def ParseIP_show_ipv4 simp del: show_ipv4.simps)
qed

lemma ex_ipv6_text:
  "IP_String [32, 1, 13, 184, 0, 0, 0, 0, 0, 0, 0, 0, 0, 0, 0, 7] = ''2001:db8::7''"
proof -
  have "char_of (50 :: nat) = CHR ''2''" "char_of (48 :: nat) = CHR ''0''" "char_of (49 :: nat) = CHR ''1''"
    "char_of (100 :: nat) = CHR ''d''" "char_of (98 :: nat) = CHR ''b''" "char_of (56 :: nat) = CHR ''8''"
    "char_of (55 :: nat) = CHR ''7''"
    by code_simp+
  then show ?thesis
    by (simp add: IP_String_def To4_def show_ipv6_def show_hex16_def Let_def digit_char_def)
qed

end
