(* ===== verification/NodeTypes.thy ===== *)
theory NodeTypes
  imports GoStrings NetIP
begin

text \<open>
  The data the components exchange: \<open>types.CloudProvider\<close> and \<open>types.Node\<close> of
  internal/types/node.go, \<open>config.Config\<close> of internal/config/config.go with its construction from
  the command line, and the fields of the Kubernetes node object (package k8s.io/api/core/v1) that
  the agent reads. A Go string map is an association list; a lookup with \<open>, ok\<close> is \<open>map_of\<close>.
\<close>

type_synonym CloudProvider = string

definition CloudProviderGCP :: CloudProvider where "CloudProviderGCP = ''gcp''"
definition CloudProviderAWS :: CloudProvider where "CloudProviderAWS = ''aws''"
definition CloudProviderOCI :: CloudProvider where "CloudProviderOCI = ''oci''"
definition CloudProviderAzure :: CloudProvider where "CloudProviderAzure = ''azure''"

lemmas cloud_provider_defs =
  CloudProviderGCP_def CloudProviderAWS_def CloudProviderOCI_def CloudProviderAzure_def

lemma cloud_providers_distinct [simp]:
  "distinct [CloudProviderGCP, CloudProviderAWS, CloudProviderOCI, CloudProviderAzure]"
  by (simp add: cloud_provider_defs)

lemma cloud_providers_neq [simp]:
  "CloudProviderAzure \<noteq> CloudProviderAWS" "CloudProviderGCP \<noteq> CloudProviderAWS"
  "CloudProviderOCI \<noteq> CloudProviderAWS" "CloudProviderGCP \<noteq> CloudProviderAzure"
  "CloudProviderOCI \<noteq> CloudProviderAzure" "CloudProviderOCI \<noteq> CloudProviderGCP"
  "CloudProviderAWS \<noteq> CloudProviderAzure" "CloudProviderAWS \<noteq> CloudProviderGCP"
  "CloudProviderAWS \<noteq> CloudProviderOCI" "CloudProviderAzure \<noteq> CloudProviderGCP"
  "CloudProviderAzure \<noteq> CloudProviderOCI" "CloudProviderGCP \<noteq> CloudProviderOCI"
  by (simp_all add: cloud_provider_defs)

record Node =
  Name :: string
  Instance :: string
  Cloud :: CloudProvider
  Pool :: string
  Region :: string
  Zone :: string
  ExternalIPs :: "net_ip list"
  InternalIPs :: "net_ip list"

text \<open>\<open>Node.String\<close> prints \<open>%+v\<close> of the structure: every field with its name, a list between brackets with
  spaces, an address by its own \<open>String\<close> method.\<close>

definition show_ips :: "net_ip list \<Rightarrow> string" where
  "show_ips ips = ''['' @ Join (map IP_String ips) '' '' @ '']''"

definition Node_String :: "Node \<Rightarrow> string" where
  "Node_String n = ''{Name:'' @ Name n @ '' Instance:'' @ Instance n @ '' Cloud:'' @ Cloud n @
     '' Pool:'' @ Pool n @ '' Region:'' @ Region n @ '' Zone:'' @ Zone n @
     '' ExternalIPs:'' @ show_ips (ExternalIPs n) @ '' InternalIPs:'' @ show_ips (InternalIPs n) @ ''}''"

text \<open>internal/config/config.go: intervals are 64-bit nanoseconds, counts 64-bit integers.\<close>

record Config =
  KubeConfigPath :: string
  NodeName :: string
  Project :: string
  cfg_Region :: string
  IPv6 :: bool
  DevelopMode :: bool
  Filter :: "string list"
  OrderBy :: string
  RetryInterval :: go_int
  RetryAttempts :: go_int
  ReleaseOnExit :: bool
  LeaseDuration :: go_int
  LeaseNamespace :: string
  TaintKey :: string

text \<open>The command-line context of package urfave/cli is a parameter: one lookup per flag type.\<close>

record cli_context =
  cli_String :: "string \<Rightarrow> string"
  cli_Bool :: "string \<Rightarrow> bool"
  cli_Duration :: "string \<Rightarrow> go_int"
  cli_Int :: "string \<Rightarrow> go_int"
  cli_StringSlice :: "string \<Rightarrow> string list"

definition NewConfig :: "cli_context \<Rightarrow> Config" where
  "NewConfig c = \<lparr>
     KubeConfigPath = cli_String c ''kubeconfig'',
     NodeName = cli_String c ''node-name'',
     Project = cli_String c ''project'',
     cfg_Region = cli_String c ''region'',
     IPv6 = cli_Bool c ''ipv6'',
     DevelopMode = cli_Bool c ''develop-mode'',
     Filter = cli_StringSlice c ''filter'',
     OrderBy = cli_String c ''order-by'',
     RetryInterval = cli_Duration c ''retry-interval'',
     RetryAttempts = cli_Int c ''retry-attempts'',
     ReleaseOnExit = cli_Bool c ''release-on-exit'',
     LeaseDuration = cli_Int c ''lease-duration'',
     LeaseNamespace = cli_String c ''lease-namespace'',
     TaintKey = cli_String c ''taint-key''\<rparr>"

text \<open>Kubernetes API objects: what \<open>v1.Node\<close>, \<open>v1.NodeAddress\<close> and \<open>v1.Taint\<close> carry.\<close>

record NodeAddress =
  addr_Type :: string
  addr_Address :: string

record Taint =
  taint_Key :: string
  taint_Value :: string
  taint_Effect :: string
  taint_TimeAdded :: "string option"

record kube_node =
  Labels :: "(string \<times> string) list"
  Annotations :: "(string \<times> string) list"
  ProviderID :: string
  Addresses :: "NodeAddress list"
  Taints :: "Taint list"

text \<open>The Kubernetes client, as far as nodes go: \<open>CoreV1().Nodes().Get\<close> and \<open>.Patch\<close> with a JSON
  merge patch.\<close>

record 'w node_client =
  nodes_get :: "string \<Rightarrow> ('w, kube_node) prog"
  nodes_patch :: "string \<Rightarrow> string \<Rightarrow> ('w, unit) prog"

end
