(* ===== verification/Oci.thy ===== *)
theory Oci
  imports CloudOci NodeTypes
begin

text \<open>
  internal/address/oci.go: the assigner of reserved public IPs of Oracle Cloud. The services it holds
  are the fields of \<open>ociAssigner\<close>; \<open>oci_services\<close> fills them with those of CloudOci. Dereferences of SDK
  pointers are explicit, in log statements too, since they panic on nil.
\<close>

record 'w ociAssigner =
  oci_filters :: "OCIFilters option"
  compartmentOCID :: string
  n_ListVnicAttachments :: "string \<Rightarrow> string \<Rightarrow> ('w, VnicAttachment list) prog"
  n_ListPublicIps :: "ListPublicIpsRequest \<Rightarrow> OCIFilters option \<Rightarrow> ('w, PublicIp list) prog"
  n_GetPublicIP :: "string \<Rightarrow> ('w, PublicIp option) prog"
  n_UpdatePublicIP :: "string \<Rightarrow> string \<Rightarrow> ('w, unit) prog"
  n_DeletePublicIP :: "string \<Rightarrow> ('w, unit) prog"
  n_GetPrimaryPrivateIPOfVnic :: "string \<Rightarrow> ('w, PrivateIp) prog"
  n_GetPrimaryVnic :: "VnicAttachment list \<Rightarrow> ('w, Vnic) prog"

definition oci_services ::
  "'w compute_client \<Rightarrow> 'w core_client \<Rightarrow> OCIFilters option \<Rightarrow> string \<Rightarrow> 'w ociAssigner" where
  "oci_services compute client filters compartment = \<lparr>
     oci_filters = filters, compartmentOCID = compartment,
     n_ListVnicAttachments = svc_ListVnicAttachments compute,
     n_ListPublicIps = svc_ListPublicIps client,
     n_GetPublicIP = svc_GetPublicIP client,
     n_UpdatePublicIP = svc_UpdatePublicIP client,
     n_DeletePublicIP = svc_DeletePublicIP client,
     n_GetPrimaryPrivateIPOfVnic = svc_GetPrimaryPrivateIPOfVnic client,
     n_GetPrimaryVnic = svc_GetPrimaryVnic client\<rparr>"

subsection \<open>Filters\<close>

fun parse_oci_loop :: "string list \<Rightarrow> freeform_tags \<Rightarrow> freeform_tags result" where
  "parse_oci_loop [] freeformTags = Ok freeformTags"
| "parse_oci_loop (f # fs) freeformTags =
     (if HasPrefix f ''freeformTags.'' then
        rcheck (ParseFreeformTagFilter f) (wrap ''failed to parse freeform tag filter'' []) (\<lambda>(key, value).
        parse_oci_loop fs (AList.update key value freeformTags))
      else Fail (new_error (''invalid filter format for OCI, should be in format freeformTags.key=value or definedTags.Namespace.key=value, found: '' @ f) []))"

definition parseOCIFilters :: "Config option \<Rightarrow> OCIFilters option result" where
  "parseOCIFilters cfg = (case cfg of
     None \<Rightarrow> Fail (new_error ''config is nil'' [])
   | Some c \<Rightarrow>
       rcheck (parse_oci_loop (Filter c) []) id (\<lambda>freeformTags.
       Ok (Some \<lparr>FreeformTags = Some freeformTags, DefinedTags = None\<rparr>)))"

text \<open>The two clients are made by SDK calls; \<open>warned\<close> is whether the warning about missing filters was
  logged.\<close>

definition NewOCIAssigner ::
  "('w, 'w compute_client) prog \<Rightarrow> ('w, 'w core_client) prog \<Rightarrow> Config \<Rightarrow> ('w, 'w ociAssigner \<times> bool) prog" where
  "NewOCIAssigner NewComputeClient NewNetworkClient cfg =
     check (lift (parseOCIFilters (Some cfg))) (wrap ''failed to parse OCI filters'' []) (\<lambda>filters.
     let warned = (filters = None) in
     check (NewOCIInstanceService NewComputeClient)
       (wrap ''failed to create compute service for OCI'' []) (\<lambda>computeSvc.
     check (NewOCINetworkService NewNetworkClient)
       (wrap ''failed to create network service for OCI'' []) (\<lambda>networkSvc.
     ret (oci_services computeSvc networkSvc filters (Project cfg), warned))))"

subsection \<open>Listing\<close>

definition fetchPublicIps :: "'w ociAssigner \<Rightarrow> bool \<Rightarrow> bool \<Rightarrow> ('w, PublicIp list) prog" where
  "fetchPublicIps a useFilter inUse =
     (let filters = (if \<not> useFilter then None else oci_filters a) in
      check (n_ListPublicIps a
               \<lparr>req_Scope = ListPublicIpsScopeRegion, req_AvailabilityDomain = None,
                req_CompartmentId = compartmentOCID a\<rparr> filters)
        (wrap ''failed to list public IPs'' []) (\<lambda>list.
      let lifecycleState = (if inUse then PublicIpLifecycleStateAssigned
                            else PublicIpLifecycleStateAvailable) in
      ret (filter (\<lambda>ip. LifecycleState ip = lifecycleState) list)))"

definition fetchEphemeralPublicIPs :: "'w ociAssigner \<Rightarrow> string \<Rightarrow> ('w, PublicIp list) prog" where
  "fetchEphemeralPublicIPs a availabilityDomain =
     check (n_ListPublicIps a
              \<lparr>req_Scope = ListPublicIpsScopeAvailabilityDomain,
               req_AvailabilityDomain = Some availabilityDomain,
               req_CompartmentId = compartmentOCID a\<rparr> None)
       (wrap ''failed to list ephemeral public IPs'' []) ret"

definition getPrimaryVnicOfInstance :: "'w ociAssigner \<Rightarrow> string \<Rightarrow> ('w, Vnic) prog" where
  "getPrimaryVnicOfInstance a instanceOCID =
     check (n_ListVnicAttachments a (compartmentOCID a) instanceOCID)
       (wrap ''failed to list VNIC attachments'' []) (\<lambda>vnicAttachment.
     check (n_GetPrimaryVnic a vnicAttachment) (wrap ''failed to get primary VNIC'' []) ret)"

text \<open>The loops that look for the VNIC's address in a list; they dereference every address up to the one
  they find.\<close>

fun match_ip :: "(PublicIp \<Rightarrow> bool) \<Rightarrow> PublicIp list \<Rightarrow> string \<Rightarrow> PublicIp option result" where
  "match_ip P [] publicIP = Ok None"
| "match_ip P (ip # rest) publicIP =
     rcheck (deref (IpAddress ip)) id (\<lambda>x.
     if x = publicIP \<and> P ip then Ok (Some ip) else match_ip P rest publicIP)"

subsection \<open>Assign\<close>

text \<open>Cases 2 to 4 of \<open>handlePublicIPAlreadyAssignedCase\<close>: the address is not on the reserved list.\<close>

definition handle_unreserved :: "'w ociAssigner \<Rightarrow> Vnic \<Rightarrow> string \<Rightarrow> ('w, bool) prog" where
  "handle_unreserved a v publicIP =
     check (fetchPublicIps a False True)
       (wrap ''failed to list public IPs assigned to private IP'' []) (\<lambda>list.
     check (lift (match_ip (\<lambda>_. True) list publicIP)) id (\<lambda>found.
     case found of
       Some ip \<Rightarrow>
         check (lift (deref (pip_Id ip))) id (\<lambda>i.
         check (n_UpdatePublicIP a i '''')
           (wrap ''failed to unassign public IP assigned to private IP'' []) (\<lambda>_. ret False))
     | None \<Rightarrow>
     (case AvailabilityDomain v of
       None \<Rightarrow> throw (new_error ''availability domain not found'' [])
     | Some ad \<Rightarrow>
     check (fetchEphemeralPublicIPs a ad)
       (wrap ''failed to list ephemeral public IPs assigned to private IP'' []) (\<lambda>list.
     check (lift (match_ip (\<lambda>_. True) list publicIP)) id (\<lambda>found.
     case found of
       Some ip \<Rightarrow>
         check (lift (deref (pip_Id ip))) id (\<lambda>i.
         check (n_DeletePublicIP a i)
           (wrap ''failed to delete ephemeral public IP assigned to private IP'' []) (\<lambda>_. ret False))
     | None \<Rightarrow>
         throw (new_error ''unhandled case: public IP is assigned to the instance but not from the reserved IP list'' []))))))"

definition handlePublicIPAlreadyAssignedCase :: "'w ociAssigner \<Rightarrow> Vnic option \<Rightarrow> ('w, bool) prog" where
  "handlePublicIPAlreadyAssignedCase a vnic = (case vnic of
     None \<Rightarrow> ret False
   | Some v \<Rightarrow> (case vnic_PublicIp v of
       None \<Rightarrow> ret False
     | Some publicIP \<Rightarrow>
         check (fetchPublicIps a True True)
           (wrap ''failed to list reserved public IPs assigned to private IP'' []) (\<lambda>list.
         check (lift (match_ip (\<lambda>_. True) list publicIP)) id (\<lambda>found.
         if found \<noteq> None then ret True else handle_unreserved a v publicIP))))"

definition oci_tryAssignAddress :: "'w ociAssigner \<Rightarrow> string \<Rightarrow> string \<Rightarrow> ('w, unit) prog" where
  "oci_tryAssignAddress a privateIPOCID publicIPOCID =
     check (n_GetPublicIP a publicIPOCID) (wrap ''failed to get public IP details'' []) (\<lambda>publicIP.
     case publicIP of
       None \<Rightarrow> throw (new_error ''public IP not found'' [])
     | Some p \<Rightarrow>
         if LifecycleState p \<noteq> PublicIpLifecycleStateAvailable
         then throw (new_error ''public IP is not available'' [])
         else check (lift (deref (pip_Id p))) id (\<lambda>i.
              check (n_UpdatePublicIP a i privateIPOCID) (wrap ''failed to assign public IP'' []) (\<lambda>_.
              ret ())))"

fun oci_assign_loop :: "'w ociAssigner \<Rightarrow> PrivateIp \<Rightarrow> PublicIp list \<Rightarrow> ('w, string) prog" where
  "oci_assign_loop a privateIP [] = throw (new_error ''failed to assign any IP'' [])"
| "oci_assign_loop a privateIP (publicIP # rest) =
     check (lift (deref (priv_Id privateIP))) id (\<lambda>priv.
     check (lift (deref (pip_Id publicIP))) id (\<lambda>pub.
     attempt (oci_tryAssignAddress a priv pub)
       (\<lambda>_. check (lift (deref (IpAddress publicIP))) id (\<lambda>_. oci_assign_loop a privateIP rest))
       (\<lambda>_. check (lift (deref (IpAddress publicIP))) id ret)))"

text \<open>\<open>Assign\<close> returns an address together with an error when the instance already has a reserved IP:
  the value is the pair of the two.\<close>

definition oci_Assign :: "'w ociAssigner \<Rightarrow> string \<Rightarrow> ('w, string \<times> go_error option) prog" where
  "oci_Assign a instanceOCID =
     check (getPrimaryVnicOfInstance a instanceOCID) id (\<lambda>vnic.
     check (lift (deref (vnic_Id vnic))) id (\<lambda>vnicId.
     check (handlePublicIPAlreadyAssignedCase a (Some vnic))
       (wrap ''failed to check if public ip is already assigned or not'' []) (\<lambda>alreadyAssigned.
     if alreadyAssigned then
       check (lift (deref (vnic_PublicIp vnic))) id (\<lambda>ip. ret (ip, Some (Sentinel ErrStaticIPAlreadyAssigned)))
     else
     check (n_GetPrimaryPrivateIPOfVnic a vnicId) (wrap ''failed to get primary VNIC private IP'' [])
       (\<lambda>privateIP.
     check (lift (deref (priv_Id privateIP))) id (\<lambda>_.
     check (fetchPublicIps a True False) (wrap ''failed to get list of reserved public IPs'' [])
       (\<lambda>reservedPublicIPList.
     if reservedPublicIPList = [] then throw (new_error ''no reserved public IPs available'' [])
     else check (oci_assign_loop a privateIP reservedPublicIPList) id (\<lambda>ip. ret (ip, None))))))))"

subsection \<open>Unassign\<close>

definition oci_Unassign :: "'w ociAssigner \<Rightarrow> string \<Rightarrow> ('w, unit) prog" where
  "oci_Unassign a instanceOCID =
     check (getPrimaryVnicOfInstance a instanceOCID) id (\<lambda>vnic.
     case vnic_PublicIp vnic of
       None \<Rightarrow> throw (Sentinel ErrNoPublicIPAssigned)
     | Some publicIP \<Rightarrow>
         check (fetchPublicIps a True True) (wrap ''failed to get list of reserved public IPs'' [])
           (\<lambda>reservedPublicIPList.
         check (lift (match_ip (\<lambda>ip. LifecycleState ip = PublicIpLifecycleStateAssigned)
                        reservedPublicIPList publicIP)) id (\<lambda>found.
         case found of
           Some ip \<Rightarrow>
             check (lift (deref (pip_Id ip))) id (\<lambda>i.
             check (n_UpdatePublicIP a i '''')
               (wrap ''failed to unassign public IP assigned to private IP'' []) (\<lambda>_. ret ()))
         | None \<Rightarrow> throw (new_error ''public IP not assigned from reserved list'' []))))"

subsection \<open>What the filters mean\<close>

definition tag_filter :: "string \<times> string \<Rightarrow> string" where
  "tag_filter kv = freeform_tag_prefix @ fst kv @ ''='' @ snd kv"

definition plain_pair :: "string \<times> string \<Rightarrow> bool" where
  "plain_pair kv \<longleftrightarrow> CHR ''='' \<notin> set (fst kv) \<and> CHR ''='' \<notin> set (snd kv)"

lemma parse_freeform_tag_filter:
  "ParseFreeformTagFilter f = Ok kv \<longleftrightarrow> f = tag_filter kv \<and> plain_pair kv"
  by (cases kv) (simp add: parse_freeform_exact tag_filter_def plain_pair_def)

lemma parse_oci_loop_Ok_iff:
  "parse_oci_loop fs m = Ok m' \<longleftrightarrow>
     (\<exists>kvs. fs = map tag_filter kvs \<and> (\<forall>kv \<in> set kvs. plain_pair kv) \<and>
        m' = fold (\<lambda>(k, v). AList.update k v) kvs m)"
proof (induction fs arbitrary: m)
  case (Cons f fs)
  have pre: "HasPrefix (tag_filter kv) ''freeformTags.''" for kv
    unfolding tag_filter_def freeform_tag_prefix_def by (rule HasPrefix_append)
  show ?case
  proof
    assume "parse_oci_loop (f # fs) m = Ok m'"
    then obtain kv where "ParseFreeformTagFilter f = Ok kv"
      and "parse_oci_loop fs (AList.update (fst kv) (snd kv) m) = Ok m'"
      by (auto simp: rcheck_Ok_iff split: if_splits)
    with Cons.IH obtain kvs where "f = tag_filter kv" "plain_pair kv" "fs = map tag_filter kvs"
      "\<forall>kv \<in> set kvs. plain_pair kv"
      "m' = fold (\<lambda>(k, v). AList.update k v) kvs (AList.update (fst kv) (snd kv) m)"
      by (auto simp: parse_freeform_tag_filter)
    then show "\<exists>kvs. f # fs = map tag_filter kvs \<and> (\<forall>kv \<in> set kvs. plain_pair kv) \<and>
        m' = fold (\<lambda>(k, v). AList.update k v) kvs m"
      by (intro exI [of _ "kv # kvs"]) (simp add: split_beta)
  next
    assume "\<exists>kvs. f # fs = map tag_filter kvs \<and> (\<forall>kv \<in> set kvs. plain_pair kv) \<and>
        m' = fold (\<lambda>(k, v). AList.update k v) kvs m"
    then obtain kv kvs where f: "f = tag_filter kv" "plain_pair kv" and
      r: "fs = map tag_filter kvs" "\<forall>kv \<in> set kvs. plain_pair kv"
        "m' = fold (\<lambda>(k, v). AList.update k v) kvs (AList.update (fst kv) (snd kv) m)"
      by (auto simp: Cons_eq_map_conv split_beta)
    from r Cons.IH have "parse_oci_loop fs (AList.update (fst kv) (snd kv) m) = Ok m'" by blast
    moreover from f have "ParseFreeformTagFilter f = Ok kv" by (simp add: parse_freeform_tag_filter)
    ultimately show "parse_oci_loop (f # fs) m = Ok m'"
      using pre [of kv] f(1) by (simp add: split_beta)
  qed
qed auto

lemma fold_update_rev:
  "map_of (fold (\<lambda>(k, v). AList.update k v) kvs m) k =
     (case map_of (rev kvs) k of Some v \<Rightarrow> Some v | None \<Rightarrow> map_of m k)"
  by (induction kvs arbitrary: m) (auto simp: update_conv' map_add_def split: option.split)

text \<open>C34. The OCI filters of the configuration: parsing succeeds exactly when every filter is
  \<open>freeformTags.key=value\<close> without further equals signs, and the result is never nil; it requires of
  each key the value that the last filter for that key gives, so an earlier filter for the same key is
  dropped rather than combined with it.\<close>

theorem parse_oci_filters_exact:
  "(parseOCIFilters (Some cfg) = Ok fs \<longleftrightarrow>
     (\<exists>kvs. Filter cfg = map tag_filter kvs \<and> (\<forall>kv \<in> set kvs. plain_pair kv) \<and>
        fs = Some \<lparr>FreeformTags = Some (fold (\<lambda>(k, v). AList.update k v) kvs []), DefinedTags = None\<rparr>))
   \<and> (\<forall>(kvs :: (string \<times> string) list) k.
        map_of (fold (\<lambda>(k, v). AList.update k v) kvs []) k = map_of (rev kvs) k)"
  by (auto simp: parseOCIFilters_def rcheck_Ok_iff parse_oci_loop_Ok_iff fold_update_rev split: option.split)

definition ex_cfg :: Config where
  "ex_cfg = \<lparr>KubeConfigPath = [], NodeName = ''node-a'', Project = ''ocid1.compartment'', cfg_Region = [],
     IPv6 = False, DevelopMode = False, Filter = [''freeformTags.env=dev'', ''freeformTags.env=prod''],
     OrderBy = [], RetryInterval = 1000000000, RetryAttempts = 3, ReleaseOnExit = True,
     LeaseDuration = 5, LeaseNamespace = ''default'', TaintKey = []\<rparr>"

lemma parse_oci_filters_exact_witness:
  "parseOCIFilters (Some ex_cfg) =
     Ok (Some \<lparr>FreeformTags = Some [(''env'', ''prod'')], DefinedTags = None\<rparr>)"
  by (rule parse_oci_filters_exact [THEN conjunct1, THEN iffD2])
    (auto simp: ex_cfg_def tag_filter_def freeform_tag_prefix_def plain_pair_def
      intro!: exI [of _ "[(''env'', ''dev''), (''env'', ''prod'')]"])

subsection \<open>The cases of an instance that already has an address\<close>

lemma match_ip_Some:
  "match_ip P xs p = Ok (Some ip) \<Longrightarrow> ip \<in> set xs \<and> IpAddress ip = Some p \<and> P ip"
  by (induction xs) (auto simp: rcheck_Ok_iff split: if_splits)

lemma match_ip_None:
  "match_ip P xs p = Ok None \<Longrightarrow> ip \<in> set xs \<Longrightarrow> P ip \<Longrightarrow> IpAddress ip \<noteq> Some p"
  by (induction xs) (auto simp: rcheck_Ok_iff split: if_splits)

lemma match_ip_total:
  "\<forall>ip \<in> set xs. IpAddress ip \<noteq> None \<Longrightarrow> \<exists>ip \<in> set xs. IpAddress ip = Some p \<and> P ip \<Longrightarrow>
     \<exists>ip. match_ip P xs p = Ok (Some ip)"
proof (induction xs)
  case (Cons x xs)
  then show ?case by (cases "IpAddress x = Some p \<and> P x") auto
qed simp

text \<open>The shape of cases 2 and 3: look for the address, detach it with one call, else go on with \<open>k\<close>.\<close>

lemma detach_Ok_iff:
  "check (lift (match_ip P xs p)) id (\<lambda>found. case found of
       Some ip \<Rightarrow> check (lift (deref (pip_Id ip))) id (\<lambda>i. check (call i) f (\<lambda>_. ret False))
     | None \<Rightarrow> k) w = (Ok b, w') \<longleftrightarrow>
   (\<exists>ip i. match_ip P xs p = Ok (Some ip) \<and> pip_Id ip = Some i \<and> call i w = (Ok (), w') \<and> \<not> b) \<or>
   (match_ip P xs p = Ok None \<and> k w = (Ok b, w'))"
  for call :: "string \<Rightarrow> ('w, unit) prog"
proof (cases "match_ip P xs p")
  case (Ok found)
  then show ?thesis by (cases found) (auto simp: check_Ok_iff)
qed (simp_all add: check_Ok_iff)

text \<open>What has happened when an address \<open>p\<close> that is not on the reserved list has been taken off the VNIC:
  the listing without filters showed the IP object that carries it, and that object was pointed at
  nothing; or it did not, the listing of the VNIC's availability domain did, and the object was
  deleted.\<close>

definition unattached :: "'w ociAssigner \<Rightarrow> Vnic \<Rightarrow> string \<Rightarrow> 'w \<Rightarrow> 'w \<Rightarrow> bool" where
  "unattached a v p w1 w' \<longleftrightarrow> (\<exists>ys w2. fetchPublicIps a False True w1 = (Ok ys, w2) \<and>
     ((\<exists>ip \<in> set ys. \<exists>i. IpAddress ip = Some p \<and> pip_Id ip = Some i \<and>
         n_UpdatePublicIP a i '''' w2 = (Ok (), w')) \<or>
      (\<forall>ip \<in> set ys. IpAddress ip \<noteq> Some p) \<and>
      (\<exists>ad zs w3. AvailabilityDomain v = Some ad \<and> fetchEphemeralPublicIPs a ad w2 = (Ok zs, w3) \<and>
         (\<exists>ip \<in> set zs. \<exists>i. IpAddress ip = Some p \<and> pip_Id ip = Some i \<and>
            n_DeletePublicIP a i w3 = (Ok (), w')))))"

lemma handle_unreserved_Ok:
  assumes "handle_unreserved a v p w = (Ok b, w')"
  shows "\<not> b \<and> unattached a v p w w'"
proof -
  obtain ys w2 where f: "fetchPublicIps a False True w = (Ok ys, w2)"
    using assms by (auto simp: handle_unreserved_def elim: check_OkE)
  consider (listed) ip i where "match_ip (\<lambda>_. True) ys p = Ok (Some ip)" "pip_Id ip = Some i"
      "n_UpdatePublicIP a i '''' w2 = (Ok (), w')" "\<not> b"
    | (ephemeral) ad zs w3 ip i where "match_ip (\<lambda>_. True) ys p = Ok None" "AvailabilityDomain v = Some ad"
      "fetchEphemeralPublicIPs a ad w2 = (Ok zs, w3)" "match_ip (\<lambda>_. True) zs p = Ok (Some ip)"
      "pip_Id ip = Some i" "n_DeletePublicIP a i w3 = (Ok (), w')" "\<not> b"
    using assms f
    by (cases "AvailabilityDomain v")
      (auto simp: handle_unreserved_def detach_Ok_iff check_Ok_iff [of "fetchPublicIps a False True"]
        check_Ok_iff [of "fetchEphemeralPublicIPs a x" for x])
  then show ?thesis
  proof cases
    case listed
    with f match_ip_Some [OF listed(1)] show ?thesis unfolding unattached_def by blast
  next
    case ephemeral
    with f match_ip_Some [OF ephemeral(4)] match_ip_None [OF ephemeral(1)] show ?thesis
      unfolding unattached_def by blast
  qed
qed

text \<open>C22. What an instance's address means for \<open>Assign\<close>: "already assigned" is answered exactly for an
  address on the (filtered) list of assigned reserved IPs, and then nothing has been changed; "go on" is
  answered for an instance without an address, unchanged, or after the address, which is \<^emph>\<open>not\<close> on that
  list, has been taken off: the IP object that carries it, found on the unfiltered list, has been
  updated to point nowhere, or, found among the ephemeral IPs only, has been deleted.\<close>

theorem already_assigned_cases:
  assumes "handlePublicIPAlreadyAssignedCase a (Some v) w = (Ok b, w')"
  shows "case vnic_PublicIp v of
      None \<Rightarrow> \<not> b \<and> w' = w
    | Some p \<Rightarrow> \<exists>xs w1. fetchPublicIps a True True w = (Ok xs, w1) \<and>
        b = (\<exists>ip \<in> set xs. IpAddress ip = Some p) \<and>
        (if b then w' = w1 else unattached a v p w1 w')"
proof (cases "vnic_PublicIp v")
  case None
  with assms show ?thesis by (simp add: handlePublicIPAlreadyAssignedCase_def)
next
  case (Some p)
  from assms Some obtain xs w1 found where f: "fetchPublicIps a True True w = (Ok xs, w1)"
    and m: "match_ip (\<lambda>_. True) xs p = Ok found"
    and k: "(if found \<noteq> None then ret True else handle_unreserved a v p) w1 = (Ok b, w')"
    unfolding handlePublicIPAlreadyAssignedCase_def by (auto elim!: check_OkE)
  have other: "\<not> b \<and> unattached a v p w1 w'" if "found = None"
    using k that handle_unreserved_Ok by simp
  show ?thesis
  proof (cases found)
    case None
    with other m have "\<not> b" "\<not> (\<exists>ip \<in> set xs. IpAddress ip = Some p)"
      by (auto dest: match_ip_None)
    with other [OF None] f Some show ?thesis by auto
  next
    case (Some ip)
    with k have "b" "w' = w1" by simp_all
    with Some m f \<open>vnic_PublicIp v = Some p\<close> show ?thesis
      by (auto dest!: match_ip_Some)
  qed
qed

text \<open>A small tenancy for the witnesses: one reserved IP with a tag; the world says whether it is attached
  to the one VNIC.\<close>

definition ex_pip :: "bool \<Rightarrow> PublicIp" where
  "ex_pip w = \<lparr>pip_Id = Some ''ip-1'', IpAddress = Some ''130.0.0.1'',
     LifecycleState = (if w then PublicIpLifecycleStateAssigned else PublicIpLifecycleStateAvailable),
     pip_FreeformTags = Some [(''env'', ''prod'')], pip_DefinedTags = None\<rparr>"

definition ex_vnic :: "bool \<Rightarrow> Vnic" where
  "ex_vnic w = \<lparr>vnic_Id = Some ''vnic-1'', vnic_IsPrimary = Some True,
     vnic_PublicIp = (if w then Some ''130.0.0.1'' else None), AvailabilityDomain = Some ''ad-1''\<rparr>"

definition ex_oci_compute :: "bool compute_client" where
  "ex_oci_compute = \<lparr>core_ListVnicAttachments = (\<lambda>_ _. ret (Some [\<lparr>att_VnicId = Some ''vnic-1''\<rparr>]))\<rparr>"

definition ex_oci :: "bool core_client" where
  "ex_oci = \<lparr>
     core_GetVnic = (\<lambda>_ w. (Ok (ex_vnic w), w)),
     core_ListPrivateIps = (\<lambda>_. ret (Some [\<lparr>priv_Id = Some ''priv-1'', priv_IsPrimary = Some True\<rparr>])),
     core_ListPublicIps = (\<lambda>r w. (Ok (Some (if req_Scope r = ListPublicIpsScopeRegion then [ex_pip w] else [])), w)),
     core_GetPublicIp = (\<lambda>i w. (if i = ''ip-1'' then Ok (ex_pip w) else Fail (new_error ''not found'' []), w)),
     core_UpdatePublicIp = (\<lambda>_ priv w. (Ok (), priv \<noteq> '''')),
     core_DeletePublicIp = (\<lambda>_. ret ())\<rparr>"

definition env_filter :: OCIFilters where
  "env_filter = \<lparr>FreeformTags = Some [(''env'', ''prod'')], DefinedTags = None\<rparr>"

abbreviation ex_oci_assigner :: "OCIFilters \<Rightarrow> bool ociAssigner" where
  "ex_oci_assigner f \<equiv> oci_services ex_oci_compute ex_oci (Some f) ''ocid1.compartment''"

lemma ex_handle:
  "handlePublicIPAlreadyAssignedCase (ex_oci_assigner (env_filter\<lparr>FreeformTags := Some [(''env'', ''dev'')]\<rparr>))
     (Some (ex_vnic True)) True = (Ok False, False)"
  by code_simp

lemma already_assigned_cases_witness:
  "\<exists>xs w1. fetchPublicIps (ex_oci_assigner (env_filter\<lparr>FreeformTags := Some [(''env'', ''dev'')]\<rparr>)) True True
     True = (Ok xs, w1) \<and> (\<forall>ip \<in> set xs. IpAddress ip \<noteq> Some ''130.0.0.1'')"
  using already_assigned_cases [OF ex_handle] by (auto simp: ex_vnic_def)

subsection \<open>Assign and Unassign\<close>

lemma fetchPublicIps_Ok:
  "fetchPublicIps a u inUse w = (Ok xs, w') \<Longrightarrow>
     \<exists>ys req. n_ListPublicIps a req (if u then oci_filters a else None) w = (Ok ys, w') \<and>
       xs = filter (\<lambda>ip. LifecycleState ip =
         (if inUse then PublicIpLifecycleStateAssigned else PublicIpLifecycleStateAvailable)) ys"
  by (cases u) (auto simp: fetchPublicIps_def Let_def check_Ok_iff)

lemma fetch_accepted:
  assumes "fetchPublicIps (oci_services compute client fs cpt) True inUse w = (Ok xs, w')" "ip \<in> set xs"
  shows "accepted fs ip"
  using fetchPublicIps_Ok [OF assms(1)] assms(2) oci_lister.lister_accepted
  by (fastforce simp: oci_services_def)

lemma fetch_tags:
  assumes "fetchPublicIps (oci_services compute client (Some \<lparr>FreeformTags = Some m, DefinedTags = d\<rparr>) cpt) True
      inUse w = (Ok xs, w')" "ip \<in> set xs" "(k, v) \<in> set m"
  shows "\<exists>tags. pip_FreeformTags ip = Some tags \<and> map_of tags k = Some v"
  using fetchPublicIps_Ok [OF assms(1)] assms(2) oci_lister.lister_tags [OF _ _ assms(3)]
  by (fastforce simp: oci_services_def)

lemma oci_assign_loop_Ok:
  assumes "oci_assign_loop a priv xs w = (Ok ip, w')"
  shows "\<exists>x \<in> set xs. \<exists>pub pr v. IpAddress x = Some ip \<and> pip_Id x = Some pub \<and> priv_Id priv = Some pr \<and>
    oci_tryAssignAddress a pr pub v = (Ok (), w')"
  using assms
proof (induction xs arbitrary: w)
  case (Cons x xs)
  then obtain pr pub where p: "priv_Id priv = Some pr" "pip_Id x = Some pub"
    by (auto simp: check_Ok_iff)
  with Cons.prems consider
      w1 where "oci_tryAssignAddress a pr pub w = (Ok (), w1)" "IpAddress x = Some ip" "w1 = w'"
    | w1 where "oci_assign_loop a priv xs w1 = (Ok ip, w')"
    by (auto simp: attempt_Ok_iff check_Ok_iff)
  then show ?case
  proof cases
    case 1
    with p show ?thesis by auto
  next
    case 2
    with Cons.IH show ?thesis by fastforce
  qed
qed simp

definition oci_attached ::
  "'w compute_client \<Rightarrow> 'w core_client \<Rightarrow> freeform_tags \<Rightarrow> string \<Rightarrow> string \<Rightarrow> string \<Rightarrow> 'w \<Rightarrow> 'w \<Rightarrow> bool" where
  "oci_attached compute client m cpt iid ip w w' \<longleftrightarrow> (\<exists>vnic vn wa wb priv pr wc ys wd x pub p i v v1.
     getPrimaryVnicOfInstance (oci_services compute client (Some \<lparr>FreeformTags = Some m, DefinedTags = None\<rparr>) cpt)
       iid w = (Ok vnic, wa) \<and>
     handlePublicIPAlreadyAssignedCase
       (oci_services compute client (Some \<lparr>FreeformTags = Some m, DefinedTags = None\<rparr>) cpt) (Some vnic) wa
       = (Ok False, wb) \<and>
     vnic_Id vnic = Some vn \<and> svc_GetPrimaryPrivateIPOfVnic client vn wb = (Ok priv, wc) \<and>
     priv_Id priv = Some pr \<and>
     core_ListPublicIps client \<lparr>req_Scope = ListPublicIpsScopeRegion, req_AvailabilityDomain = None,
       req_CompartmentId = cpt\<rparr> wc = (Ok (Some ys), wd) \<and>
     x \<in> set ys \<and> IpAddress x = Some ip \<and> pip_Id x = Some pub \<and>
     LifecycleState x = PublicIpLifecycleStateAvailable \<and>
     (\<forall>(k, u) \<in> set m. \<exists>tags. pip_FreeformTags x = Some tags \<and> map_of tags k = Some u) \<and>
     core_GetPublicIp client pub v = (Ok p, v1) \<and> pip_Id p = Some i \<and>
     LifecycleState p = PublicIpLifecycleStateAvailable \<and>
     core_UpdatePublicIp client i pr v1 = (Ok (), w'))"

lemma oci_tryAssign_Ok:
  assumes "oci_tryAssignAddress (oci_services compute client fs cpt) pr pub v = (Ok (), w')"
  shows "\<exists>p i v1. core_GetPublicIp client pub v = (Ok p, v1) \<and> pip_Id p = Some i \<and>
    LifecycleState p = PublicIpLifecycleStateAvailable \<and> core_UpdatePublicIp client i pr v1 = (Ok (), w')"
  using assms
  by (auto simp: oci_tryAssignAddress_def oci_services_def svc_GetPublicIP_def svc_UpdatePublicIP_def
      check_Ok_iff split: if_splits)

lemma fetch_available:
  assumes "fetchPublicIps (oci_services compute client fs cpt) True False w = (Ok xs, w')"
  shows "\<exists>ys. core_ListPublicIps client \<lparr>req_Scope = ListPublicIpsScopeRegion, req_AvailabilityDomain = None,
      req_CompartmentId = cpt\<rparr> w = (Ok (Some ys), w') \<and>
    xs = filter (\<lambda>ip. accepted fs ip \<and> LifecycleState ip = PublicIpLifecycleStateAvailable) ys"
  using assms
  by (auto simp: fetchPublicIps_def Let_def oci_services_def check_Ok_iff svc_ListPublicIps_Ok_iff)

lemma oci_Assign_attaches:
  assumes "oci_Assign (oci_services compute client (Some \<lparr>FreeformTags = Some m, DefinedTags = None\<rparr>) cpt) iid w
      = (Ok (ip, None), w')"
  shows "oci_attached compute client m cpt iid ip w w'"
proof -
  let ?a = "oci_services compute client (Some \<lparr>FreeformTags = Some m, DefinedTags = None\<rparr>) cpt"
  from assms obtain vnic vn wa wb priv wc xs wd where
    1: "getPrimaryVnicOfInstance ?a iid w = (Ok vnic, wa)" "vnic_Id vnic = Some vn"
      "handlePublicIPAlreadyAssignedCase ?a (Some vnic) wa = (Ok False, wb)"
      "n_GetPrimaryPrivateIPOfVnic ?a vn wb = (Ok priv, wc)"
    and f: "fetchPublicIps ?a True False wc = (Ok xs, wd)"
    and l: "oci_assign_loop ?a priv xs wd = (Ok ip, w')"
    unfolding oci_Assign_def by (auto simp: check_Ok_iff split: if_splits)
  from oci_assign_loop_Ok [OF l] obtain x pub pr v where
    x: "x \<in> set xs" "IpAddress x = Some ip" "pip_Id x = Some pub" "priv_Id priv = Some pr"
    and t: "oci_tryAssignAddress ?a pr pub v = (Ok (), w')" by blast
  from fetch_available [OF f] x(1) obtain ys where
    "core_ListPublicIps client \<lparr>req_Scope = ListPublicIpsScopeRegion, req_AvailabilityDomain = None,
      req_CompartmentId = cpt\<rparr> wc = (Ok (Some ys), wd)" "x \<in> set ys"
    "LifecycleState x = PublicIpLifecycleStateAvailable" by auto
  moreover have "\<forall>(k, u) \<in> set m. \<exists>tags. pip_FreeformTags x = Some tags \<and> map_of tags k = Some u"
    using fetch_tags [OF f x(1)] by auto
  moreover have "svc_GetPrimaryPrivateIPOfVnic client vn wb = (Ok priv, wc)"
    using 1(4) by (simp add: oci_services_def)
  ultimately show ?thesis using 1(1-3) x(2-4) oci_tryAssign_Ok [OF t] unfolding oci_attached_def by blast
qed

text \<open>C10. What a successful \<open>Assign\<close> with a new address has done, for an assigner with parsed filters: the
  address is that of an IP object which the listing of the compartment, made after the VNIC's old
  address was dealt with, showed as available and with every configured tag at the configured value;
  the object's state was read again and was \<open>AVAILABLE\<close>; and the last call pointed it at the primary
  private IP of the instance's primary VNIC.\<close>

theorem oci_assign_result:
  assumes "oci_Assign (oci_services compute client (Some \<lparr>FreeformTags = Some m, DefinedTags = None\<rparr>) cpt) iid w
      = (Ok (ip, None), w')"
  shows "\<exists>vnic vn wa wb priv pr wc ys wd x pub p i v v1.
     getPrimaryVnicOfInstance (oci_services compute client (Some \<lparr>FreeformTags = Some m, DefinedTags = None\<rparr>) cpt)
       iid w = (Ok vnic, wa) \<and>
     handlePublicIPAlreadyAssignedCase
       (oci_services compute client (Some \<lparr>FreeformTags = Some m, DefinedTags = None\<rparr>) cpt) (Some vnic) wa
       = (Ok False, wb) \<and>
     vnic_Id vnic = Some vn \<and> svc_GetPrimaryPrivateIPOfVnic client vn wb = (Ok priv, wc) \<and>
     priv_Id priv = Some pr \<and>
     core_ListPublicIps client \<lparr>req_Scope = ListPublicIpsScopeRegion, req_AvailabilityDomain = None,
       req_CompartmentId = cpt\<rparr> wc = (Ok (Some ys), wd) \<and>
     x \<in> set ys \<and> IpAddress x = Some ip \<and> pip_Id x = Some pub \<and>
     LifecycleState x = PublicIpLifecycleStateAvailable \<and>
     (\<forall>(k, u) \<in> set m. \<exists>tags. pip_FreeformTags x = Some tags \<and> map_of tags k = Some u) \<and>
     core_GetPublicIp client pub v = (Ok p, v1) \<and> pip_Id p = Some i \<and>
     LifecycleState p = PublicIpLifecycleStateAvailable \<and>
     core_UpdatePublicIp client i pr v1 = (Ok (), w')"
  using oci_Assign_attaches [OF assms] unfolding oci_attached_def .

lemma ex_oci_assign:
  "oci_Assign (ex_oci_assigner \<lparr>FreeformTags = Some [(''env'', ''prod'')], DefinedTags = None\<rparr>) ''vm-1'' False
     = (Ok (''130.0.0.1'', None), True)"
  by code_simp

lemma oci_assign_result_witness:
  "\<exists>ys w wd x. core_ListPublicIps ex_oci \<lparr>req_Scope = ListPublicIpsScopeRegion, req_AvailabilityDomain = None,
       req_CompartmentId = ''ocid1.compartment''\<rparr> w = (Ok (Some ys), wd) \<and> x \<in> set ys \<and>
     IpAddress x = Some ''130.0.0.1'' \<and> (\<exists>tags. pip_FreeformTags x = Some tags \<and> map_of tags ''env'' = Some ''prod'')"
proof -
  have "\<forall>(k, u) \<in> set [(''env'', ''prod'')]. \<exists>tags. pip_FreeformTags x = Some tags \<and> map_of tags k = Some u
    \<Longrightarrow> \<exists>tags. pip_FreeformTags x = Some tags \<and> map_of tags ''env'' = Some ''prod''" for x :: PublicIp
    by simp
  with oci_assign_result [OF ex_oci_assign] show ?thesis by blast
qed

text \<open>An instance that has a reserved IP of the filtered list is left alone: \<open>Assign\<close> returns that
  address together with \<open>ErrStaticIPAlreadyAssigned\<close>, and its only calls are the reads.\<close>

theorem oci_already_assigned:
  assumes "getPrimaryVnicOfInstance a iid w = (Ok vnic, w1)" "vnic_Id vnic \<noteq> None"
    and "vnic_PublicIp vnic = Some p" "fetchPublicIps a True True w1 = (Ok xs, w2)"
    and "\<forall>ip \<in> set xs. IpAddress ip \<noteq> None" "\<exists>ip \<in> set xs. IpAddress ip = Some p"
  shows "oci_Assign a iid w = (Ok (p, Some (Sentinel ErrStaticIPAlreadyAssigned)), w2)"
proof -
  obtain ip where m: "match_ip (\<lambda>_. True) xs p = Ok (Some ip)"
    using match_ip_total [OF assms(5), of p "\<lambda>_. True"] assms(6) by auto
  obtain i where "vnic_Id vnic = Some i" using assms(2) by auto
  moreover have "handlePublicIPAlreadyAssignedCase a (Some vnic) w1 = (Ok True, w2)"
    using assms(3,4) m by (simp add: handlePublicIPAlreadyAssignedCase_def)
  ultimately show ?thesis
    using assms(1,3) by (simp add: oci_Assign_def)
qed

lemma oci_already_assigned_witness:
  "oci_Assign (ex_oci_assigner env_filter) ''vm-1'' True
     = (Ok (''130.0.0.1'', Some (Sentinel ErrStaticIPAlreadyAssigned)), True)"
proof (rule oci_already_assigned)
  show "getPrimaryVnicOfInstance (ex_oci_assigner env_filter) ''vm-1'' True = (Ok (ex_vnic True), True)"
    by code_simp
  show "fetchPublicIps (ex_oci_assigner env_filter) True True True = (Ok [ex_pip True], True)"
    by code_simp
qed (simp_all add: ex_vnic_def ex_pip_def)

definition oci_detached ::
  "'w ociAssigner \<Rightarrow> string \<Rightarrow> 'w \<Rightarrow> 'w \<Rightarrow> bool" where
  "oci_detached a iid w w' \<longleftrightarrow>
     (\<exists>vnic p xs ip i w1 w2. getPrimaryVnicOfInstance a iid w = (Ok vnic, w1) \<and>
      vnic_PublicIp vnic = Some p \<and> fetchPublicIps a True True w1 = (Ok xs, w2) \<and> ip \<in> set xs \<and>
      IpAddress ip = Some p \<and> LifecycleState ip = PublicIpLifecycleStateAssigned \<and> pip_Id ip = Some i \<and>
      n_UpdatePublicIP a i '''' w2 = (Ok (), w'))"

lemma oci_Unassign_detaches:
  assumes "oci_Unassign a iid w = (Ok (), w')"
  shows "oci_detached a iid w w'"
proof -
  from assms obtain vnic w1 p xs w2 found where
    1: "getPrimaryVnicOfInstance a iid w = (Ok vnic, w1)" "vnic_PublicIp vnic = Some p"
      "fetchPublicIps a True True w1 = (Ok xs, w2)"
    and m: "match_ip (\<lambda>ip. LifecycleState ip = PublicIpLifecycleStateAssigned) xs p = Ok found"
    and k: "(case found of
           Some ip \<Rightarrow>
             check (lift (deref (pip_Id ip))) id (\<lambda>i.
             check (n_UpdatePublicIP a i '''')
               (wrap ''failed to unassign public IP assigned to private IP'' []) (\<lambda>_. ret ()))
         | None \<Rightarrow> throw (new_error ''public IP not assigned from reserved list'' [])) w2 = (Ok (), w')"
    unfolding oci_Unassign_def by (auto elim!: check_OkE simp: option_throw_Ok_iff)
  from k obtain ip i where "found = Some ip" "pip_Id ip = Some i" "n_UpdatePublicIP a i '''' w2 = (Ok (), w')"
    by (cases found) (auto simp: check_Ok_iff)
  with 1 match_ip_Some [of _ xs p ip] m show ?thesis unfolding oci_detached_def by blast
qed

text \<open>C25. \<open>Unassign\<close> detaches only a reserved address of the instance: it succeeds only when the primary
  VNIC has an address, that address is on the filtered list of assigned IPs, and the one update that
  detaches the IP object carrying it succeeds.\<close>

theorem oci_unassign_result:
  assumes "oci_Unassign a iid w = (Ok (), w')"
  shows "\<exists>vnic p xs ip i w1 w2. getPrimaryVnicOfInstance a iid w = (Ok vnic, w1) \<and>
    vnic_PublicIp vnic = Some p \<and> fetchPublicIps a True True w1 = (Ok xs, w2) \<and> ip \<in> set xs \<and>
    IpAddress ip = Some p \<and> LifecycleState ip = PublicIpLifecycleStateAssigned \<and> pip_Id ip = Some i \<and>
    n_UpdatePublicIP a i '''' w2 = (Ok (), w')"
  using oci_Unassign_detaches [OF assms] unfolding oci_detached_def .

lemma ex_oci_unassign: "oci_Unassign (ex_oci_assigner env_filter) ''vm-1'' True = (Ok (), False)"
  by code_simp

lemma oci_unassign_result_witness:
  "\<exists>vnic p w1. getPrimaryVnicOfInstance (ex_oci_assigner env_filter) ''vm-1'' True = (Ok vnic, w1) \<and>
     vnic_PublicIp vnic = Some p"
  using oci_unassign_result [OF ex_oci_unassign] by blast

text \<open>Configuring no filter does not mean "any IP": the constructor makes an empty filter map instead of
  none, so its warning that any IP can be used is never logged, and an IP object that the API returns
  without a tag map is never listed.\<close>

theorem oci_no_filters_still_filter:
  assumes "NewOCIAssigner NewComputeClient NewNetworkClient cfg w = (Ok (a, warned), w')"
  shows "\<not> warned \<and>
    (fetchPublicIps a True inUse v = (Ok xs, v') \<longrightarrow> (\<forall>ip \<in> set xs. pip_FreeformTags ip \<noteq> None))"
proof -
  from assms obtain fs client compute where fs: "parseOCIFilters (Some cfg) = Ok fs" "warned = (fs = None)"
    and a: "a = oci_services compute client fs (Project cfg)"
    by (auto simp: NewOCIAssigner_def Let_def check_Ok_iff)
  from fs(1) obtain m where m: "fs = Some \<lparr>FreeformTags = Some m, DefinedTags = None\<rparr>"
    by (auto simp: parseOCIFilters_def rcheck_Ok_iff)
  have "pip_FreeformTags ip \<noteq> None"
    if "fetchPublicIps a True inUse v = (Ok xs, v')" "ip \<in> set xs" for ip
  proof -
    from fetch_accepted [OF that(1) [unfolded a] that(2)] show ?thesis
      by (auto simp: accepted_def m CheckFreeformTagFilter_def split: option.splits)
  qed
  with fs(2) m show ?thesis by simp
qed

lemma oci_no_filters_still_filter_witness:
  "\<exists>a. NewOCIAssigner (ret ex_oci_compute) (ret ex_oci) (ex_cfg\<lparr>Filter := []\<rparr>) True = (Ok (a, False), True)"
proof -
  have "\<exists>a warned. NewOCIAssigner (ret ex_oci_compute) (ret ex_oci) (ex_cfg\<lparr>Filter := []\<rparr>) True =
      (Ok (a, warned), True)"
    by (simp add: NewOCIAssigner_def NewOCIInstanceService_def NewOCINetworkService_def parseOCIFilters_def
        check_lift Let_def check_def attempt_def) blast
  then obtain a warned where r: "NewOCIAssigner (ret ex_oci_compute) (ret ex_oci) (ex_cfg\<lparr>Filter := []\<rparr>) True =
      (Ok (a, warned), True)" by blast
  from oci_no_filters_still_filter [OF r] have "\<not> warned" by blast
  with r show ?thesis by auto
qed

end
