(* ===== verification/Explorer.thy ===== *)
theory Explorer
  imports NodeTypes
begin

text \<open>
  internal/node/explorer.go: from a node name to the description of the node the assigners work
  on. The Kubernetes client and the file with the node name are parameters; the cloud provider, the
  instance, the pool and the addresses are read off the API object by the functions below, in the
  order of the source.
\<close>

definition minProviderIDTokens :: nat where "minProviderIDTokens = 2"
definition podInfoDir :: string where "podInfoDir = ''/etc/podinfo/''"
definition awsPoolLabel :: string where "awsPoolLabel = ''eks.amazonaws.com/nodegroup''"
definition azurePoolLabel :: string where "azurePoolLabel = ''node.kubernetes.io/instancegroup''"
definition gcpPoolLabel :: string where "gcpPoolLabel = ''cloud.google.com/gke-nodepool''"
definition ociPoolAnnotation :: string where "ociPoolAnnotation = ''oci.oraclecloud.com/node-pool-id''"
definition regionLabel :: string where "regionLabel = ''topology.kubernetes.io/region''"
definition zoneLabel :: string where "zoneLabel = ''topology.kubernetes.io/zone''"
definition NodeExternalIP :: string where "NodeExternalIP = ''ExternalIP''"
definition NodeInternalIP :: string where "NodeInternalIP = ''InternalIP''"

lemma address_types_neq [simp]: "NodeExternalIP \<noteq> NodeInternalIP" "NodeInternalIP \<noteq> NodeExternalIP"
  by (simp_all add: NodeExternalIP_def NodeInternalIP_def)

definition getNodeName :: "(string \<Rightarrow> ('w, string) prog) \<Rightarrow> string \<Rightarrow> ('w, string) prog" where
  "getNodeName read_file file =
     check (read_file file) (wrap ''failed to read %s'' [file]) (\<lambda>nodeName. ret nodeName)"

definition getCloudProvider :: "string \<Rightarrow> CloudProvider result" where
  "getCloudProvider providerID =
     (if HasPrefix providerID ''aws://'' then Ok CloudProviderAWS
      else if HasPrefix providerID ''azure://'' then Ok CloudProviderAzure
      else if HasPrefix providerID ''gce://'' then Ok CloudProviderGCP
      else if HasPrefix providerID ''oci'' then Ok CloudProviderOCI
      else Fail (new_error ''unsupported provider ID: %s'' [providerID]))"

definition getInstance :: "string \<Rightarrow> string result" where
  "getInstance providerID =
     (if providerID = [] then Fail (new_error ''failed to get instance ID, provider ID is empty'' [])
      else if HasPrefix providerID ''oci'' then Ok providerID
      else (let s = Split providerID CHR ''/'' in
        if length s < minProviderIDTokens then Fail (new_error ''failed to get instance ID'' [])
        else Ok (s ! (length s - 1))))"

definition getNodePool :: "CloudProvider \<Rightarrow> kube_node option \<Rightarrow> string result" where
  "getNodePool providerID node =
     (case node of
        None \<Rightarrow> Fail (new_error ''node info is nil'' [])
      | Some n \<Rightarrow>
          (let pool =
             (if providerID = CloudProviderAWS then Some (map_of (Labels n) awsPoolLabel)
              else if providerID = CloudProviderAzure then Some (map_of (Labels n) azurePoolLabel)
              else if providerID = CloudProviderGCP then Some (map_of (Labels n) gcpPoolLabel)
              else if providerID = CloudProviderOCI then Some (map_of (Annotations n) ociPoolAnnotation)
              else None)
           in case pool of
                None \<Rightarrow> Fail (new_error ''unsupported cloud provider: %s'' [providerID])
              | Some None \<Rightarrow> Fail (new_error ''failed to get node pool'' [])
              | Some (Some p) \<Rightarrow> Ok p))"

text \<open>The loop over the addresses of the node with its two result slices.\<close>

fun getAddresses_loop ::
  "NodeAddress list \<Rightarrow> net_ip list \<Rightarrow> net_ip list \<Rightarrow> (net_ip list \<times> net_ip list) result" where
  "getAddresses_loop [] externalIPs internalIPs = Ok (externalIPs, internalIPs)"
| "getAddresses_loop (a # rest) externalIPs internalIPs =
     (if addr_Type a \<noteq> NodeExternalIP \<and> addr_Type a \<noteq> NodeInternalIP
      then getAddresses_loop rest externalIPs internalIPs
      else case ParseIP (addr_Address a) of
          None \<Rightarrow> Fail (new_error ''failed to parse IP address: %s'' [addr_Address a])
        | Some ip \<Rightarrow>
            if addr_Type a = NodeExternalIP
            then getAddresses_loop rest (externalIPs @ [ip]) internalIPs
            else getAddresses_loop rest externalIPs (internalIPs @ [ip]))"

definition getAddresses :: "NodeAddress list \<Rightarrow> (net_ip list \<times> net_ip list) result" where
  "getAddresses addresses = getAddresses_loop addresses [] []"

definition GetNode ::
  "'w node_client option \<Rightarrow> (string \<Rightarrow> ('w, string) prog) \<Rightarrow> string \<Rightarrow> ('w, Node) prog" where
  "GetNode client read_file nodeName0 =
     (case client of
        None \<Rightarrow> throw (new_error ''kubernetes client is nil'' [])
      | Some cl \<Rightarrow>
        check (if nodeName0 = [] then getNodeName read_file (podInfoDir @ ''nodeName'') else ret nodeName0)
              (wrap ''failed to get node name from downward API'' []) (\<lambda>nodeName.
        check (nodes_get cl nodeName) (wrap ''failed to get kubernetes node'' []) (\<lambda>n.
        check (lift (getCloudProvider (ProviderID n))) (wrap ''failed to get cloud provider'' []) (\<lambda>cloudProvider.
        check (lift (getInstance (ProviderID n))) (wrap ''failed to get instance ID'' []) (\<lambda>inst.
        case map_of (Labels n) regionLabel of
          None \<Rightarrow> throw (new_error ''failed to get node region'' [])
        | Some region \<Rightarrow>
        (case map_of (Labels n) zoneLabel of
          None \<Rightarrow> throw (new_error ''failed to get node zone'' [])
        | Some zone \<Rightarrow>
        check (lift (getNodePool cloudProvider (Some n))) (wrap ''failed to get node pool'' []) (\<lambda>pool.
        check (lift (getAddresses (Addresses n))) (wrap ''failed to get node addresses'' []) (\<lambda>(externalIPs, internalIPs).
        ret \<lparr>Name = nodeName, Instance = inst, Cloud = cloudProvider, Pool = pool,
             Region = region, Zone = zone, ExternalIPs = externalIPs, InternalIPs = internalIPs\<rparr>))))))))"

subsection \<open>Provider IDs\<close>

lemma slash_in_prefixes:
  "CHR ''/'' \<in> set ''aws://''" "CHR ''/'' \<in> set ''azure://''" "CHR ''/'' \<in> set ''gce://''"
  by simp_all

lemma getInstance_last:
  assumes "\<not> HasPrefix p ''oci''" "p = q @ ''/'' @ i" "CHR ''/'' \<notin> set i"
  shows "getInstance p = Ok i"
proof -
  let ?s = "Split p CHR ''/''"
  have "?s ! (length ?s - 1) = i"
    using Split_append_last [OF assms(3), of q] assms(2) by (simp add: last_conv_nth)
  moreover have "minProviderIDTokens \<le> length ?s"
    using assms(2) by (simp add: minProviderIDTokens_def length_Split)
  ultimately show ?thesis using assms(1,2) by (simp add: getInstance_def Let_def)
qed

lemma getInstance_of_slash:
  assumes "CHR ''/'' \<in> set p" "\<not> HasPrefix p ''oci''"
  shows "\<exists>i. getInstance p = Ok i \<and> CHR ''/'' \<notin> set i \<and> (\<exists>q. p = q @ ''/'' @ i)"
proof -
  from assms(1) obtain a b where "p = a @ ''/'' @ b" "CHR ''/'' \<notin> set b"
    by (metis append_Cons append_Nil split_list_last)
  with getInstance_last [OF assms(2)] show ?thesis by blast
qed

lemma getCloudProvider_Ok:
  "getCloudProvider p = Ok c \<Longrightarrow>
     c \<in> {CloudProviderAWS, CloudProviderAzure, CloudProviderGCP, CloudProviderOCI}"
  by (auto simp: getCloudProvider_def split: if_splits)

text \<open>Every provider ID that names a supported cloud also yields an instance: for OCI the whole ID,
  for the other clouds the text after the last slash (with no slash in it). So the second check of
  \<open>GetNode\<close>, the one on the instance, never fails after the first has passed.\<close>

theorem supported_provider_has_instance:
  assumes "getCloudProvider p = Ok c"
  shows "\<exists>i. getInstance p = Ok i \<and>
     (if c = CloudProviderOCI then i = p
      else CHR ''/'' \<notin> set i \<and> (\<exists>q. p = q @ ''/'' @ i))"
proof (cases "HasPrefix p ''oci''")
  case True
  then obtain r where p: "p = ''oci'' @ r" by (auto simp: HasPrefix_iff)
  with assms have "c = CloudProviderOCI"
    by (simp add: getCloudProvider_def HasPrefix_def)
  with p show ?thesis by (simp add: getInstance_def HasPrefix_def)
next
  case False
  with assms have "CHR ''/'' \<in> set p" and "c \<noteq> CloudProviderOCI"
    by (auto simp: getCloudProvider_def HasPrefix_iff split: if_splits)
  with False getInstance_of_slash show ?thesis by auto
qed

theorem supported_provider_has_instance_witness:
  "getCloudProvider ''aws:///us-west-2b/i-06d71a5ffc05cc325'' = Ok CloudProviderAWS
   \<and> getInstance ''aws:///us-west-2b/i-06d71a5ffc05cc325'' = Ok ''i-06d71a5ffc05cc325''
   \<and> (\<exists>q. ''aws:///us-west-2b/i-06d71a5ffc05cc325'' = q @ ''/'' @ ''i-06d71a5ffc05cc325'')"
proof -
  have g: "getCloudProvider ''aws:///us-west-2b/i-06d71a5ffc05cc325'' = Ok CloudProviderAWS"
    by code_simp
  have i: "getInstance ''aws:///us-west-2b/i-06d71a5ffc05cc325'' = Ok ''i-06d71a5ffc05cc325''"
    by code_simp
  from supported_provider_has_instance [OF g] g i show ?thesis by simp
qed

subsection \<open>Addresses\<close>

lemma getAddresses_loop_iff:
  "getAddresses_loop as es0 is0 = Ok (ext', int') \<longleftrightarrow>
     (\<exists>es is. ext' = es0 @ es \<and> int' = is0 @ is \<and>
        map Some es = map (\<lambda>a. ParseIP (addr_Address a)) (filter (\<lambda>a. addr_Type a = NodeExternalIP) as) \<and>
        map Some is = map (\<lambda>a. ParseIP (addr_Address a)) (filter (\<lambda>a. addr_Type a = NodeInternalIP) as))"
proof (induction as es0 is0 arbitrary: ext' int' rule: getAddresses_loop.induct)
  case (1 es0 is0)
  then show ?case by auto
next
  case (2 a rest es0 is0)
  consider "addr_Type a = NodeExternalIP" | "addr_Type a = NodeInternalIP"
    | "addr_Type a \<noteq> NodeExternalIP" "addr_Type a \<noteq> NodeInternalIP" by blast
  then show ?case
  proof cases
    case 1
    then show ?thesis using 2
      by (cases "ParseIP (addr_Address a)") (auto simp: Cons_eq_map_conv map_eq_Cons_conv)
  next
    case 2
    then show ?thesis using "2.IH"
      by (cases "ParseIP (addr_Address a)") (auto simp: Cons_eq_map_conv map_eq_Cons_conv)
  next
    case 3
    then show ?thesis using "2.IH" by simp
  qed
qed

text \<open>Address extraction is a partition: it succeeds exactly when every external and internal
  address of the node parses, and then the two results are the parsed external and the parsed
  internal addresses in the order of the API object; other address types (host names) are ignored,
  even when they do not parse.\<close>

theorem getAddresses_partition:
  "getAddresses as = Ok (ext, itl) \<longleftrightarrow>
     map Some ext = map (\<lambda>a. ParseIP (addr_Address a)) (filter (\<lambda>a. addr_Type a = NodeExternalIP) as) \<and>
     map Some itl = map (\<lambda>a. ParseIP (addr_Address a)) (filter (\<lambda>a. addr_Type a = NodeInternalIP) as)"
  by (simp add: getAddresses_def getAddresses_loop_iff)

subsection \<open>The node\<close>

text \<open>What a node description has to do with the API object it was built from, told without the helpers
  of \<open>GetNode\<close>. A provider ID is \<open>oci...\<close>, and then the instance is the whole ID, or the scheme of one of
  the other clouds followed by a path, and then the instance is its last segment.\<close>

definition provider_text :: "string \<Rightarrow> CloudProvider \<Rightarrow> string \<Rightarrow> bool" where
  "provider_text p c i \<longleftrightarrow>
     c = ''oci'' \<and> i = p \<and> (\<exists>r. p = ''oci'' @ r) \<or>
     (\<exists>scheme r. (c, scheme) \<in> {(''aws'', ''aws://''), (''azure'', ''azure://''), (''gcp'', ''gce://'')} \<and>
        p = scheme @ r \<and> CHR ''/'' \<notin> set i \<and> (\<exists>q. p = q @ ''/'' @ i))"

text \<open>Where the node pool is named: by a label, on Oracle Cloud by an annotation.\<close>

definition pool_text :: "kube_node \<Rightarrow> CloudProvider \<Rightarrow> string \<Rightarrow> bool" where
  "pool_text n c pool \<longleftrightarrow>
     c = ''aws'' \<and> map_of (Labels n) ''eks.amazonaws.com/nodegroup'' = Some pool \<or>
     c = ''azure'' \<and> map_of (Labels n) ''node.kubernetes.io/instancegroup'' = Some pool \<or>
     c = ''gcp'' \<and> map_of (Labels n) ''cloud.google.com/gke-nodepool'' = Some pool \<or>
     c = ''oci'' \<and> map_of (Annotations n) ''oci.oraclecloud.com/node-pool-id'' = Some pool"

definition address_texts :: "kube_node \<Rightarrow> string \<Rightarrow> string list" where
  "address_texts n type = map addr_Address (filter (\<lambda>a. addr_Type a = type) (Addresses n))"

definition node_describes :: "string \<Rightarrow> kube_node \<Rightarrow> Node \<Rightarrow> bool" where
  "node_describes name n nd \<longleftrightarrow>
     Name nd = name \<and>
     provider_text (ProviderID n) (Cloud nd) (Instance nd) \<and>
     pool_text n (Cloud nd) (Pool nd) \<and>
     map_of (Labels n) ''topology.kubernetes.io/region'' = Some (Region nd) \<and>
     map_of (Labels n) ''topology.kubernetes.io/zone'' = Some (Zone nd) \<and>
     map ParseIP (address_texts n ''ExternalIP'') = map Some (ExternalIPs nd) \<and>
     map ParseIP (address_texts n ''InternalIP'') = map Some (InternalIPs nd)"

lemma provider_text_oci:
  "HasPrefix p ''oci'' \<Longrightarrow> provider_text p c i \<longleftrightarrow> getCloudProvider p = Ok c \<and> getInstance p = Ok i"
  by (auto simp: HasPrefix_iff provider_text_def getCloudProvider_def getInstance_def cloud_provider_defs)

lemma provider_scheme:
  assumes "\<not> HasPrefix p ''oci''"
  shows "getCloudProvider p = Ok c \<longleftrightarrow> (\<exists>scheme r. p = scheme @ r \<and>
    (c, scheme) \<in> {(''aws'', ''aws://''), (''azure'', ''azure://''), (''gcp'', ''gce://'')})"
  using assms by (auto simp: HasPrefix_iff getCloudProvider_def cloud_provider_defs)

lemma provider_text_iff:
  "provider_text p c i \<longleftrightarrow> getCloudProvider p = Ok c \<and> getInstance p = Ok i"
proof (cases "HasPrefix p ''oci''")
  case False
  have slash: "CHR ''/'' \<in> set p" if "getCloudProvider p = Ok c"
    using that False by (auto simp: provider_scheme)
  have "provider_text p c i \<longleftrightarrow> getCloudProvider p = Ok c \<and> CHR ''/'' \<notin> set i \<and> (\<exists>q. p = q @ ''/'' @ i)"
    using False by (auto simp: provider_text_def provider_scheme HasPrefix_iff)
  with getInstance_last [OF False] getInstance_of_slash [OF slash False] show ?thesis by force
qed (rule provider_text_oci)

lemma pool_text_iff:
  assumes "c \<in> {CloudProviderAWS, CloudProviderAzure, CloudProviderGCP, CloudProviderOCI}"
  shows "pool_text n c pool \<longleftrightarrow> getNodePool c (Some n) = Ok pool"
  using assms
  by (auto simp: pool_text_def getNodePool_def cloud_provider_defs awsPoolLabel_def azurePoolLabel_def
      gcpPoolLabel_def ociPoolAnnotation_def split: option.splits)

lemma address_texts_iff:
  "getAddresses (Addresses n) = Ok (es, is) \<longleftrightarrow>
     map ParseIP (address_texts n ''ExternalIP'') = map Some es \<and>
     map ParseIP (address_texts n ''InternalIP'') = map Some is"
  unfolding address_texts_def getAddresses_def getAddresses_loop_iff NodeExternalIP_def NodeInternalIP_def
  by (auto simp: comp_def eq_commute [of "map Some es"] eq_commute [of "map Some is"])

lemma node_describes_iff:
  "node_describes name n nd \<longleftrightarrow>
     Name nd = name \<and>
     getCloudProvider (ProviderID n) = Ok (Cloud nd) \<and>
     getInstance (ProviderID n) = Ok (Instance nd) \<and>
     map_of (Labels n) regionLabel = Some (Region nd) \<and>
     map_of (Labels n) zoneLabel = Some (Zone nd) \<and>
     getNodePool (Cloud nd) (Some n) = Ok (Pool nd) \<and>
     getAddresses (Addresses n) = Ok (ExternalIPs nd, InternalIPs nd)"
  using pool_text_iff [OF getCloudProvider_Ok, of "ProviderID n" "Cloud nd" n "Pool nd"]
  unfolding node_describes_def provider_text_iff address_texts_iff regionLabel_def zoneLabel_def by blast

lemma GetNode_Ok_iff:
  "GetNode (Some cl) rf name0 w = (Ok nd, w') \<longleftrightarrow>
     (\<exists>name w1 n. (if name0 = '''' then rf ''/etc/podinfo/nodeName'' w = (Ok name, w1)
         else name = name0 \<and> w1 = w) \<and>
        nodes_get cl name w1 = (Ok n, w') \<and> node_describes name n nd)"
proof -
  let ?read = "\<lambda>name w1. (if name0 = '''' then rf ''/etc/podinfo/nodeName'' w = (Ok name, w1)
      else name = name0 \<and> w1 = w)"
  have "GetNode (Some cl) rf name0 w = (Ok nd, w') \<longleftrightarrow>
      (\<exists>name w1. ?read name w1 \<and> (\<exists>n. nodes_get cl name w1 = (Ok n, w') \<and>
         (\<exists>c i r z p e k. getCloudProvider (ProviderID n) = Ok c \<and> getInstance (ProviderID n) = Ok i \<and>
            map_of (Labels n) regionLabel = Some r \<and> map_of (Labels n) zoneLabel = Some z \<and>
            getNodePool c (Some n) = Ok p \<and> getAddresses (Addresses n) = Ok (e, k) \<and>
            nd = \<lparr>Name = name, Instance = i, Cloud = c, Pool = p, Region = r, Zone = z,
                  ExternalIPs = e, InternalIPs = k\<rparr>)))"
  proof (cases "name0 = []")
    case True
    then show ?thesis by (simp add: GetNode_def getNodeName_def podInfoDir_def returned) (auto simp: returned)
  next
    case False
    then show ?thesis by (simp add: GetNode_def returned) (auto simp: returned)
  qed
  also have "\<dots> \<longleftrightarrow> (\<exists>name w1. ?read name w1 \<and>
      (\<exists>n. nodes_get cl name w1 = (Ok n, w') \<and> node_describes name n nd))"
    by (cases nd) (auto simp: node_describes_iff)
  finally show ?thesis by blast
qed

text \<open>The \<open>Explorer\<close> interface, as the agent relies on it: the node that comes back is the one that was
  asked for, and its cloud is one of the four the program knows.\<close>

locale explorer =
  fixes get_node :: "string \<Rightarrow> ('w, Node) prog"
  assumes node_name: "name \<noteq> [] \<Longrightarrow> get_node name w = (Ok nd, w') \<Longrightarrow> Name nd = name"
    and known_cloud: "get_node name w = (Ok nd, w') \<Longrightarrow>
      Cloud nd \<in> {CloudProviderAWS, CloudProviderAzure, CloudProviderGCP, CloudProviderOCI}"
begin

lemma known_cloud_cases:
  assumes "get_node name w = (Ok nd, w')"
  obtains "Cloud nd = CloudProviderAWS" | "Cloud nd = CloudProviderAzure"
    | "Cloud nd = CloudProviderGCP" | "Cloud nd = CloudProviderOCI"
  using known_cloud [OF assms] by blast

end

lemma GetNode_known_cloud:
  assumes "GetNode client rf name w = (Ok nd, w')"
  shows "Cloud nd \<in> {CloudProviderAWS, CloudProviderAzure, CloudProviderGCP, CloudProviderOCI}"
proof -
  from assms have "\<exists>n :: kube_node. getCloudProvider (ProviderID n) = Ok (Cloud nd)"
    by (cases client) (auto simp: GetNode_def returned)
  then show ?thesis by (auto dest: getCloudProvider_Ok)
qed

interpretation node_explorer: explorer "GetNode client rf" for client rf
proof unfold_locales
  fix name w nd w'
  assume *: "name \<noteq> []" "GetNode client rf name w = (Ok nd, w')"
  then obtain cl where "client = Some cl" by (cases client) (auto simp: GetNode_def)
  with * show "Name nd = name" by (auto simp: GetNode_Ok_iff node_describes_def)
next
  fix name w nd w'
  assume "GetNode client rf name w = (Ok nd, w')"
  then show "Cloud nd \<in> {CloudProviderAWS, CloudProviderAzure, CloudProviderGCP, CloudProviderOCI}"
    by (rule GetNode_known_cloud)
qed

text \<open>C14. Node discovery is exact: \<open>GetNode\<close> asks the API server for the node that is named, or without
  a name for the one in the file of the downward API, and succeeds precisely when the object that
  comes back has the provider ID of one of the four clouds, the region and zone labels, a pool where
  that cloud keeps it, and external and internal addresses that all parse; then every field of the
  description is the one these texts give. Nothing else is asked.\<close>

theorem GetNode_exact:
  "GetNode (Some cl) rf name0 w = (Ok nd, w') \<longleftrightarrow>
     (\<exists>name w1 n. (if name0 = '''' then rf ''/etc/podinfo/nodeName'' w = (Ok name, w1)
         else name = name0 \<and> w1 = w) \<and>
        nodes_get cl name w1 = (Ok n, w') \<and> node_describes name n nd)"
  by (rule GetNode_Ok_iff)

definition example_kube_node :: kube_node where
  "example_kube_node = \<lparr>
     Labels = [(regionLabel, ''us-east-1''), (zoneLabel, ''us-east-1a''), (awsPoolLabel, ''pool'')],
     Annotations = [], ProviderID = ''aws:///us-east-1a/i-1'',
     Addresses = [\<lparr>addr_Type = NodeInternalIP, addr_Address = ''10.0.0.1''\<rparr>,
                  \<lparr>addr_Type = ''Hostname'', addr_Address = ''ip-10-0-0-1''\<rparr>,
                  \<lparr>addr_Type = NodeExternalIP, addr_Address = ''3.4.5.6''\<rparr>],
     Taints = []\<rparr>"

definition example_node :: Node where
  "example_node = \<lparr>Name = ''node-1'', Instance = ''i-1'', Cloud = CloudProviderAWS, Pool = ''pool'',
     Region = ''us-east-1'', Zone = ''us-east-1a'', ExternalIPs = [v4_in_v6 [3, 4, 5, 6]],
     InternalIPs = [v4_in_v6 [10, 0, 0, 1]]\<rparr>"

lemma example_node_describes: "node_describes ''node-1'' example_kube_node example_node"
  unfolding node_describes_iff by code_simp

lemma example_node_found:
  "GetNode (Some \<lparr>nodes_get = (\<lambda>_. ret example_kube_node), nodes_patch = (\<lambda>_ _. ret ())\<rparr>)
     (\<lambda>_. throw (Sentinel ErrEmptyPath)) ''node-1'' () = (Ok example_node, ())"
  using example_node_describes by (simp add: GetNode_Ok_iff)

subsection \<open>Well-formed nodes\<close>

text \<open>What the types of the description do not say: the cloud is a supported one, the instance is a
  single path segment except on OCI, and every IP has 16 bytes.\<close>

definition well_formed_node :: "Node \<Rightarrow> bool" where
  "well_formed_node nd \<longleftrightarrow>
     Cloud nd \<in> {CloudProviderAWS, CloudProviderAzure, CloudProviderGCP, CloudProviderOCI} \<and>
     (Cloud nd \<noteq> CloudProviderOCI \<longrightarrow> CHR ''/'' \<notin> set (Instance nd)) \<and>
     (\<forall>ip \<in> set (ExternalIPs nd) \<union> set (InternalIPs nd). length ip = 16)"

lemma getAddresses_length:
  assumes "getAddresses as = Ok (es, is)" "ip \<in> set es \<union> set is"
  shows "length ip = 16"
proof -
  have "map Some es = map (\<lambda>a. ParseIP (addr_Address a)) (filter (\<lambda>a. addr_Type a = NodeExternalIP) as)"
    "map Some is = map (\<lambda>a. ParseIP (addr_Address a)) (filter (\<lambda>a. addr_Type a = NodeInternalIP) as)"
    using assms(1) by (simp_all add: getAddresses_def getAddresses_loop_iff)
  from this [THEN arg_cong [where f = set]] assms(2)
  have "Some ip \<in> (\<lambda>a. ParseIP (addr_Address a)) ` set as" by auto
  then show ?thesis by (auto dest: ParseIP_length [OF sym])
qed

lemma provider_instance_segment:
  assumes "getCloudProvider p = Ok c" "getInstance p = Ok i" "c \<noteq> CloudProviderOCI"
  shows "CHR ''/'' \<notin> set i"
proof -
  have "\<not> HasPrefix p ''oci''" "CHR ''/'' \<in> set p"
    using assms(1,3) by (auto simp: getCloudProvider_def HasPrefix_iff split: if_splits)
  with getInstance_of_slash assms(2) show ?thesis by fastforce
qed

lemma node_well_formed:
  assumes "GetNode client rf name w = (Ok nd, w')"
  shows "well_formed_node nd"
proof -
  from assms obtain n :: kube_node where n: "getCloudProvider (ProviderID n) = Ok (Cloud nd)"
    "getInstance (ProviderID n) = Ok (Instance nd)"
    "getAddresses (Addresses n) = Ok (ExternalIPs nd, InternalIPs nd)"
    by (cases client) (auto simp: GetNode_def returned)
  from provider_instance_segment [OF n(1,2)] getAddresses_length [OF n(3)] getCloudProvider_Ok [OF n(1)]
  show ?thesis by (auto simp: well_formed_node_def)
qed

text \<open>C28. Every node that discovery returns is well formed: whatever the API object says, \<open>GetNode\<close> either
  fails or returns a description with a supported cloud, an instance ID that on AWS, Azure and Google
  Cloud contains no slash, and addresses of 16 bytes each, the form in which equal texts mean equal
  addresses.\<close>

theorem GetNode_well_formed:
  assumes "GetNode client rf name w = (Ok nd, w')"
  shows "well_formed_node nd"
  using assms by (rule node_well_formed)

lemma GetNode_well_formed_witness: "well_formed_node example_node"
proof -
  have "GetNode (Some \<lparr>nodes_get = (\<lambda>_. ret example_kube_node), nodes_patch = (\<lambda>_ _. ret ())\<rparr>)
      (\<lambda>_. throw (Sentinel ErrEmptyPath)) ''node-1'' () = (Ok example_node, ())"
    using example_node_describes by (simp add: GetNode_Ok_iff)
  then show ?thesis by (rule GetNode_well_formed)
qed

end
