(* ===== verification/Assigner.thy ===== *)
theory Assigner
  imports Aws Gcp Oci Explorer
begin

text \<open>
  internal/address/assigner.go and azure.go: the interface of the four assigners, the placeholder for
  Azure, and the factory. A Go function with the results \<open>(string, error)\<close> may return both; here
  \<open>Ok (s, Some e)\<close> is the pair of both, \<open>Ok (s, None)\<close> a value, and \<open>Fail e\<close> the error with the empty
  string.
\<close>

record 'w assigner =
  Assign :: "'w go_context \<Rightarrow> string \<Rightarrow> string \<Rightarrow> string list \<Rightarrow> string \<Rightarrow>
    ('w, string \<times> go_error option) prog"
  Unassign :: "'w go_context \<Rightarrow> string \<Rightarrow> string \<Rightarrow> ('w, unit) prog"

definition value_only :: "('w, 'a) prog \<Rightarrow> ('w, 'a \<times> go_error option) prog" where
  "value_only m = check m id (\<lambda>x. ret (x, None))"

definition azureAssigner_Assign ::
  "'w go_context \<Rightarrow> string \<Rightarrow> string \<Rightarrow> string list \<Rightarrow> string \<Rightarrow> ('w, string \<times> go_error option) prog" where
  "azureAssigner_Assign ctx instanceID zone filt orderBy = ret ('''', None)"

definition azureAssigner_Unassign :: "'w go_context \<Rightarrow> string \<Rightarrow> string \<Rightarrow> ('w, unit) prog" where
  "azureAssigner_Unassign ctx instanceID zone = ret ()"

text \<open>The four implementations of the interface; the context of AWS and OCI calls is part of the world.\<close>

definition azure_assigner :: "'w assigner" where
  "azure_assigner = \<lparr>Assign = azureAssigner_Assign, Unassign = azureAssigner_Unassign\<rparr>"

definition aws_assigner :: "ec2_address slice_sorter \<Rightarrow> 'w awsAssigner \<Rightarrow> 'w assigner" where
  "aws_assigner big a = \<lparr>
     Assign = (\<lambda>_ iid zone filt ob. value_only (aws_Assign big a iid zone filt ob)),
     Unassign = (\<lambda>_ iid zone. aws_Unassign a iid zone)\<rparr>"

definition gcp_assigner :: "nat \<Rightarrow> 'w gcpAssigner \<Rightarrow> 'w assigner" where
  "gcp_assigner fuel a = \<lparr>
     Assign = (\<lambda>ctx iid zone filt ob. value_only (gcp_Assign fuel a ctx iid zone filt ob)),
     Unassign = gcp_Unassign fuel a\<rparr>"

definition oci_assigner :: "'w ociAssigner \<Rightarrow> 'w assigner" where
  "oci_assigner a = \<lparr>
     Assign = (\<lambda>_ iid _ _ _. oci_Assign a iid),
     Unassign = (\<lambda>_ iid _. oci_Unassign a iid)\<rparr>"

text \<open>What the constructors need from the outside: the SDKs, the clock, the iteration order of maps, the
  part of \<open>sort.Slice\<close> for long slices, and the fuel of the loops of the GCP assigner.\<close>

record 'w sdks =
  sdk_aws_load :: "string \<Rightarrow> ('w, 'w ec2_client) prog"
  sdk_map_order :: "'w \<Rightarrow> ec2_filters \<Rightarrow> ec2_filters"
  sdk_sort :: "ec2_address slice_sorter"
  sdk_gcp_NewService :: "('w, 'w compute_service) prog"
  sdk_gcp_metadata :: "'w metadata_server"
  sdk_oci_compute :: "('w, 'w compute_client) prog"
  sdk_oci_network :: "('w, 'w core_client) prog"
  sdk_clock :: "'w \<Rightarrow> int"
  sdk_fuel :: nat

definition NewAssigner :: "'w sdks \<Rightarrow> CloudProvider \<Rightarrow> Config \<Rightarrow> ('w, 'w assigner) prog" where
  "NewAssigner sdk provider cfg =
     (if provider = CloudProviderAWS then
        check (NewAwsAssigner (sdk_aws_load sdk) (sdk_map_order sdk) (cfg_Region cfg)) id
          (\<lambda>a. ret (aws_assigner (sdk_sort sdk) a))
      else if provider = CloudProviderAzure then ret azure_assigner
      else if provider = CloudProviderGCP then
        check (NewGCPAssigner (sdk_gcp_NewService sdk) (sdk_gcp_metadata sdk) (sdk_clock sdk)
                 (Project cfg) (cfg_Region cfg) (IPv6 cfg)) id
          (\<lambda>a. ret (gcp_assigner (sdk_fuel sdk) a))
      else if provider = CloudProviderOCI then
        check (NewOCIAssigner (sdk_oci_compute sdk) (sdk_oci_network sdk) cfg) id
          (\<lambda>(a, _). ret (oci_assigner a))
      else throw (Sentinel ErrUnknownCloudProvider))"

subsection \<open>The contract\<close>

text \<open>What the agent may rely on: an address that comes together with an error is the address the
  instance already has, and the error says so.\<close>

locale assigner_contract =
  fixes assign :: "'w go_context \<Rightarrow> string \<Rightarrow> string \<Rightarrow> string list \<Rightarrow> string \<Rightarrow>
    ('w, string \<times> go_error option) prog"
  assumes value_with_error: "assign ctx iid zone filt ob w = (Ok (ip, Some e), w') \<Longrightarrow>
    errors_is e ErrStaticIPAlreadyAssigned"
begin

lemma assign_cases:
  obtains (assigned) ip w' where "assign ctx iid zone filt ob w = (Ok (ip, None), w')"
    | (already) ip e w' where "assign ctx iid zone filt ob w = (Ok (ip, Some e), w')"
        "errors_is e ErrStaticIPAlreadyAssigned"
    | (error) e w' where "assign ctx iid zone filt ob w = (Fail e, w')"
    | (aborted) a w' where "assign ctx iid zone filt ob w = (Abort a, w')"
proof (cases "assign ctx iid zone filt ob w")
  case (Pair r w')
  show thesis
  proof (cases r)
    case (Ok x)
    then show thesis
      using Pair assigned already value_with_error
      by (cases x; cases "snd x") auto
  qed (use Pair error aborted in auto)
qed

end

lemma value_only_None: "value_only m w = (Ok (x, err), w') \<Longrightarrow> err = None"
  by (auto simp: value_only_def check_Ok_iff)

interpretation azure: assigner_contract azureAssigner_Assign
  by unfold_locales (simp add: azureAssigner_Assign_def)

interpretation aws: assigner_contract "Assign (aws_assigner big a)" for big a
  by unfold_locales (auto simp: aws_assigner_def dest: value_only_None)

interpretation gcp: assigner_contract "Assign (gcp_assigner fuel a)" for fuel a
  by unfold_locales (auto simp: gcp_assigner_def dest: value_only_None)

interpretation oci: assigner_contract "Assign (oci_assigner a)" for a
proof unfold_locales
  fix ctx iid zone filt ob w ip e w'
  assume "Assign (oci_assigner a) ctx iid zone filt ob w = (Ok (ip, Some e), w')"
  then show "errors_is e ErrStaticIPAlreadyAssigned"
    by (auto simp: oci_assigner_def oci_Assign_def check_Ok_iff split: if_splits)
qed

lemma NewAssigner_kind:
  assumes "NewAssigner sdk provider cfg w = (Ok a, w')"
  shows "a = azure_assigner \<or> (\<exists>big b. a = aws_assigner big b) \<or> (\<exists>n b. a = gcp_assigner n b) \<or>
    (\<exists>b. a = oci_assigner b)"
  using assms by (auto simp: NewAssigner_def check_Ok_iff split: if_splits)

text \<open>Whatever the factory makes keeps the contract of the interface: an address that an assigner
  returns together with an error is reported as already assigned, for all four clouds.\<close>

theorem new_assigner_keeps_contract:
  assumes "NewAssigner sdk provider cfg w0 = (Ok a, w1)"
    and "Assign a ctx iid zone filt ob w = (Ok (ip, Some e), w')"
  shows "errors_is e ErrStaticIPAlreadyAssigned"
  using NewAssigner_kind [OF assms(1)] assms(2)
    aws.value_with_error gcp.value_with_error oci.value_with_error azure.value_with_error
  by (auto simp: azure_assigner_def)

text \<open>The constructors wrap every error of the SDKs, so the bare sentinel can only come from the factory
  itself.\<close>

lemma wrap_not_sentinel [simp]: "wrap f as e \<noteq> Sentinel s" "Sentinel s \<noteq> wrap f as e"
  by (simp_all add: wrap_def)

lemma check_Fail_iff: "check m f k w = (Fail e, w') \<longleftrightarrow>
    (\<exists>e0. m w = (Fail e0, w') \<and> e = f e0) \<or> (\<exists>x w1. m w = (Ok x, w1) \<and> k x w1 = (Fail e, w'))"
  by (auto simp: check_def attempt_def split: prod.splits result.splits)

lemma constructors_wrap:
  "NewAwsAssigner ld ord r w \<noteq> (Fail (Sentinel s), w')"
  "NewGCPAssigner ns md now p r v w \<noteq> (Fail (Sentinel s), w')"
  "NewOCIAssigner nc nn cfg w \<noteq> (Fail (Sentinel s), w')"
  by (auto simp: NewAwsAssigner_def NewGCPAssigner_def NewOCIAssigner_def check_Fail_iff Let_def)

text \<open>The factory answers "unknown cloud provider" exactly for a provider outside the four it knows, and
  so never for a node that discovery has described.\<close>

theorem unknown_provider_iff:
  "((\<exists>w'. NewAssigner sdk provider cfg w = (Fail (Sentinel ErrUnknownCloudProvider), w')) \<longleftrightarrow>
      provider \<notin> {CloudProviderAWS, CloudProviderAzure, CloudProviderGCP, CloudProviderOCI}) \<and>
   (GetNode client rf name v = (Ok nd, v') \<longrightarrow>
      Cloud nd \<in> {CloudProviderAWS, CloudProviderAzure, CloudProviderGCP, CloudProviderOCI})"
  using node_explorer.known_cloud [of client rf name v nd v']
  by (auto simp: NewAssigner_def check_Fail_iff constructors_wrap split: if_splits)

definition ex_sdks :: "bool sdks" where
  "ex_sdks = \<lparr>
     sdk_aws_load = (\<lambda>_. ret ex_ec2), sdk_map_order = (\<lambda>_ fs. fs), sdk_sort = insertionSort_func,
     sdk_gcp_NewService = ret ex_compute,
     sdk_gcp_metadata = \<lparr>metadata_ProjectID = ret ''project-1'',
        metadata_InstanceAttributeValue = (\<lambda>_. ret ''us-central1-a'')\<rparr>,
     sdk_oci_compute = ret ex_oci_compute, sdk_oci_network = ret ex_oci, sdk_clock = (\<lambda>_. 0), sdk_fuel = 8\<rparr>"

lemma unknown_provider_iff_witness:
  "NewAssigner ex_sdks ''digitalocean'' ex_cfg True = (Fail (Sentinel ErrUnknownCloudProvider), True) \<and>
   Cloud example_node \<in> {CloudProviderAWS, CloudProviderAzure, CloudProviderGCP, CloudProviderOCI}"
proof -
  have g: "GetNode (Some \<lparr>nodes_get = (\<lambda>_. ret example_kube_node), nodes_patch = (\<lambda>_ _. ret ())\<rparr>)
      (\<lambda>_. throw (Sentinel ErrEmptyPath)) ''node-1'' () = (Ok example_node, ())"
    using example_node_describes by (simp add: GetNode_Ok_iff)
  have "\<exists>w'. NewAssigner ex_sdks ''digitalocean'' ex_cfg True = (Fail (Sentinel ErrUnknownCloudProvider), w')"
    by (rule unknown_provider_iff [THEN conjunct1, THEN iffD2]) (simp add: cloud_provider_defs)
  moreover have "snd (NewAssigner ex_sdks ''digitalocean'' ex_cfg True) = True"
    by (simp add: NewAssigner_def cloud_provider_defs)
  ultimately show ?thesis
    using unknown_provider_iff [of ex_sdks _ ex_cfg True, THEN conjunct2] g by fastforce
qed

lemma new_oci_assigner:
  assumes "parseOCIFilters (Some cfg) = Ok f"
  shows "NewAssigner ex_sdks CloudProviderOCI cfg w = (Ok (oci_assigner (oci_services ex_oci_compute ex_oci f (Project cfg))), w)"
  using assms
  by (simp add: NewAssigner_def NewOCIAssigner_def NewOCIInstanceService_def NewOCINetworkService_def
      ex_sdks_def check_def attempt_def oci_services_def)

abbreviation ex_assigner :: "bool assigner" where
  "ex_assigner \<equiv> oci_assigner (oci_services ex_oci_compute ex_oci (Some env_filter) (Project ex_cfg))"

lemma new_assigner_keeps_contract_witness:
  "\<exists>e. Assign ex_assigner background ''vm-1'' ''ad-1'' [] [] True = (Ok (''130.0.0.1'', Some e), True)
     \<and> errors_is e ErrStaticIPAlreadyAssigned"
proof -
  have p: "parseOCIFilters (Some ex_cfg) = Ok (Some env_filter)" by code_simp
  have "Assign ex_assigner background ''vm-1'' ''ad-1'' [] [] True =
      (Ok (''130.0.0.1'', Some (Sentinel ErrStaticIPAlreadyAssigned)), True)"
    by code_simp
  with new_assigner_keeps_contract [OF new_oci_assigner [OF p] this] show ?thesis by blast
qed

end
