(* ===== verification/Tainter.thy ===== *)
theory Tainter
  imports Explorer
begin

text \<open>
  internal/node/tainter.go: removing a taint key from the agent's node. JSON encoding of the taint
  list (\<open>json.Marshal\<close> on a Kubernetes type) and the API client are parameters. The contract of the
  merge patch is the hypothesis \<open>patch_sets_taints\<close>: what the API documents about a patch whose body
  replaces \<open>spec.taints\<close>.
\<close>

fun deleteTaints_loop :: "Taint list \<Rightarrow> string \<Rightarrow> Taint list \<Rightarrow> bool \<Rightarrow> Taint list \<times> bool" where
  "deleteTaints_loop [] taintKey newTaints didDelete = (newTaints, didDelete)"
| "deleteTaints_loop (t # rest) taintKey newTaints didDelete =
     (if taintKey = taint_Key t then deleteTaints_loop rest taintKey newTaints True
      else deleteTaints_loop rest taintKey (newTaints @ [t]) didDelete)"

definition deleteTaintsByKey :: "Taint list \<Rightarrow> string \<Rightarrow> Taint list \<times> bool" where
  "deleteTaintsByKey taints taintKey = deleteTaints_loop taints taintKey [] False"

definition taint_patch :: "string \<Rightarrow> string" where
  "taint_patch newTaintsMarshaled = ''{\"spec\":{\"taints\":'' @ newTaintsMarshaled @ ''}}''"

definition RemoveTaintKey ::
  "'w node_client \<Rightarrow> (Taint list \<Rightarrow> string result) \<Rightarrow> Node \<Rightarrow> string \<Rightarrow> ('w, bool) prog" where
  "RemoveTaintKey client marshal node taintKey =
     check (nodes_get client (Name node)) (wrap ''failed to get kubernetes node'' []) (\<lambda>n.
     case deleteTaintsByKey (Taints n) taintKey of (newTaints, didDelete) \<Rightarrow>
     if \<not> didDelete then ret False
     else
       check (lift (marshal newTaints)) (wrap ''failed to marshal new taints'' []) (\<lambda>newTaintsMarshaled.
       check (nodes_patch client (Name node) (taint_patch newTaintsMarshaled))
             (wrap ''failed to patch node taints'' []) (\<lambda>_.
       ret True)))"

lemma deleteTaints_loop_eq:
  "deleteTaints_loop ts k acc d =
     (acc @ filter (\<lambda>t. taint_Key t \<noteq> k) ts, d \<or> (\<exists>t \<in> set ts. taint_Key t = k))"
  by (induction ts k acc d rule: deleteTaints_loop.induct) auto

lemma deleteTaintsByKey_eq:
  "deleteTaintsByKey ts k =
     (filter (\<lambda>t. taint_Key t \<noteq> k) ts, \<exists>t \<in> set ts. taint_Key t = k)"
  by (simp add: deleteTaintsByKey_def deleteTaints_loop_eq)

text \<open>Deleting a taint key keeps exactly the taints with another key, in their order, and reports
  that something was deleted exactly when the list became shorter.\<close>

theorem deleteTaintsByKey_spec:
  "fst (deleteTaintsByKey ts k) = filter (\<lambda>t. taint_Key t \<noteq> k) ts
   \<and> (snd (deleteTaintsByKey ts k) \<longleftrightarrow> length (fst (deleteTaintsByKey ts k)) < length ts)"
  by (induction ts) (auto simp: deleteTaintsByKey_eq less_Suc_eq_le)

text \<open>The contract of the node API with respect to taints. \<open>taints_of w name\<close> is the taint list the
  server stores; a get reports it and changes nothing stored, a patch that succeeds replaces it by
  the list the body encodes, and a patch whose answer is an error may or may not have been applied.\<close>

definition patch_sets_taints ::
  "'w node_client \<Rightarrow> (Taint list \<Rightarrow> string result) \<Rightarrow> ('w \<Rightarrow> string \<Rightarrow> Taint list) \<Rightarrow> bool" where
  "patch_sets_taints client marshal taints_of \<longleftrightarrow>
     (\<forall>w name r w'. nodes_get client name w = (r, w') \<longrightarrow>
        taints_of w' = taints_of w \<and> (\<forall>n. r = Ok n \<longrightarrow> Taints n = taints_of w name)) \<and>
     (\<forall>w name ts s r w'. marshal ts = Ok s \<longrightarrow> nodes_patch client name (taint_patch s) w = (r, w') \<longrightarrow>
        taints_of w' = (taints_of w)(name := ts) \<or> (r \<noteq> Ok () \<and> taints_of w' = taints_of w))"

lemma patch_getD:
  "patch_sets_taints client marshal taints_of \<Longrightarrow> nodes_get client name w = (r, w') \<Longrightarrow>
     taints_of w' = taints_of w \<and> (\<forall>n. r = Ok n \<longrightarrow> Taints n = taints_of w name)"
  unfolding patch_sets_taints_def by blast

lemma patch_patchD:
  "patch_sets_taints client marshal taints_of \<Longrightarrow> marshal ts = Ok s \<Longrightarrow>
     nodes_patch client name (taint_patch s) w = (r, w') \<Longrightarrow>
     taints_of w' = (taints_of w)(name := ts) \<or> (r \<noteq> Ok () \<and> taints_of w' = taints_of w)"
  unfolding patch_sets_taints_def by blast

text \<open>What \<open>RemoveTaintKey\<close> promises about the stored taints: removal of the key on success, no change
  when there is nothing to remove, and on an error one of the two.\<close>

definition taint_removed ::
  "(string \<Rightarrow> Taint list) \<Rightarrow> (string \<Rightarrow> Taint list) \<Rightarrow> string \<Rightarrow> string \<Rightarrow> bool result \<Rightarrow> bool" where
  "taint_removed before after name k r \<longleftrightarrow>
     (let removed = before(name := filter (\<lambda>t. taint_Key t \<noteq> k) (before name)) in
      case r of
        Ok True \<Rightarrow> (\<exists>t \<in> set (before name). taint_Key t = k) \<and> after = removed
      | Ok False \<Rightarrow> (\<forall>t \<in> set (before name). taint_Key t \<noteq> k) \<and> after = before
      | _ \<Rightarrow> after = before \<or> after = removed)"

lemma RemoveTaintKey_refines:
  fixes node :: Node
  assumes "patch_sets_taints client marshal taints_of"
  shows "case RemoveTaintKey client marshal node k w of
     (r, w') \<Rightarrow> taint_removed (taints_of w) (taints_of w') (Name node) k r"
proof (cases "nodes_get client (Name node) w")
  case (Pair r w1)
  note g = patch_getD [OF assms Pair]
  show ?thesis
  proof (cases r)
    case (Ok n)
    let ?ts = "filter (\<lambda>t. taint_Key t \<noteq> k) (Taints n)"
    show ?thesis
    proof (cases "\<exists>t \<in> set (Taints n). taint_Key t = k")
      case True
      note del = this
      show ?thesis
      proof (cases "marshal ?ts")
        case (Ok s)
        obtain r2 w2 where p: "nodes_patch client (Name node) (taint_patch s) w1 = (r2, w2)"
          by (cases "nodes_patch client (Name node) (taint_patch s) w1")
        from patch_patchD [OF assms Ok p] show ?thesis
          using Pair \<open>r = Ok n\<close> Ok p g del
          by (cases r2) (auto simp: RemoveTaintKey_def deleteTaintsByKey_eq taint_removed_def check_lift Let_def)
      qed (use Pair Ok g del in \<open>auto simp: RemoveTaintKey_def deleteTaintsByKey_eq taint_removed_def check_lift Let_def\<close>)
    next
      case False
      with Pair Ok g show ?thesis
        by (auto simp: RemoveTaintKey_def deleteTaintsByKey_eq taint_removed_def Let_def)
    qed
  qed (use Pair g in \<open>auto simp: RemoveTaintKey_def taint_removed_def\<close>)
qed

text \<open>C13. Removing a taint key implements its specification against the node API: when it reports
  success the stored taints of this node are the old ones without that key, in order, and the key
  was there; when it reports that there was nothing to do the key was absent and nothing changed; on
  an error the stored taints are the old ones or the ones without the key. No other node is touched
  in any case.\<close>

theorem RemoveTaintKey_refines_removal:
  fixes node :: Node
  assumes "patch_sets_taints client marshal taints_of"
    and "RemoveTaintKey client marshal node k w = (r, w')"
  shows "taint_removed (taints_of w) (taints_of w') (Name node) k r"
  using RemoveTaintKey_refines [OF assms(1), where node = node and k = k and w = w] assms(2) by simp

text \<open>An instance of the contract: one JSON text stands for each taint list of the example, the world
  is the stored taint lists.\<close>

definition ex_taint :: "string \<Rightarrow> Taint" where
  "ex_taint k = \<lparr>taint_Key = k, taint_Value = [], taint_Effect = ''NoSchedule'', taint_TimeAdded = None\<rparr>"

definition ex_marshal :: "Taint list \<Rightarrow> string result" where
  "ex_marshal ts = (if ts = [ex_taint ''b''] then Ok ''[b]'' else Fail (new_error ''unsupported'' []))"

definition ex_taint_client :: "(string \<Rightarrow> Taint list) node_client" where
  "ex_taint_client = \<lparr>
     nodes_get = (\<lambda>name w. (Ok \<lparr>Labels = [], Annotations = [], ProviderID = [], Addresses = [],
        Taints = w name\<rparr>, w)),
     nodes_patch = (\<lambda>name body w. if body = taint_patch ''[b]''
        then (Ok (), w(name := [ex_taint ''b''])) else (Fail (new_error ''bad patch'' []), w))\<rparr>"

lemma ex_taint_client_contract: "patch_sets_taints ex_taint_client ex_marshal id"
  by (auto simp: patch_sets_taints_def ex_taint_client_def ex_marshal_def taint_patch_def
      split: if_splits)

theorem RemoveTaintKey_refines_removal_witness:
  "let w = (\<lambda>_. [ex_taint ''a'', ex_taint ''b'']);
       res = RemoveTaintKey ex_taint_client ex_marshal (example_node\<lparr>Name := ''n''\<rparr>) ''a'' w
   in fst res = Ok True \<and> taint_removed w (snd res) ''n'' ''a'' (fst res)
      \<and> snd res ''n'' = [ex_taint ''b'']"
proof -
  let ?w = "\<lambda>_. [ex_taint ''a'', ex_taint ''b'']"
  let ?nd = "example_node\<lparr>Name := ''n''\<rparr>"
  have run: "RemoveTaintKey ex_taint_client ex_marshal ?nd ''a'' ?w
      = (Ok True, ?w(''n'' := [ex_taint ''b'']))"
    by (simp add: RemoveTaintKey_def ex_taint_client_def ex_marshal_def deleteTaintsByKey_def
        check_lift ex_taint_def check_def attempt_def)
  have "taint_removed ?w (?w(''n'' := [ex_taint ''b''])) ''n'' ''a'' (Ok True)"
    using RemoveTaintKey_refines_removal [OF ex_taint_client_contract run] by simp
  with run show ?thesis by (simp add: Let_def)
qed

end
