(* ===== verification/Lease.thy ===== *)
theory Lease
  imports GoStrings Complex_Main
begin

text \<open>
  internal/lease/lock.go: the cluster-wide lock over a Kubernetes lease object. The Kubernetes client
  and the clock are parameters, and so is \<open>wait.ExponentialBackoff\<close>, to which \<open>Lock\<close> hands the
  closure translated as \<open>lock_attempt\<close>. Times are nanoseconds since the epoch; durations are 64-bit
  and their products wrap around as in Go.

  The lock object has one field that changes, \<open>cancelFunc\<close>; the renewal goroutines it has started
  are numbered, each with a flag that says whether its context is still alive.
\<close>

record Lease =
  lease_Name :: string
  lease_Namespace :: string
  HolderIdentity :: "string option"
  LeaseDurationSeconds :: "32 word option"
  AcquireTime :: "int option"
  RenewTime :: "int option"
  ResourceVersion :: nat

record 'w lease_client =
  leases_create :: "string \<Rightarrow> Lease \<Rightarrow> ('w, unit) prog"
  leases_get :: "string \<Rightarrow> string \<Rightarrow> ('w, Lease) prog"
  leases_update :: "string \<Rightarrow> Lease \<Rightarrow> ('w, unit) prog"
  leases_delete :: "string \<Rightarrow> string \<Rightarrow> ('w, unit) prog"

record kubeLeaseLock =
  leaseName :: string
  namespace :: string
  holderIdentity :: string
  leaseDuration :: go_int

record lock_obj =
  cancelFunc :: "nat option"
  renewers :: "bool list"

definition NewKubeLeaseLock :: "string \<Rightarrow> string \<Rightarrow> string \<Rightarrow> go_int \<Rightarrow> kubeLeaseLock \<times> lock_obj" where
  "NewKubeLeaseLock name ns holder leaseDurationSeconds =
     (\<lparr>leaseName = name, namespace = ns, holderIdentity = holder,
       leaseDuration = leaseDurationSeconds\<rparr>,
      \<lparr>cancelFunc = None, renewers = []\<rparr>)"

subsection \<open>Time\<close>

definition time_Second :: go_int where "time_Second = 1000000000"
definition time_Millisecond :: go_int where "time_Millisecond = 1000000"
definition time_Hour :: go_int where "time_Hour = 3600 * 1000000000"

text \<open>\<open>time.Since\<close>: a difference of instants as a duration, saturating at the ends of the range.\<close>

definition sat64 :: "int \<Rightarrow> go_int" where
  "sat64 d = word_of_int (max (- (2 ^ 63)) (min (2 ^ 63 - 1) d))"

definition time_since :: "int \<Rightarrow> int \<Rightarrow> go_int" where
  "time_since now t = sat64 (now - t)"

text \<open>\<open>time.Duration(k.leaseDuration)*time.Second\<close>, and the renewal period
  \<open>time.Duration(k.leaseDuration*500) * time.Millisecond\<close>.\<close>

definition lease_ttl :: "kubeLeaseLock \<Rightarrow> go_int" where
  "lease_ttl k = leaseDuration k * time_Second"

definition renew_period :: "kubeLeaseLock \<Rightarrow> go_int" where
  "renew_period k = (leaseDuration k * 500) * time_Millisecond"

definition lease_expired :: "kubeLeaseLock \<Rightarrow> int \<Rightarrow> Lease \<Rightarrow> bool" where
  "lease_expired k now l \<longleftrightarrow>
     (case RenewTime l of None \<Rightarrow> False | Some t \<Rightarrow> slt (lease_ttl k) (time_since now t))"

definition held_by_other :: "kubeLeaseLock \<Rightarrow> Lease \<Rightarrow> bool" where
  "held_by_other k l \<longleftrightarrow>
     (case HolderIdentity l of None \<Rightarrow> False | Some h \<Rightarrow> h \<noteq> holderIdentity k)"

subsection \<open>Lock\<close>

definition new_lease :: "kubeLeaseLock \<Rightarrow> int \<Rightarrow> Lease" where
  "new_lease k timestamp = \<lparr>
     lease_Name = leaseName k, lease_Namespace = namespace k,
     HolderIdentity = Some (holderIdentity k),
     LeaseDurationSeconds = Some (ucast (leaseDuration k)),
     AcquireTime = Some timestamp, RenewTime = Some timestamp, ResourceVersion = 0\<rparr>"

fun IsAlreadyExists :: "go_error \<Rightarrow> bool" where
  "IsAlreadyExists (ApiError r _) = (r = AlreadyExists)"
| "IsAlreadyExists (WrapError e _) = IsAlreadyExists e"
| "IsAlreadyExists _ = False"

text \<open>An API call made while the lock object is at hand leaves the object alone.\<close>

definition api :: "('w, 'a) prog \<Rightarrow> (lock_obj \<times> 'w, 'a) prog" where
  "api m = (\<lambda>(obj, w). case m w of (r, w') \<Rightarrow> (r, (obj, w')))"

text \<open>\<open>ctx, k.cancelFunc = context.WithCancel(ctx); go k.renewLeasePeriodically(ctx)\<close>\<close>

definition start_renewal :: "(lock_obj \<times> 'w, unit) prog" where
  "start_renewal = (\<lambda>(obj, w).
     (Ok (), (\<lparr>cancelFunc = Some (length (renewers obj)), renewers = renewers obj @ [True]\<rparr>, w)))"

definition lock_attempt ::
  "'w lease_client \<Rightarrow> ('w \<Rightarrow> int) \<Rightarrow> kubeLeaseLock \<Rightarrow> (lock_obj \<times> 'w, bool) prog" where
  "lock_attempt client now k =
     observe (\<lambda>(_, w). now w) (\<lambda>timestamp.
     attempt (api (leases_create client (namespace k) (new_lease k timestamp)))
       (\<lambda>err.
          if IsAlreadyExists err then
            check (api (leases_get client (namespace k) (leaseName k))) id (\<lambda>existingLease.
            observe (\<lambda>(_, w). now w) (\<lambda>now2.
            if lease_expired k now2 existingLease then
              check (api (leases_delete client (namespace k) (leaseName k))) id (\<lambda>_. ret False)
            else if held_by_other k existingLease then ret False
            else ret True))
          else throw err)
       (\<lambda>_. check start_renewal id (\<lambda>_. ret True)))"

record wait_Backoff =
  bo_Duration :: go_int
  bo_Factor :: rat
  bo_Jitter :: rat
  bo_Steps :: nat
  bo_Cap :: go_int

definition lock_backoff :: wait_Backoff where
  "lock_backoff = \<lparr>bo_Duration = time_Second, bo_Factor = 3/2, bo_Jitter = 1/2, bo_Steps = 100,
     bo_Cap = time_Hour\<rparr>"

definition kube_Lock ::
  "(wait_Backoff \<Rightarrow> (lock_obj \<times> 'w, bool) prog \<Rightarrow> (lock_obj \<times> 'w, unit) prog) \<Rightarrow>
   'w lease_client \<Rightarrow> ('w \<Rightarrow> int) \<Rightarrow> kubeLeaseLock \<Rightarrow> (lock_obj \<times> 'w, unit) prog" where
  "kube_Lock ExponentialBackoff client now k =
     ExponentialBackoff lock_backoff (lock_attempt client now k)"

subsection \<open>Renewal\<close>

text \<open>\<open>time.NewTicker\<close> panics for an interval that is not positive.\<close>

definition NewTicker :: "go_int \<Rightarrow> unit result" where
  "NewTicker d = (if sle d 0 then Abort Panic else Ok ())"

text \<open>One round of the renewal loop after a tick; the result says whether the goroutine goes on.\<close>

definition renew_round ::
  "'w lease_client \<Rightarrow> ('w \<Rightarrow> int) \<Rightarrow> kubeLeaseLock \<Rightarrow> ('w, bool) prog" where
  "renew_round client now k =
     attempt (leases_get client (namespace k) (leaseName k))
       (\<lambda>_. ret False)
       (\<lambda>lease.
          if HolderIdentity lease \<noteq> Some (holderIdentity k) then ret False
          else observe now (\<lambda>t.
            attempt (leases_update client (namespace k) (lease\<lparr>RenewTime := Some t\<rparr>))
              (\<lambda>_. ret True) (\<lambda>_. ret True)))"

text \<open>What the \<open>select\<close> of the loop waits for. An event comes with what happens in the world until it
  comes; the list ends where the run of the goroutine that is looked at ends.\<close>

datatype 'w renew_event = Tick "'w \<Rightarrow> 'w" | CtxDone "'w \<Rightarrow> 'w"

fun renew_loop ::
  "'w lease_client \<Rightarrow> ('w \<Rightarrow> int) \<Rightarrow> kubeLeaseLock \<Rightarrow> 'w renew_event list \<Rightarrow> ('w, unit) prog" where
  "renew_loop client now k [] w = (Ok (), w)"
| "renew_loop client now k (CtxDone waits # _) w = (Ok (), waits w)"
| "renew_loop client now k (Tick waits # es) w =
     check (renew_round client now k) id (\<lambda>goes_on.
     if goes_on then renew_loop client now k es else ret ()) (waits w)"

definition renewLeasePeriodically ::
  "'w lease_client \<Rightarrow> ('w \<Rightarrow> int) \<Rightarrow> kubeLeaseLock \<Rightarrow> 'w renew_event list \<Rightarrow> ('w, unit) prog" where
  "renewLeasePeriodically client now k es =
     check (lift (NewTicker (renew_period k))) id (\<lambda>_. renew_loop client now k es)"

subsection \<open>Unlock\<close>

definition cancel_renewal :: "(lock_obj \<times> 'w, unit) prog" where
  "cancel_renewal = (\<lambda>(obj, w).
     (Ok (), (case cancelFunc obj of
        None \<Rightarrow> obj
      | Some i \<Rightarrow> obj\<lparr>renewers := (renewers obj)[i := False]\<rparr>, w)))"

definition kube_Unlock ::
  "'w lease_client \<Rightarrow> kubeLeaseLock \<Rightarrow> (lock_obj \<times> 'w, unit) prog" where
  "kube_Unlock client k =
     check cancel_renewal id (\<lambda>_.
     check (api (leases_get client (namespace k) (leaseName k))) id (\<lambda>lease.
     if HolderIdentity lease \<noteq> Some (holderIdentity k) then ret ()
     else api (leases_delete client (namespace k) (leaseName k))))"

subsection \<open>Durations\<close>

lemma sint_of_int:
  assumes "- (2 ^ 63) \<le> i" "i < 2 ^ 63"
  shows "sint (word_of_int i :: go_int) = i"
  using assms by (simp add: sint_sbintrunc' signed_take_bit_int_eq_self)

lemma sint_mult:
  assumes "- (2 ^ 63) \<le> sint a * sint b" "sint a * sint b < 2 ^ 63"
  shows "sint (a * b :: go_int) = sint a * sint b"
proof -
  have "word_of_int (sint a * sint b) = word_of_int (sint a) * (word_of_int (sint b) :: go_int)"
    by (rule of_int_mult)
  then have "a * b = word_of_int (sint a * sint b)"
    by (simp only: of_int_sint scast_id)
  with sint_of_int [OF assms] show ?thesis by (simp only:)
qed

lemma sint_time_Second [simp]: "sint time_Second = 1000000000"
  by (simp add: time_Second_def)

lemma sint_time_Millisecond [simp]: "sint time_Millisecond = 1000000"
  by (simp add: time_Millisecond_def)

lemma lease_ttl_exact:
  assumes "0 \<le> sint (leaseDuration k)" "sint (leaseDuration k) \<le> 9223372036"
  shows "sint (lease_ttl k) = sint (leaseDuration k) * 1000000000"
  unfolding lease_ttl_def using assms by (subst sint_mult) simp_all

lemma renew_period_exact:
  assumes "0 \<le> sint (leaseDuration k)" "sint (leaseDuration k) \<le> 9223372036"
  shows "sint (renew_period k) = sint (leaseDuration k) * 500000000"
proof -
  have "sint (500 :: go_int) = 500" by simp
  then have *: "sint (leaseDuration k * 500) = sint (leaseDuration k) * 500"
    using assms by (subst sint_mult) simp_all
  show ?thesis
    unfolding renew_period_def using assms by (subst sint_mult) (simp_all add: *)
qed

lemma sint_sat64:
  "sint (sat64 d) = max (- (2 ^ 63)) (min (2 ^ 63 - 1) d)"
  unfolding sat64_def by (rule sint_of_int) auto

lemma lease_expired_iff:
  assumes "0 \<le> sint (leaseDuration k)" "sint (leaseDuration k) \<le> 9223372036"
  shows "lease_expired k t l \<longleftrightarrow>
    (\<exists>r. RenewTime l = Some r \<and> sint (leaseDuration k) * 1000000000 < t - r)"
  using assms
  by (auto simp: lease_expired_def slt_def lease_ttl_exact time_since_def sint_sat64
           split: option.splits)

lemma NewTicker_cases:
  "NewTicker d = (if 0 < sint d then Ok () else Abort Panic)"
  by (simp add: NewTicker_def sle_def not_le)

text \<open>C32. For every lease duration of 1 to 9223372036 seconds nothing wraps around: the renewal
  goroutine gets a valid ticker whose period is exactly half the lease's time to live, and a lease is
  taken for expired exactly when its last renewal lies more than that many seconds back.\<close>

theorem lease_timing:
  assumes "1 \<le> sint (leaseDuration k)" "sint (leaseDuration k) \<le> 9223372036"
  shows "NewTicker (renew_period k) = Ok () \<and> 2 * sint (renew_period k) = sint (lease_ttl k) \<and>
    sint (lease_ttl k) = sint (leaseDuration k) * 10 ^ 9 \<and>
    (lease_expired k t l \<longleftrightarrow>
       (\<exists>r. RenewTime l = Some r \<and> sint (leaseDuration k) * 10 ^ 9 < t - r))"
  using assms
  by (auto simp: NewTicker_cases renew_period_exact lease_ttl_exact lease_expired_iff)

definition example_lock :: kubeLeaseLock where
  "example_lock = \<lparr>leaseName = ''kubeip-lock'', namespace = ''kube-system'',
     holderIdentity = ''node-a'', leaseDuration = 5\<rparr>"

lemma lease_timing_witness:
  "NewTicker (renew_period example_lock) = Ok () \<and>
   2 * sint (renew_period example_lock) = sint (lease_ttl example_lock)"
  using lease_timing [of example_lock] by (simp add: example_lock_def)

text \<open>A lease duration of zero or less, which the flag \<open>lease-duration\<close> accepts, makes the renewal
  goroutine panic in \<open>time.NewTicker\<close> before it renews anything, whatever the cluster does.\<close>

theorem nonpositive_duration_panics:
  assumes "- 9223372036 \<le> sint (leaseDuration k)" "sint (leaseDuration k) \<le> 0"
  shows "renewLeasePeriodically client now k es w = (Abort Panic, w)"
proof -
  have "sint (500 :: go_int) = 500" by simp
  with assms have *: "sint (leaseDuration k * 500) = sint (leaseDuration k) * 500"
    by (subst sint_mult) simp_all
  have "sint (renew_period k) = sint (leaseDuration k) * 500000000"
    unfolding renew_period_def using assms by (subst sint_mult) (simp_all add: *)
  with assms(2) show ?thesis
    by (simp add: renewLeasePeriodically_def NewTicker_cases check_lift)
qed

lemma nonpositive_duration_panics_witness:
  "renewLeasePeriodically c now (example_lock\<lparr>leaseDuration := 0\<rparr>) [Tick id] w = (Abort Panic, w)"
  by (rule nonpositive_duration_panics) simp_all

subsection \<open>Acquiring the lock\<close>

definition started :: "lock_obj \<Rightarrow> lock_obj" where
  "started obj = \<lparr>cancelFunc = Some (length (renewers obj)), renewers = renewers obj @ [True]\<rparr>"

lemma start_renewal_app [simp]: "start_renewal (obj, w) = (Ok (), (started obj, w))"
  by (simp add: start_renewal_def started_def)

lemma api_app [simp]: "api m (obj, w) = (fst (m w), (obj, snd (m w)))"
  by (simp add: api_def split_beta)

text \<open>What an attempt that acquires the lock has seen: either it created the lease, or the API server
  said that there is one and it is neither expired nor somebody else's.\<close>

definition acquired ::
  "'w lease_client \<Rightarrow> ('w \<Rightarrow> int) \<Rightarrow> kubeLeaseLock \<Rightarrow> lock_obj \<times> 'w \<Rightarrow> lock_obj \<times> 'w \<Rightarrow> bool" where
  "acquired client now k s s' \<longleftrightarrow> (case (s, s') of ((obj, w), (obj', w')) \<Rightarrow>
     let (r, w1) = leases_create client (namespace k) (new_lease k (now w)) w in
     r = Ok () \<and> obj' = started obj \<and> w' = w1 \<or>
     (\<exists>e l. r = Fail e \<and> IsAlreadyExists e \<and>
        leases_get client (namespace k) (leaseName k) w1 = (Ok l, w') \<and>
        \<not> lease_expired k (now w') l \<and> \<not> held_by_other k l \<and> obj' = obj))"

lemma lock_attempt_True_iff:
  fixes client :: "'w lease_client"
  shows "lock_attempt client now k s = (Ok True, s') \<longleftrightarrow> acquired client now k s s'"
proof (cases s; cases s')
  fix obj w obj' w'
  assume s: "s = (obj, w)" "s' = (obj', w')"
  obtain r w1 where c: "leases_create client (namespace k) (new_lease k (now w)) w = (r, w1)"
    by (cases "leases_create client (namespace k) (new_lease k (now w)) w")
  obtain g w2 where g: "leases_get client (namespace k) (leaseName k) w1 = (g, w2)"
    by (cases "leases_get client (namespace k) (leaseName k) w1")
  have d: "check (api m) id (\<lambda>_. ret False) x \<noteq> (Ok True, y)" for m :: "('w, unit) prog" and x y
    by (simp add: check_Ok_iff)
  show ?thesis
  proof (cases r)
    case (Fail e)
    with c g d show ?thesis
      by (cases g) (auto simp: s lock_attempt_def acquired_def)
  qed (use c in \<open>auto simp: s lock_attempt_def acquired_def\<close>)
qed

text \<open>The documented behaviour of \<open>wait.ExponentialBackoff\<close>: it runs the condition at most
  \<open>Steps\<close> times, waits in between, returns at once when the condition is met or fails, and returns
  a timeout error when it gives up.\<close>

definition ErrWaitTimeout :: go_error where
  "ErrWaitTimeout = new_error ''timed out waiting for the condition'' []"

inductive backoff_run ::
  "('s \<Rightarrow> 's \<Rightarrow> bool) \<Rightarrow> ('s, bool) prog \<Rightarrow> nat \<Rightarrow> 's \<Rightarrow> unit result \<times> 's \<Rightarrow> bool"
  for waits cond where
  met: "cond s = (Ok True, s') \<Longrightarrow> backoff_run waits cond (Suc n) s (Ok (), s')"
| failed: "cond s = (Fail e, s') \<Longrightarrow> backoff_run waits cond (Suc n) s (Fail e, s')"
| aborted: "cond s = (Abort a, s') \<Longrightarrow> backoff_run waits cond (Suc n) s (Abort a, s')"
| again: "cond s = (Ok False, s1) \<Longrightarrow> waits s1 s2 \<Longrightarrow> backoff_run waits cond n s2 r \<Longrightarrow>
    backoff_run waits cond (Suc n) s r"
| timeout: "backoff_run waits cond n s (Fail ErrWaitTimeout, s)"

definition follows_backoff ::
  "('s \<Rightarrow> 's \<Rightarrow> bool) \<Rightarrow> (wait_Backoff \<Rightarrow> ('s, bool) prog \<Rightarrow> ('s, unit) prog) \<Rightarrow> bool" where
  "follows_backoff waits eb \<longleftrightarrow> (\<forall>b cond s. backoff_run waits cond (bo_Steps b) s (eb b cond s))"

lemma backoff_run_Ok:
  assumes "backoff_run waits cond n s r" "r = (Ok (), s')"
  shows "\<exists>s1. cond s1 = (Ok True, s')"
  using assms by induction auto

fun simple_backoff_loop :: "nat \<Rightarrow> ('s, bool) prog \<Rightarrow> ('s, unit) prog" where
  "simple_backoff_loop 0 cond = throw ErrWaitTimeout"
| "simple_backoff_loop (Suc n) cond =
     check cond id (\<lambda>b. if b then ret () else simple_backoff_loop n cond)"

definition simple_backoff :: "wait_Backoff \<Rightarrow> ('s, bool) prog \<Rightarrow> ('s, unit) prog" where
  "simple_backoff b cond = simple_backoff_loop (bo_Steps b) cond"

lemma simple_backoff_follows:
  "follows_backoff (=) (simple_backoff :: wait_Backoff \<Rightarrow> ('s, bool) prog \<Rightarrow> ('s, unit) prog)"
proof -
  have "backoff_run (=) cond n s (simple_backoff_loop n cond s)" for cond n and s :: 's
  proof (induction n arbitrary: s)
    case 0
    then show ?case by (simp add: timeout)
  next
    case (Suc n)
    obtain r s' where c: "cond s = (r, s')" by (cases "cond s")
    show ?case
    proof (cases r)
      case (Ok b)
      with c Suc show ?thesis
        by (cases b) (auto intro: met again simp del: simple_backoff_loop.simps(1))
    qed (use c in \<open>auto intro: failed aborted\<close>)
  qed
  then show ?thesis by (simp add: follows_backoff_def simple_backoff_def)
qed

subsection \<open>The API server\<close>

text \<open>What the lock relies on from the Kubernetes API, as documented: \<open>Create\<close> takes effect only when
  there is no such lease, and reports \<open>AlreadyExists\<close> only when it has had no effect; \<open>Get\<close> returns
  the stored lease; \<open>Update\<close> takes effect only on the version it was given; every write gets a new,
  larger version. A write whose answer is another error may have been carried out all the same.
  \<open>look\<close> reads the stored lease of the lock's name, \<open>version\<close> the server's version counter.\<close>

record 'w lease_api =
  api_client :: "'w lease_client"
  api_clock :: "'w \<Rightarrow> int"
  look :: "'w \<Rightarrow> Lease option"
  version :: "'w \<Rightarrow> nat"

definition same_store :: "'w lease_api \<Rightarrow> 'w \<Rightarrow> 'w \<Rightarrow> bool" where
  "same_store A w w' \<longleftrightarrow> look A w' = look A w \<and> version A w' = version A w"

definition writes :: "'w lease_api \<Rightarrow> 'w \<Rightarrow> 'w \<Rightarrow> Lease \<Rightarrow> bool" where
  "writes A w w' l \<longleftrightarrow> version A w < version A w' \<and>
     look A w' = Some (l\<lparr>ResourceVersion := version A w'\<rparr>)"

definition created :: "'w lease_api \<Rightarrow> 'w \<Rightarrow> 'w \<Rightarrow> Lease \<Rightarrow> bool" where
  "created A w w' l \<longleftrightarrow> look A w = None \<and> writes A w w' l"

definition create_law :: "'w lease_api \<Rightarrow> kubeLeaseLock \<Rightarrow> bool" where
  "create_law A k \<longleftrightarrow> (\<forall>l w r w'. leases_create (api_client A) (namespace k) l w = (r, w') \<longrightarrow>
     lease_Name l = leaseName k \<longrightarrow>
     (case r of
        Ok _ \<Rightarrow> created A w w' l
      | Fail e \<Rightarrow> same_store A w w' \<or> \<not> IsAlreadyExists e \<and> created A w w' l
      | Abort _ \<Rightarrow> same_store A w w'))"

definition get_law :: "'w lease_api \<Rightarrow> kubeLeaseLock \<Rightarrow> bool" where
  "get_law A k \<longleftrightarrow> (\<forall>w r w'. leases_get (api_client A) (namespace k) (leaseName k) w = (r, w') \<longrightarrow>
     same_store A w w' \<and> (case r of Ok l \<Rightarrow> look A w = Some l | _ \<Rightarrow> True))"

definition updated :: "'w lease_api \<Rightarrow> 'w \<Rightarrow> 'w \<Rightarrow> Lease \<Rightarrow> bool" where
  "updated A w w' l \<longleftrightarrow> writes A w w' l \<and>
     map_option ResourceVersion (look A w) = Some (ResourceVersion l)"

definition update_law :: "'w lease_api \<Rightarrow> kubeLeaseLock \<Rightarrow> bool" where
  "update_law A k \<longleftrightarrow> (\<forall>l w r w'. leases_update (api_client A) (namespace k) l w = (r, w') \<longrightarrow>
     lease_Name l = leaseName k \<longrightarrow>
     (case r of Ok _ \<Rightarrow> updated A w w' l | _ \<Rightarrow> same_store A w w' \<or> updated A w w' l))"

definition deleted :: "'w lease_api \<Rightarrow> 'w \<Rightarrow> 'w \<Rightarrow> bool" where
  "deleted A w w' \<longleftrightarrow> look A w' = None \<and> version A w \<le> version A w'"

definition delete_law :: "'w lease_api \<Rightarrow> kubeLeaseLock \<Rightarrow> bool" where
  "delete_law A k \<longleftrightarrow> (\<forall>w r w'. leases_delete (api_client A) (namespace k) (leaseName k) w = (r, w') \<longrightarrow>
     (case r of Ok _ \<Rightarrow> deleted A w w' | _ \<Rightarrow> same_store A w w' \<or> deleted A w w'))"

definition lease_laws :: "'w lease_api \<Rightarrow> kubeLeaseLock \<Rightarrow> bool" where
  "lease_laws A k \<longleftrightarrow> create_law A k \<and> get_law A k \<and> update_law A k \<and> delete_law A k"

text \<open>A server with one lease, for the concrete runs.\<close>

record lease_store =
  stored :: "Lease option"
  store_clock :: int
  store_version :: nat

definition store_write :: "Lease \<Rightarrow> lease_store \<Rightarrow> unit result \<times> lease_store" where
  "store_write l st = (Ok (), st\<lparr>stored := Some (l\<lparr>ResourceVersion := Suc (store_version st)\<rparr>),
     store_version := Suc (store_version st)\<rparr>)"

definition store_client :: "lease_store lease_client" where
  "store_client = \<lparr>
     leases_create = (\<lambda>ns l st. case stored st of
         None \<Rightarrow> store_write l st
       | Some _ \<Rightarrow> (Fail (ApiError AlreadyExists ''create''), st)),
     leases_get = (\<lambda>ns nm st. case stored st of
         None \<Rightarrow> (Fail (ApiError NotFound ''get''), st)
       | Some l \<Rightarrow> (Ok l, st)),
     leases_update = (\<lambda>ns l st. case stored st of
         None \<Rightarrow> (Fail (ApiError NotFound ''update''), st)
       | Some l0 \<Rightarrow> if ResourceVersion l0 = ResourceVersion l then store_write l st
                   else (Fail (ApiError OtherReason ''conflict''), st)),
     leases_delete = (\<lambda>ns nm st. case stored st of
         None \<Rightarrow> (Fail (ApiError NotFound ''delete''), st)
       | Some _ \<Rightarrow> (Ok (), st\<lparr>stored := None\<rparr>))\<rparr>"

definition store_api :: "lease_store lease_api" where
  "store_api = \<lparr>api_client = store_client, api_clock = store_clock, look = stored, version = store_version\<rparr>"

lemma store_laws: "lease_laws store_api k"
  by (auto simp: lease_laws_def create_law_def get_law_def update_law_def delete_law_def store_api_def
      store_client_def store_write_def same_store_def writes_def created_def updated_def deleted_def
      split: option.splits if_splits)

definition fresh_store :: lease_store where
  "fresh_store = \<lparr>stored = None, store_clock = 0, store_version = 0\<rparr>"

definition idle_lock :: lock_obj where
  "idle_lock = snd (NewKubeLeaseLock [] [] [] 0)"

lemma store_lock_run:
  "lock_attempt store_client store_clock example_lock (idle_lock, fresh_store) =
     (Ok True, (started idle_lock, snd (store_write (new_lease example_lock 0) fresh_store)))"
  by (simp add: lock_attempt_True_iff acquired_def store_client_def store_write_def fresh_store_def)

lemma simple_backoff_first:
  assumes "cond s = (Ok True, s')"
  shows "simple_backoff lock_backoff cond s = (Ok (), s')"
proof -
  have "bo_Steps lock_backoff = Suc 99" by (simp add: lock_backoff_def)
  then have "simple_backoff lock_backoff cond s = simple_backoff_loop (Suc 99) cond s"
    by (simp only: simple_backoff_def)
  with assms show ?thesis by (simp only: simple_backoff_loop.simps check_Ok if_True ret_app)
qed

text \<open>An API that answers: a lease that is there can be read and deleted.\<close>

definition api_up :: "'w lease_api \<Rightarrow> kubeLeaseLock \<Rightarrow> bool" where
  "api_up A k \<longleftrightarrow> (\<forall>w. look A w \<noteq> None \<longrightarrow>
     ((\<exists>l. fst (leases_get (api_client A) (namespace k) (leaseName k) w) = Ok l) \<and>
     fst (leases_delete (api_client A) (namespace k) (leaseName k) w) = Ok ()))"

lemma store_up: "api_up store_api k"
  by (auto simp: api_up_def store_api_def store_client_def)

lemma create_writes:
  assumes "lease_laws A k" "lease_Name l = leaseName k"
    and "leases_create (api_client A) (namespace k) l w = (Ok (), w')"
  shows "writes A w w' l"
  using assms by (force simp: lease_laws_def create_law_def created_def)

lemma get_same:
  assumes "lease_laws A k" "leases_get (api_client A) (namespace k) (leaseName k) w = (r, w')"
  shows "look A w' = look A w" "version A w' = version A w" "r = Ok l \<Longrightarrow> look A w = Some l"
  using assms by (force simp: lease_laws_def get_law_def same_store_def)+

lemma create_outcome:
  assumes "lease_laws A k" "lease_Name l = leaseName k" "look A w = None"
    and "leases_create (api_client A) (namespace k) l w = (Fail e, w1)" "IsAlreadyExists e"
  shows "leases_get (api_client A) (namespace k) (leaseName k) w1 \<noteq> (Ok x, w')"
proof
  assume g: "leases_get (api_client A) (namespace k) (leaseName k) w1 = (Ok x, w')"
  have "same_store A w w1"
    using assms(1,2,4,5) by (force simp: lease_laws_def create_law_def)
  with get_same(3) [OF assms(1) g refl] assms(3) show False
    by (simp add: same_store_def)
qed

lemma get_up:
  assumes "lease_laws A k" "api_up A k" "look A w = Some l"
  shows "\<exists>w'. leases_get (api_client A) (namespace k) (leaseName k) w = (Ok l, w') \<and> look A w' = look A w"
proof -
  obtain r w' where g: "leases_get (api_client A) (namespace k) (leaseName k) w = (r, w')"
    by (cases "leases_get (api_client A) (namespace k) (leaseName k) w")
  moreover obtain l' where "r = Ok l'" using assms(2,3) g by (fastforce simp: api_up_def)
  ultimately show ?thesis using get_same [OF assms(1) g] assms(3) by auto
qed

lemma delete_up:
  assumes "lease_laws A k" "api_up A k" "look A w \<noteq> None"
  shows "\<exists>w'. leases_delete (api_client A) (namespace k) (leaseName k) w = (Ok (), w') \<and> look A w' = None"
proof -
  obtain r w' where d: "leases_delete (api_client A) (namespace k) (leaseName k) w = (r, w')"
    by (cases "leases_delete (api_client A) (namespace k) (leaseName k) w")
  moreover have "r = Ok ()" using assms(2,3) d by (fastforce simp: api_up_def)
  ultimately show ?thesis using assms(1) by (force simp: lease_laws_def delete_law_def deleted_def)
qed

text \<open>C16. \<open>Lock\<close> returns without an error only if its last attempt acquired the lock: that attempt
  created the lease (and then started exactly one renewal goroutine, whose cancel function it keeps),
  or it found an unexpired lease that is its own or nobody's (and then started none).\<close>

theorem Lock_acquires:
  assumes "follows_backoff waits ExponentialBackoff"
    and "kube_Lock ExponentialBackoff client now k s = (Ok (), s')"
  shows "\<exists>s1. acquired client now k s1 s'"
proof -
  have "backoff_run waits (lock_attempt client now k) (bo_Steps lock_backoff) s (Ok (), s')"
    using assms unfolding follows_backoff_def kube_Lock_def by metis
  from backoff_run_Ok [OF this refl] show ?thesis
    by (simp only: lock_attempt_True_iff)
qed

lemma Lock_acquires_witness:
  "\<exists>s1. acquired store_client store_clock example_lock s1
     (started idle_lock, snd (store_write (new_lease example_lock 0) fresh_store))"
  by (rule Lock_acquires [OF simple_backoff_follows, where s = "(idle_lock, fresh_store)"])
    (simp add: kube_Lock_def simple_backoff_first
        [of "lock_attempt store_client store_clock example_lock", OF store_lock_run])

text \<open>C21. A lock that was acquired by creating the lease is released by \<open>Unlock\<close>: if nothing else
  touches the lease in between and the API answers, the lease is gone, the only renewal goroutine of
  a fresh lock object is cancelled, and \<open>Unlock\<close> reports no error.\<close>

theorem Lock_Unlock_roundtrip:
  assumes laws: "lease_laws A k" and up: "api_up A k"
    and lock: "lock_attempt (api_client A) (api_clock A) k (idle_lock, w) = (Ok True, (obj, w1))"
    and free: "look A w = None"
  shows "\<exists>obj' w2. kube_Unlock (api_client A) k (obj, w1) = (Ok (), (obj', w2)) \<and>
    look A w2 = None \<and> renewers obj' = [False]"
proof -
  let ?l = "new_lease k (api_clock A w)"
  let ?create = "leases_create (api_client A) (namespace k) ?l w"
  have nm: "lease_Name ?l = leaseName k" by (simp add: new_lease_def)
  from lock have acq: "acquired (api_client A) (api_clock A) k (idle_lock, w) (obj, w1)"
    by (simp only: lock_attempt_True_iff)
  have c: "?create = (Ok (), w1)" and obj: "obj = started idle_lock"
    using create_outcome [OF laws nm free] acq
    by (auto simp: acquired_def split: prod.splits)
  have held: "look A w1 = Some (?l\<lparr>ResourceVersion := version A w1\<rparr>)"
    using create_writes [OF laws nm c] by (simp add: writes_def)
  obtain w2 where g: "leases_get (api_client A) (namespace k) (leaseName k) w1 =
      (Ok (?l\<lparr>ResourceVersion := version A w1\<rparr>), w2)" and h2: "look A w2 = look A w1"
    using get_up [OF laws up held] by blast
  obtain w3 where "leases_delete (api_client A) (namespace k) (leaseName k) w2 = (Ok (), w3)"
    and "look A w3 = None"
    using delete_up [OF laws up] held h2 by force
  with g show ?thesis
    by (simp add: kube_Unlock_def cancel_renewal_def check_def attempt_def obj started_def idle_lock_def
        NewKubeLeaseLock_def new_lease_def)
qed

lemma Lock_Unlock_roundtrip_witness:
  "\<exists>obj' w2. kube_Unlock store_client example_lock
      (started idle_lock, snd (store_write (new_lease example_lock 0) fresh_store)) = (Ok (), (obj', w2)) \<and>
    stored w2 = None \<and> renewers obj' = [False]"
proof -
  have "lock_attempt store_client store_clock example_lock (idle_lock, fresh_store) =
      (Ok True, (started idle_lock, snd (store_write (new_lease example_lock 0) fresh_store)))"
    by (rule store_lock_run)
  then show ?thesis
    using Lock_Unlock_roundtrip [OF store_laws store_up, of example_lock fresh_store]
    by (simp add: store_api_def fresh_store_def)
qed

end
