(* ===== verification/Lts.thy ===== *)
theory Lts
  imports Main
begin

text \<open>
  Transition systems: reachable states, and the rule that an invariant of the initial states and of
  every step holds in all of them. The lease protocol interprets the locale.
\<close>

inductive reach :: "('s \<Rightarrow> bool) \<Rightarrow> ('s \<Rightarrow> 's \<Rightarrow> bool) \<Rightarrow> 's \<Rightarrow> bool" for init step where
  reach_init: "init s \<Longrightarrow> reach init step s"
| reach_step: "reach init step s \<Longrightarrow> step s t \<Longrightarrow> reach init step t"

locale invariant =
  fixes init :: "'s \<Rightarrow> bool" and step :: "'s \<Rightarrow> 's \<Rightarrow> bool" and inv :: "'s \<Rightarrow> bool"
  assumes inv_init: "init s \<Longrightarrow> inv s"
    and inv_step: "step s t \<Longrightarrow> inv s \<Longrightarrow> inv t"
begin

lemma reach_inv: "reach init step s \<Longrightarrow> inv s"
  by (induction rule: reach.induct) (auto intro: inv_init inv_step)

end

text \<open>Following a schedule: a partial function that makes one step of the system stays reachable.\<close>

fun follow :: "('e \<Rightarrow> 's \<Rightarrow> 's option) \<Rightarrow> 'e list \<Rightarrow> 's \<Rightarrow> 's option" where
  "follow f [] s = Some s"
| "follow f (e # es) s = (case f e s of None \<Rightarrow> None | Some t \<Rightarrow> follow f es t)"

lemma follow_append: "follow f (as @ bs) s = Option.bind (follow f as s) (follow f bs)"
  by (induction as arbitrary: s) (auto split: option.split)

lemma follow_reach:
  assumes "\<And>e s t. f e s = Some t \<Longrightarrow> step s t" and "reach init step s" and "follow f es s = Some t"
  shows "reach init step t"
  using assms(2,3)
proof (induction es arbitrary: s)
  case Nil
  then show ?case by simp
next
  case (Cons e es)
  then obtain u where "f e s = Some u" "follow f es u = Some t"
    by (auto split: option.splits)
  with Cons assms(1) show ?case by (blast intro: reach_step)
qed

end
