(* ===== verification/LeaseProtocol.thy ===== *)
theory LeaseProtocol
  imports Lease Lts
begin

text \<open>
  The agents of the cluster together: every node's agent takes the same lease before it assigns an
  address and gives it back afterwards (internal/lease/lock.go, \<open>assignAddress\<close> of cmd/main.go). The
  code of \<open>Lock\<close>, \<open>Unlock\<close> and the renewal goroutine is cut at its API calls, one step each, so that
  the steps of different agents interleave; \<open>protocol_steps_are_the_code\<close> shows that the uninterrupted
  sequences of an agent's steps are the functions of theory Lease.

  The theorems: no two agents are inside the critical section as long as no agent finds the lease
  expired; and a lease that is released between two calls of a waiting agent makes that agent fail.
  What happens once a lease has expired is in theory LeaseTiming.

  Three simplifications. An API call is one step: the agent gets the answer of a call, the \<open>Delete\<close>
  of \<open>Unlock\<close> too, or crashes before making it, but no \<open>Delete\<close> is carried out later than the step
  that makes it; only renewals can be delayed. All agents read the same clock. And an instant is
  stored as it is, where \<open>MicroTime\<close> keeps the microseconds.
\<close>

subsection \<open>The API calls of Lock and Unlock\<close>

text \<open>Where an agent is: outside; before its \<open>Create\<close>, \<open>Get\<close> or \<open>Delete\<close> in the closure of \<open>Lock\<close>;
  between two attempts; inside the critical section; before the \<open>Get\<close> or the \<open>Delete\<close> of \<open>Unlock\<close>;
  or finished with an error.\<close>

datatype lock_pc = Outside | Creating | Reading | Deleting | BackingOff | Inside | UnReading
  | UnDeleting | Failed

definition create_call :: "'w lease_api \<Rightarrow> kubeLeaseLock \<Rightarrow> ('w, lock_pc) prog" where
  "create_call A k =
     observe (api_clock A) (\<lambda>timestamp.
     attempt (leases_create (api_client A) (namespace k) (new_lease k timestamp))
       (\<lambda>err. if IsAlreadyExists err then ret Reading else throw err) (\<lambda>_. ret Inside))"

definition read_call :: "'w lease_api \<Rightarrow> kubeLeaseLock \<Rightarrow> ('w, lock_pc) prog" where
  "read_call A k =
     check (leases_get (api_client A) (namespace k) (leaseName k)) id (\<lambda>existingLease.
     observe (api_clock A) (\<lambda>now.
     if lease_expired k now existingLease then ret Deleting
     else if held_by_other k existingLease then ret BackingOff
     else ret Inside))"

definition delete_call :: "'w lease_api \<Rightarrow> kubeLeaseLock \<Rightarrow> ('w, lock_pc) prog" where
  "delete_call A k =
     check (leases_delete (api_client A) (namespace k) (leaseName k)) id (\<lambda>_. ret BackingOff)"

definition unlock_read_call :: "'w lease_api \<Rightarrow> kubeLeaseLock \<Rightarrow> ('w, lock_pc) prog" where
  "unlock_read_call A k =
     check (leases_get (api_client A) (namespace k) (leaseName k)) id (\<lambda>lease.
     if HolderIdentity lease \<noteq> Some (holderIdentity k) then ret Outside else ret UnDeleting)"

definition unlock_delete_call :: "'w lease_api \<Rightarrow> kubeLeaseLock \<Rightarrow> ('w, lock_pc) prog" where
  "unlock_delete_call A k =
     check (leases_delete (api_client A) (namespace k) (leaseName k)) id (\<lambda>_. ret Outside)"

fun api_call :: "'w lease_api \<Rightarrow> kubeLeaseLock \<Rightarrow> lock_pc \<Rightarrow> ('w, lock_pc) prog option" where
  "api_call A k Creating = Some (create_call A k)"
| "api_call A k Reading = Some (read_call A k)"
| "api_call A k Deleting = Some (delete_call A k)"
| "api_call A k UnReading = Some (unlock_read_call A k)"
| "api_call A k UnDeleting = Some (unlock_delete_call A k)"
| "api_call A k _ = None"

text \<open>An agent alone: its calls one after the other, at most \<open>n\<close> of them.\<close>

fun run_calls :: "'w lease_api \<Rightarrow> kubeLeaseLock \<Rightarrow> nat \<Rightarrow> lock_pc \<Rightarrow> ('w, lock_pc) prog" where
  "run_calls A k 0 pc = ret pc"
| "run_calls A k (Suc n) pc = (case api_call A k pc of
     None \<Rightarrow> ret pc
   | Some m \<Rightarrow> check m id (run_calls A k n))"

text \<open>What the closure of \<open>Lock\<close> returns when its calls end at a given point.\<close>

definition attempt_result :: "lock_pc \<Rightarrow> bool" where
  "attempt_result pc = (pc = Inside)"

definition map_res :: "('a \<Rightarrow> 'b) \<Rightarrow> 'a result \<times> 'w \<Rightarrow> 'b result \<times> 'w" where
  "map_res f = (\<lambda>(r, w). (case r of Ok x \<Rightarrow> Ok (f x) | Fail e \<Rightarrow> Fail e | Abort a \<Rightarrow> Abort a, w))"

lemma map_res_simps [simp]:
  "map_res f (Ok x, w) = (Ok (f x), w)" "map_res f (Fail e, w) = (Fail e, w)"
  "map_res f (Abort a, w) = (Abort a, w)"
  by (simp_all add: map_res_def)

lemmas call_defs = create_call_def read_call_def delete_call_def

lemma run_calls_Creating:
  "run_calls A k 3 Creating w = check (create_call A k) id (run_calls A k 2) w"
  by (simp add: numeral_3_eq_3 numeral_2_eq_2)

lemma run_calls_Reading:
  "run_calls A k 2 Reading w = check (read_call A k) id (run_calls A k 1) w"
  by (simp add: numeral_2_eq_2)

lemma run_calls_Deleting:
  "run_calls A k 1 Deleting w = check (delete_call A k) id ret w"
  by (simp add: check_def attempt_def fun_eq_iff split: prod.split result.split)

lemma run_calls_stop:
  "run_calls A k n Inside w = (Ok Inside, w)" "run_calls A k n BackingOff w = (Ok BackingOff, w)"
  by (cases n; simp)+

lemma lock_calls_are_lock_attempt:
  "(case lock_attempt (api_client A) (api_clock A) k (obj, w) of (r, (_, w')) \<Rightarrow> (r, w')) =
     map_res attempt_result (run_calls A k 3 Creating w)"
proof -
  obtain r w1 where c: "leases_create (api_client A) (namespace k) (new_lease k (api_clock A w)) w = (r, w1)"
    by (cases "leases_create (api_client A) (namespace k) (new_lease k (api_clock A w)) w")
  obtain g w2 where g: "leases_get (api_client A) (namespace k) (leaseName k) w1 = (g, w2)"
    by (cases "leases_get (api_client A) (namespace k) (leaseName k) w1")
  obtain d w3 where d: "leases_delete (api_client A) (namespace k) (leaseName k) w2 = (d, w3)"
    by (cases "leases_delete (api_client A) (namespace k) (leaseName k) w2")
  note calls = run_calls_Creating run_calls_Reading run_calls_Deleting run_calls_stop
  show ?thesis
  proof (cases r)
    case (Fail e)
    show ?thesis
    proof (cases "IsAlreadyExists e")
      case True
      then have 1: "create_call A k w = (Ok Reading, w1)"
        using c Fail by (simp add: create_call_def)
      show ?thesis
        using True c g d Fail
        by (cases g; cases d)
          (auto simp: lock_attempt_def calls 1 read_call_def delete_call_def attempt_result_def)
    qed (use c Fail in \<open>simp add: lock_attempt_def calls create_call_def\<close>)
  qed (use c in \<open>simp_all add: lock_attempt_def calls create_call_def attempt_result_def\<close>)
qed

lemma unlock_calls_are_Unlock:
  "(case kube_Unlock (api_client A) k (obj, w) of (r, (_, w')) \<Rightarrow> (r, w')) =
     map_res (\<lambda>_. ()) (run_calls A k 2 UnReading w)"
proof -
  obtain g w1 where g: "leases_get (api_client A) (namespace k) (leaseName k) w = (g, w1)"
    by (cases "leases_get (api_client A) (namespace k) (leaseName k) w")
  obtain d w2 where d: "leases_delete (api_client A) (namespace k) (leaseName k) w1 = (d, w2)"
    by (cases "leases_delete (api_client A) (namespace k) (leaseName k) w1")
  have 1: "run_calls A k 2 UnReading w = check (unlock_read_call A k) id (run_calls A k 1) w"
    by (simp add: numeral_2_eq_2)
  have 2: "run_calls A k 1 UnDeleting w1 = check (unlock_delete_call A k) id ret w1"
    by (simp add: check_def attempt_def split: prod.split result.split)
  show ?thesis
    using g d
    by (cases g; cases d)
      (auto simp: kube_Unlock_def cancel_renewal_def check_def [of "\<lambda>_. _"] attempt_def 1 2
         unlock_read_call_def unlock_delete_call_def)
qed

subsection \<open>The system\<close>

text \<open>Agent \<open>i\<close> has the lock object \<open>ks i\<close>; \<open>inflight i\<close> are the leases its renewal goroutines have
  read, found their own, stamped with the time and are about to write back. A goroutine may be slow, and neither cancelling
  it nor the end of its process recalls a request under way, so a renewal may be written at any later
  time.\<close>

record 'w cluster =
  the_world :: 'w
  pcs :: "nat \<Rightarrow> lock_pc"
  inflight :: "nat \<Rightarrow> Lease list"

text \<open>\<open>Call\<close> is the agent's next API call; \<open>Lock_begin\<close> a call of \<open>Lock\<close>, after an error the next round
  of \<open>assignAddress\<close>, or the next attempt after a wait; \<open>Unlock_begin\<close> a call of \<open>Unlock\<close>; \<open>Crash\<close> the end of the agent's process, which a new one
  replaces; \<open>Pass\<close> lets time go by.\<close>

datatype action = Lock_begin nat | Call nat | Unlock_begin nat | Crash nat | Renew_read nat
  | Renew_write nat nat | Pass nat

definition call_step :: "'w lease_api \<Rightarrow> kubeLeaseLock \<Rightarrow> lock_pc \<Rightarrow> 'w \<Rightarrow> (lock_pc \<times> 'w) option" where
  "call_step A k pc w = map_option (\<lambda>m. case m w of
       (Ok pc', w') \<Rightarrow> (pc', w')
     | (_, w') \<Rightarrow> (Failed, w')) (api_call A k pc)"

definition renew_read ::
  "'w lease_api \<Rightarrow> kubeLeaseLock \<Rightarrow> 'w \<Rightarrow> Lease list \<times> 'w" where
  "renew_read A k w = (case leases_get (api_client A) (namespace k) (leaseName k) w of
       (Ok l, w') \<Rightarrow> (if HolderIdentity l \<noteq> Some (holderIdentity k) then []
                      else [l\<lparr>RenewTime := Some (api_clock A w')\<rparr>], w')
     | (_, w') \<Rightarrow> ([], w'))"

definition renew_write :: "'w lease_api \<Rightarrow> kubeLeaseLock \<Rightarrow> Lease \<Rightarrow> 'w \<Rightarrow> 'w" where
  "renew_write A k l w = snd (leases_update (api_client A) (namespace k) l w)"

text \<open>The two steps of a renewal without interruption are a round of the renewal loop.\<close>

lemma renew_steps_are_renew_round:
  "snd (renew_round (api_client A) (api_clock A) k w) =
     (case renew_read A k w of ([], w1) \<Rightarrow> w1 | (l # _, w1) \<Rightarrow> renew_write A k l w1)"
proof -
  obtain g w1 where g: "leases_get (api_client A) (namespace k) (leaseName k) w = (g, w1)"
    by (cases "leases_get (api_client A) (namespace k) (leaseName k) w")
  show ?thesis
  proof (cases g)
    case (Ok l)
    let ?u = "leases_update (api_client A) (namespace k) (l\<lparr>RenewTime := Some (api_clock A w1)\<rparr>) w1"
    obtain q w2 where u: "?u = (q, w2)" by (cases ?u)
    then have "attempt (leases_update (api_client A) (namespace k) (l\<lparr>RenewTime := Some (api_clock A w1)\<rparr>))
        (\<lambda>_. ret True) (\<lambda>_. ret True) w1 = (case q of Abort a \<Rightarrow> Abort a | _ \<Rightarrow> Ok True, w2)"
      by (cases q) simp_all
    with Ok g u show ?thesis by (simp add: renew_round_def renew_read_def renew_write_def)
  qed (use g in \<open>simp_all add: renew_round_def renew_read_def\<close>)
qed

text \<open>Cutting the code at its API calls loses nothing: run without interruption, an agent's steps
  from \<open>Create\<close> on are one attempt of \<open>Lock\<close>, with the same effect on the cluster, the same errors,
  and success exactly when they end inside the critical section; its steps from the \<open>Get\<close> of \<open>Unlock\<close>
  on are \<open>Unlock\<close>; and the reading and the writing of a renewal are a round of the renewal loop.\<close>

theorem protocol_steps_are_the_code:
  "(case lock_attempt (api_client A) (api_clock A) k (obj, w) of (r, (_, w')) \<Rightarrow> (r, w')) =
     map_res attempt_result (run_calls A k 3 Creating w) \<and>
   (case kube_Unlock (api_client A) k (obj, w) of (r, (_, w')) \<Rightarrow> (r, w')) =
     map_res (\<lambda>_. ()) (run_calls A k 2 UnReading w) \<and>
   snd (renew_round (api_client A) (api_clock A) k w) =
     (case renew_read A k w of ([], w1) \<Rightarrow> w1 | (l # _, w1) \<Rightarrow> renew_write A k l w1)"
  by (intro conjI lock_calls_are_lock_attempt unlock_calls_are_Unlock renew_steps_are_renew_round)

definition guard :: "bool \<Rightarrow> 'a option \<Rightarrow> 'a option" where
  "guard b x = (if b then x else None)"

fun act :: "'w lease_api \<Rightarrow> (nat \<Rightarrow> 'w \<Rightarrow> 'w) \<Rightarrow> (nat \<Rightarrow> kubeLeaseLock) \<Rightarrow> action \<Rightarrow>
    'w cluster \<Rightarrow> 'w cluster option" where
  "act A pass ks (Lock_begin i) s =
     guard (pcs s i \<in> {Outside, BackingOff, Failed}) (Some (s\<lparr>pcs := (pcs s)(i := Creating)\<rparr>))"
| "act A pass ks (Call i) s =
     map_option (\<lambda>(pc, w). s\<lparr>pcs := (pcs s)(i := pc), the_world := w\<rparr>)
       (call_step A (ks i) (pcs s i) (the_world s))"
| "act A pass ks (Unlock_begin i) s =
     guard (pcs s i = Inside) (Some (s\<lparr>pcs := (pcs s)(i := UnReading)\<rparr>))"
| "act A pass ks (Crash i) s =
     Some (s\<lparr>pcs := (pcs s)(i := Outside)\<rparr>)"
| "act A pass ks (Renew_read i) s = (case renew_read A (ks i) (the_world s) of (ls, w) \<Rightarrow>
     Some (s\<lparr>inflight := (inflight s)(i := ls @ inflight s i), the_world := w\<rparr>))"
| "act A pass ks (Renew_write i j) s = guard (j < length (inflight s i))
     (Some (s\<lparr>the_world := renew_write A (ks i) (inflight s i ! j) (the_world s)\<rparr>))"
| "act A pass ks (Pass d) s = Some (s\<lparr>the_world := pass d (the_world s)\<rparr>)"

definition start :: "'w lease_api \<Rightarrow> 'w cluster \<Rightarrow> bool" where
  "start A s \<longleftrightarrow> look A (the_world s) = None \<and> pcs s = (\<lambda>_. Outside) \<and> inflight s = (\<lambda>_. [])"

definition act_step :: "'w lease_api \<Rightarrow> (nat \<Rightarrow> 'w \<Rightarrow> 'w) \<Rightarrow> (nat \<Rightarrow> kubeLeaseLock) \<Rightarrow>
    'w cluster \<Rightarrow> 'w cluster \<Rightarrow> bool" where
  "act_step A pass ks s t \<longleftrightarrow> (\<exists>a. act A pass ks a s = Some t)"

text \<open>A step after which no agent is about to delete a lease it found expired.\<close>

definition unexpired_step :: "'w lease_api \<Rightarrow> (nat \<Rightarrow> 'w \<Rightarrow> 'w) \<Rightarrow> (nat \<Rightarrow> kubeLeaseLock) \<Rightarrow>
    'w cluster \<Rightarrow> 'w cluster \<Rightarrow> bool" where
  "unexpired_step A pass ks s t \<longleftrightarrow> act_step A pass ks s t \<and> (\<forall>i. pcs t i \<noteq> Deleting)"

lemma unexpired_stepI:
  "act A pass ks a s = Some t \<Longrightarrow> \<forall>i. pcs t i \<noteq> Deleting \<Longrightarrow> unexpired_step A pass ks s t"
  by (auto simp: unexpired_step_def act_step_def)

definition in_critical :: "'w cluster \<Rightarrow> nat \<Rightarrow> bool" where
  "in_critical s i \<longleftrightarrow> pcs s i = Inside"

subsection \<open>Mutual exclusion while leases do not expire\<close>

definition setting :: "'w lease_api \<Rightarrow> (nat \<Rightarrow> 'w \<Rightarrow> 'w) \<Rightarrow> (nat \<Rightarrow> kubeLeaseLock) \<Rightarrow> bool" where
  "setting A pass ks \<longleftrightarrow> (\<forall>i. lease_laws A (ks i)) \<and>
     (\<forall>i j. leaseName (ks i) = leaseName (ks j)) \<and>
     (\<forall>i j. holderIdentity (ks i) = holderIdentity (ks j) \<longrightarrow> i = j) \<and>
     (\<forall>d w. same_store A w (pass d w))"

definition holder :: "'w lease_api \<Rightarrow> 'w \<Rightarrow> string option" where
  "holder A w = Option.bind (look A w) HolderIdentity"

text \<open>The stored lease names a holder and its version is not newer than the counter; an agent inside
  the critical section, or about to leave it with the \<open>Delete\<close> of \<open>Unlock\<close>, is that holder; and a
  renewal under way carries a lease of the agent's own, which is the stored one unless the stored
  one has another version.\<close>

definition owns :: "'w lease_api \<Rightarrow> kubeLeaseLock \<Rightarrow> lock_pc \<Rightarrow> 'w \<Rightarrow> bool" where
  "owns A k pc w \<longleftrightarrow> (pc \<in> {Inside, UnDeleting} \<longrightarrow> holder A w = Some (holderIdentity k))"

definition store_ok :: "'w lease_api \<Rightarrow> string \<Rightarrow> 'w \<Rightarrow> bool" where
  "store_ok A nm w \<longleftrightarrow> (\<forall>l. look A w = Some l \<longrightarrow>
     HolderIdentity l \<noteq> None \<and> lease_Name l = nm \<and> ResourceVersion l \<le> version A w)"

definition renewal_ok :: "'w lease_api \<Rightarrow> kubeLeaseLock \<Rightarrow> 'w \<Rightarrow> Lease \<Rightarrow> bool" where
  "renewal_ok A k w l \<longleftrightarrow> HolderIdentity l = Some (holderIdentity k) \<and> lease_Name l = leaseName k \<and>
     ResourceVersion l \<le> version A w \<and>
     (\<forall>l'. look A w = Some l' \<longrightarrow> ResourceVersion l' = ResourceVersion l \<longrightarrow>
        HolderIdentity l' = HolderIdentity l)"

definition cluster_inv :: "'w lease_api \<Rightarrow> (nat \<Rightarrow> kubeLeaseLock) \<Rightarrow> 'w cluster \<Rightarrow> bool" where
  "cluster_inv A ks s \<longleftrightarrow>
     (\<forall>i. pcs s i \<noteq> Deleting) \<and> store_ok A (leaseName (ks 0)) (the_world s) \<and>
     (\<forall>i. owns A (ks i) (pcs s i) (the_world s)) \<and>
     (\<forall>i. \<forall>l \<in> set (inflight s i). renewal_ok A (ks i) (the_world s) l)"

text \<open>What agent \<open>k\<close> may do to the store: nothing, write a lease of its own where there was none or its
  own, or delete its own.\<close>

definition change :: "'w lease_api \<Rightarrow> kubeLeaseLock \<Rightarrow> 'w \<Rightarrow> 'w \<Rightarrow> bool" where
  "change A k w w' \<longleftrightarrow> same_store A w w' \<or>
     (\<exists>l. writes A w w' l \<and> HolderIdentity l = Some (holderIdentity k) \<and> lease_Name l = leaseName k \<and>
        (look A w = None \<or> holder A w = Some (holderIdentity k))) \<or>
     (holder A w = Some (holderIdentity k) \<and> look A w' = None \<and> version A w \<le> version A w')"

lemma change_store_ok:
  "change A k w w' \<Longrightarrow> store_ok A (leaseName k) w \<Longrightarrow> store_ok A (leaseName k) w'"
  by (auto simp: change_def store_ok_def same_store_def writes_def)

lemma change_renewal_ok:
  "change A k w w' \<Longrightarrow> renewal_ok A k' w l \<Longrightarrow> renewal_ok A k' w' l"
  by (auto simp: change_def renewal_ok_def same_store_def writes_def)

lemma change_owns_other:
  "change A k w w' \<Longrightarrow> holderIdentity k' \<noteq> holderIdentity k \<Longrightarrow> owns A k' pc w \<Longrightarrow> owns A k' pc w'"
  by (auto simp: change_def owns_def holder_def same_store_def)

lemma change_own:
  assumes "same_store A w w'" shows "change A k w w'" "owns A k pc w \<Longrightarrow> owns A k pc w'"
  using assms by (auto simp: change_def owns_def holder_def same_store_def)

lemma cluster_inv_update:
  assumes inv: "cluster_inv A ks s" and set: "setting A pass ks"
    and ch: "change A (ks i) (the_world s) w'"
    and pc: "pc \<noteq> Deleting" "owns A (ks i) pc w'"
    and fl: "\<And>l. l \<in> set ls \<Longrightarrow> renewal_ok A (ks i) (the_world s) l"
  shows "cluster_inv A ks (s\<lparr>pcs := (pcs s)(i := pc), inflight := (inflight s)(i := ls), the_world := w'\<rparr>)"
proof -
  have nm: "leaseName (ks 0) = leaseName (ks i)" using set by (auto simp: setting_def)
  have "store_ok A (leaseName (ks 0)) w'"
    using change_store_ok [OF ch] inv by (simp add: cluster_inv_def nm)
  moreover have "owns A (ks j) (((pcs s)(i := pc)) j) w'" for j
  proof (cases "j = i")
    case False
    then have "holderIdentity (ks j) \<noteq> holderIdentity (ks i)"
      using set by (auto simp: setting_def)
    with change_owns_other [OF ch] inv False show ?thesis by (simp add: cluster_inv_def)
  qed (use pc in simp)
  moreover have "renewal_ok A (ks j) w' l" if "l \<in> set (((inflight s)(i := ls)) j)" for j l
    using that change_renewal_ok [OF ch] inv fl by (cases "j = i") (auto simp: cluster_inv_def)
  ultimately show ?thesis
    using inv pc by (auto simp: cluster_inv_def)
qed

text \<open>What each API call does under the laws of the server.\<close>

lemma create_call_ok:
  assumes "lease_laws A k" "create_call A k w = (r, w')"
  shows "change A k w w' \<and> (r = Ok pc \<longrightarrow> pc = Reading \<or> owns A k pc w')"
proof -
  obtain q w1 where c: "leases_create (api_client A) (namespace k) (new_lease k (api_clock A w)) w = (q, w1)"
    by (cases "leases_create (api_client A) (namespace k) (new_lease k (api_clock A w)) w")
  have nm: "lease_Name (new_lease k t) = leaseName k"
    and id: "HolderIdentity (new_lease k t) = Some (holderIdentity k)" for t
    by (simp_all add: new_lease_def)
  have law: "case q of Ok _ \<Rightarrow> created A w w1 (new_lease k (api_clock A w))
      | Fail e \<Rightarrow> same_store A w w1 \<or> \<not> IsAlreadyExists e \<and> created A w w1 (new_lease k (api_clock A w))
      | Abort _ \<Rightarrow> same_store A w w1"
    using assms(1) c nm by (force simp: lease_laws_def create_law_def)
  have made: "change A k w w1 \<and> holder A w1 = Some (holderIdentity k)"
    if "created A w w1 (new_lease k (api_clock A w))"
    using that nm id unfolding created_def change_def by (auto simp: writes_def holder_def)
  show ?thesis
  proof (cases q)
    case (Ok x)
    with law made assms(2) c show ?thesis by (auto simp: create_call_def owns_def)
  next
    case (Fail e)
    with law made assms(2) c show ?thesis
      by (auto simp: create_call_def change_own split: if_splits)
  next
    case (Abort a)
    with law assms(2) c show ?thesis by (auto simp: create_call_def change_own split: if_splits)
  qed
qed

lemma read_call_ok:
  assumes "lease_laws A k" "store_ok A nm w" "read_call A k w = (r, w')"
  shows "change A k w w' \<and> (r = Ok pc \<longrightarrow> pc = Deleting \<or> owns A k pc w')"
proof -
  obtain q w1 where g: "leases_get (api_client A) (namespace k) (leaseName k) w = (q, w1)"
    by (cases "leases_get (api_client A) (namespace k) (leaseName k) w")
  note same = get_same [OF assms(1) g]
  have ch: "change A k w w1" using same by (simp add: change_own same_store_def)
  show ?thesis
  proof (cases q)
    case (Ok l)
    then have l: "look A w = Some l" "look A w1 = Some l" using same by simp_all
    then obtain h where "HolderIdentity l = Some h"
      using assms(2) by (auto simp: store_ok_def)
    with l have "owns A k Inside w1" if "\<not> held_by_other k l"
      using that by (simp add: held_by_other_def owns_def holder_def)
    with ch Ok assms(3) g show ?thesis
      by (auto simp: read_call_def owns_def split: if_splits)
  qed (use assms(3) g ch in \<open>auto simp: read_call_def\<close>)
qed

lemma unlock_read_call_ok:
  assumes "lease_laws A k" "unlock_read_call A k w = (r, w')"
  shows "change A k w w' \<and> (r = Ok pc \<longrightarrow> pc \<noteq> Deleting \<and> owns A k pc w')"
proof -
  obtain q w1 where g: "leases_get (api_client A) (namespace k) (leaseName k) w = (q, w1)"
    by (cases "leases_get (api_client A) (namespace k) (leaseName k) w")
  note same = get_same [OF assms(1) g]
  have ch: "change A k w w1" using same by (simp add: change_own same_store_def)
  show ?thesis
  proof (cases q)
    case (Ok l)
    then have "look A w1 = Some l" using same by simp
    with ch Ok assms(2) g show ?thesis
      by (auto simp: unlock_read_call_def owns_def holder_def split: if_splits)
  qed (use assms(2) g ch in \<open>auto simp: unlock_read_call_def\<close>)
qed

lemma unlock_delete_call_ok:
  assumes "lease_laws A k" "unlock_delete_call A k w = (r, w')" "owns A k UnDeleting w"
  shows "change A k w w' \<and> (r = Ok pc \<longrightarrow> pc = Outside)"
proof -
  obtain q w1 where d: "leases_delete (api_client A) (namespace k) (leaseName k) w = (q, w1)"
    by (cases "leases_delete (api_client A) (namespace k) (leaseName k) w")
  then have "case q of Ok _ \<Rightarrow> deleted A w w1 | _ \<Rightarrow> same_store A w w1 \<or> deleted A w w1"
    using assms(1) by (force simp: lease_laws_def delete_law_def)
  then show ?thesis
    using assms(2,3) d
    by (cases q) (auto simp: unlock_delete_call_def change_def owns_def deleted_def)
qed

lemma call_step_ok:
  assumes "lease_laws A k" "store_ok A nm w" "owns A k pc w" "pc \<noteq> Deleting"
    and "call_step A k pc w = Some (pc', w')"
  shows "change A k w w' \<and> (pc' = Deleting \<or> owns A k pc' w')"
proof -
  obtain m r v where m: "api_call A k pc = Some m" and r: "m w = (r, v)"
    using assms(5) by (cases "api_call A k pc"; cases "the (api_call A k pc) w")
      (auto simp: call_step_def)
  have "change A k w v \<and> (r = Ok p \<longrightarrow> p = Deleting \<or> owns A k p v)" for p
  proof (cases pc)
    case Creating
    with m r create_call_ok [OF assms(1), of w r v p] show ?thesis by (auto simp: owns_def)
  next
    case Reading
    with m r read_call_ok [OF assms(1,2), of r v p] show ?thesis by auto
  next
    case UnReading
    with m r unlock_read_call_ok [OF assms(1), of w r v p] show ?thesis by auto
  next
    case UnDeleting
    with m r unlock_delete_call_ok [OF assms(1), of w r v p] assms(3) show ?thesis
      by (auto simp: owns_def)
  qed (use m assms(4) in auto)
  then show ?thesis
    using assms(5) m r by (cases r) (auto simp: call_step_def owns_def)
qed

lemma renew_read_ok:
  assumes "lease_laws A k" "store_ok A (leaseName k) w" "renew_read A k w = (ls, w')"
  shows "same_store A w w' \<and> (\<forall>l \<in> set ls. renewal_ok A k w l)"
proof -
  obtain q w1 where g: "leases_get (api_client A) (namespace k) (leaseName k) w = (q, w1)"
    by (cases "leases_get (api_client A) (namespace k) (leaseName k) w")
  note same = get_same [OF assms(1) g]
  show ?thesis
    using assms(2,3) g same
    by (cases q) (auto simp: renew_read_def same_store_def renewal_ok_def store_ok_def split: if_splits)
qed

lemma renew_write_law:
  assumes "lease_laws A k" "lease_Name l = leaseName k"
  shows "same_store A w (renew_write A k l w) \<or> updated A w (renew_write A k l w) l"
proof -
  obtain q w1 where u: "leases_update (api_client A) (namespace k) l w = (q, w1)"
    by (cases "leases_update (api_client A) (namespace k) l w")
  then have "case q of Ok _ \<Rightarrow> updated A w w1 l | _ \<Rightarrow> same_store A w w1 \<or> updated A w w1 l"
    using assms by (force simp: lease_laws_def update_law_def)
  then show ?thesis by (cases q) (auto simp: renew_write_def u)
qed

lemma renew_write_ok:
  assumes "lease_laws A k" "renewal_ok A k w l"
  shows "change A k w (renew_write A k l w)"
    and "owns A k pc w \<Longrightarrow> owns A k pc (renew_write A k l w)"
proof -
  let ?w = "renew_write A k l w"
  have nm: "lease_Name l = leaseName k" using assms(2) by (simp add: renewal_ok_def)
  have "change A k w ?w \<and> (owns A k pc w \<longrightarrow> owns A k pc ?w)" if "updated A w ?w l"
  proof -
    from that have wr: "writes A w ?w l"
      and "map_option ResourceVersion (look A w) = Some (ResourceVersion l)"
      by (simp_all add: updated_def)
    then have "holder A w = Some (holderIdentity k)"
      using assms(2) by (auto simp: holder_def renewal_ok_def)
    with wr assms(2) have "change A k w ?w"
      by (auto simp: change_def renewal_ok_def intro!: exI [of _ l])
    with wr assms(2) show ?thesis
      by (simp add: owns_def holder_def writes_def renewal_ok_def)
  qed
  with renew_write_law [OF assms(1) nm, of w]
  show "change A k w ?w" and "owns A k pc w \<Longrightarrow> owns A k pc ?w"
    by (auto simp: change_own)
qed

lemma act_keeps_inv:
  assumes inv: "cluster_inv A ks s" and set: "setting A pass ks"
    and act: "act A pass ks a s = Some t" and live: "\<forall>i. pcs t i \<noteq> Deleting"
  shows "cluster_inv A ks t"
proof -
  have laws: "lease_laws A (ks i)" and nm: "leaseName (ks 0) = leaseName (ks i)"
    and tick: "same_store A w (pass d w)" for i d w
    using set by (auto simp: setting_def)
  have st: "store_ok A (leaseName (ks i)) (the_world s)" and ow: "owns A (ks i) (pcs s i) (the_world s)"
    and nd: "pcs s i \<noteq> Deleting"
    and fl: "\<And>l. l \<in> set (inflight s i) \<Longrightarrow> renewal_ok A (ks i) (the_world s) l" for i
    using inv nm [of i] by (auto simp: cluster_inv_def)
  have refl: "same_store A w w" for w by (simp add: same_store_def)
  note upd = cluster_inv_update [OF inv set]
  show ?thesis
  proof (cases a)
    case (Lock_begin i)
    with act upd [OF change_own(1) [OF refl], of Creating i "inflight s i"] fl show ?thesis
      by (simp add: guard_def owns_def split: if_splits)
  next
    case (Call i)
    with act obtain pc' w' where c: "call_step A (ks i) (pcs s i) (the_world s) = Some (pc', w')"
      and t: "t = s\<lparr>pcs := (pcs s)(i := pc'), the_world := w'\<rparr>" by auto
    have "pc' \<noteq> Deleting" using live t by (auto split: if_splits)
    with call_step_ok [OF laws st ow nd c] upd [of i w' pc' "inflight s i"] fl show ?thesis
      by (simp add: t)
  next
    case (Unlock_begin i)
    with act upd [OF change_own(1) [OF refl], of UnReading i "inflight s i"] fl show ?thesis
      by (simp add: guard_def owns_def split: if_splits)
  next
    case (Crash i)
    with act upd [OF change_own(1) [OF refl], of Outside i "inflight s i"] fl show ?thesis
      by (auto simp: owns_def)
  next
    case (Renew_read i)
    then obtain ls w' where r: "renew_read A (ks i) (the_world s) = (ls, w')"
      and t: "t = s\<lparr>inflight := (inflight s)(i := ls @ inflight s i), the_world := w'\<rparr>"
      using act by (auto split: prod.splits)
    note rr = renew_read_ok [OF laws st r]
    then have sm: "same_store A (the_world s) w'" by simp
    have "cluster_inv A ks (s\<lparr>pcs := (pcs s)(i := pcs s i),
        inflight := (inflight s)(i := ls @ inflight s i), the_world := w'\<rparr>)"
      by (rule upd) (use rr change_own(1) [OF sm] change_own(2) [OF sm ow] nd fl in auto)
    then show ?thesis by (simp add: t)
  next
    case (Renew_write i j)
    let ?l = "inflight s i ! j"
    have "renewal_ok A (ks i) (the_world s) ?l"
      using Renew_write act fl by (simp add: guard_def split: if_splits)
    note w = renew_write_ok [OF laws this]
    have "cluster_inv A ks (s\<lparr>pcs := (pcs s)(i := pcs s i),
        inflight := (inflight s)(i := inflight s i),
        the_world := renew_write A (ks i) ?l (the_world s)\<rparr>)"
      by (rule upd) (use w ow nd fl in auto)
    with Renew_write act show ?thesis by (simp add: guard_def split: if_splits)
  next
    case (Pass d)
    with act upd [OF change_own(1) [OF tick], of "pcs s 0" 0 d "inflight s 0"] change_own(2) [OF tick] ow nd fl
    show ?thesis by simp
  qed
qed

definition guarded_inv :: "'w lease_api \<Rightarrow> (nat \<Rightarrow> 'w \<Rightarrow> 'w) \<Rightarrow> (nat \<Rightarrow> kubeLeaseLock) \<Rightarrow>
    'w cluster \<Rightarrow> bool" where
  "guarded_inv A pass ks s \<longleftrightarrow> (setting A pass ks \<longrightarrow> cluster_inv A ks s)"

interpretation mutex: invariant "start A" "unexpired_step A pass ks" "guarded_inv A pass ks"
  for A :: "'w lease_api" and pass ks
proof unfold_locales
  show "guarded_inv A pass ks s" if "start A s" for s
    using that by (simp add: guarded_inv_def start_def cluster_inv_def store_ok_def owns_def)
  show "guarded_inv A pass ks t"
    if "unexpired_step A pass ks s t" "guarded_inv A pass ks s" for s t
    using that act_keeps_inv unfolding guarded_inv_def unexpired_step_def act_step_def by blast
qed

lemma mutual_exclusion:
  assumes "setting A pass ks" and "reach (start A) (unexpired_step A pass ks) s"
    and "in_critical s i"
  shows "holder A (the_world s) = Some (holderIdentity (ks i)) \<and> (\<forall>j. in_critical s j \<longrightarrow> j = i)"
proof -
  have inv: "cluster_inv A ks s"
    using mutex.reach_inv [OF assms(2)] assms(1) by (simp add: guarded_inv_def)
  have h: "holder A (the_world s) = Some (holderIdentity (ks j))" if "in_critical s j" for j
    using inv that by (auto simp: cluster_inv_def owns_def in_critical_def)
  have "j = i" if "in_critical s j" for j
  proof -
    have "holderIdentity (ks j) = holderIdentity (ks i)"
      using h [OF that] h [OF assms(3)] by simp
    with assms(1) show ?thesis unfolding setting_def by blast
  qed
  with h [OF assms(3)] show ?thesis by blast
qed

text \<open>C4. Mutual exclusion: over any lease server that keeps its documented promises, with agents that
  have distinct holder identities and share the lease's name, in every interleaving of their \<open>Lock\<close>,
  \<open>Unlock\<close> and renewal calls, with failing calls, delayed renewals and crashes, at most one agent is
  inside the critical section, as long as no agent finds the lease expired; and the one inside is the
  holder that the stored lease names.\<close>

theorem lock_mutual_exclusion:
  assumes "setting A pass ks" and "reach (start A) (unexpired_step A pass ks) s"
    and "in_critical s i"
  shows "holder A (the_world s) = Some (holderIdentity (ks i)) \<and> (\<forall>j. in_critical s j \<longrightarrow> j = i)"
  using assms by (rule mutual_exclusion)

subsection \<open>A release at the wrong moment\<close>

text \<open>An API that is reachable: besides what \<open>api_up\<close> says of reading and deleting, \<open>Create\<close> succeeds
  where there is no lease, and reports an existing one as such.\<close>

definition create_up :: "'w lease_api \<Rightarrow> kubeLeaseLock \<Rightarrow> bool" where
  "create_up A k \<longleftrightarrow> (\<forall>l w. lease_Name l = leaseName k \<longrightarrow>
     (case fst (leases_create (api_client A) (namespace k) l w) of
       Ok _ \<Rightarrow> look A w = None
     | Fail e \<Rightarrow> look A w \<noteq> None \<and> IsAlreadyExists e
     | Abort _ \<Rightarrow> False))"

lemma create_up_cases:
  assumes "create_up A k" "leases_create (api_client A) (namespace k) (new_lease k t) w = (r, w')"
  shows "case r of Ok _ \<Rightarrow> look A w = None | Fail e \<Rightarrow> look A w \<noteq> None \<and> IsAlreadyExists e | Abort _ \<Rightarrow> False"
proof -
  have "lease_Name (new_lease k t) = leaseName k" by (simp add: new_lease_def)
  with assms show ?thesis unfolding create_up_def by (metis fst_conv)
qed

lemma call_create_exists:
  assumes "lease_laws A k" "create_up A k" "look A w = Some l"
  shows "\<exists>w'. call_step A k Creating w = Some (Reading, w') \<and> same_store A w w'"
proof -
  let ?l = "new_lease k (api_clock A w)"
  obtain r w' where c: "leases_create (api_client A) (namespace k) ?l w = (r, w')"
    by (cases "leases_create (api_client A) (namespace k) ?l w")
  obtain e where e: "r = Fail e" "IsAlreadyExists e"
    using create_up_cases [OF assms(2) c] assms(3) by (cases r) auto
  then have "same_store A w w'"
    using assms(1) c by (force simp: lease_laws_def create_law_def new_lease_def)
  with c e show ?thesis by (simp add: call_step_def create_call_def)
qed

lemma call_unlock_read:
  assumes "lease_laws A k" "api_up A k" "holder A w = Some (holderIdentity k)"
  shows "\<exists>w'. call_step A k UnReading w = Some (UnDeleting, w') \<and> look A w' = look A w"
proof -
  obtain l where l: "look A w = Some l" "HolderIdentity l = Some (holderIdentity k)"
    using assms(3) by (auto simp: holder_def bind_eq_Some_conv)
  with get_up [OF assms(1,2) l(1)] show ?thesis
    by (auto simp: call_step_def unlock_read_call_def)
qed

lemma call_unlock_delete:
  assumes "lease_laws A k" "api_up A k" "look A w \<noteq> None"
  shows "\<exists>w'. call_step A k UnDeleting w = Some (Outside, w') \<and> look A w' = None"
  using delete_up [OF assms] by (auto simp: call_step_def unlock_delete_call_def)

lemma call_read_absent:
  assumes "lease_laws A k" "look A w = None"
  shows "\<exists>w'. call_step A k Reading w = Some (Failed, w') \<and> look A w' = None"
proof -
  obtain g w' where g: "leases_get (api_client A) (namespace k) (leaseName k) w = (g, w')"
    by (cases "leases_get (api_client A) (namespace k) (leaseName k) w")
  note same = get_same [OF assms(1) g]
  with assms(2) g show ?thesis by (cases g) (auto simp: call_step_def read_call_def)
qed

text \<open>C36. A release at the wrong moment makes a waiting agent fail. Agent \<open>i\<close> is inside the critical
  section and agent \<open>j\<close> starts \<open>Lock\<close>: its \<open>Create\<close> reports that the lease exists, and it goes on to
  read it. If \<open>i\<close> now unlocks, in full and without an error, then \<open>j\<close>'s next call, the \<open>Get\<close>, finds no
  lease, and \<open>Lock\<close> ends with that error instead of trying again, although the lock is free and
  every API call did what it promises.\<close>

theorem released_lease_fails_waiter:
  assumes "setting A pass ks" "api_up A (ks i)" "create_up A (ks j)"
    and "reach (start A) (unexpired_step A pass ks) s" "in_critical s i" "pcs s j = Outside"
  shows "\<exists>t u. follow (act A pass ks) [Lock_begin j, Call j] s = Some t \<and>
    in_critical t i \<and> pcs t j = Reading \<and>
    follow (act A pass ks) [Unlock_begin i, Call i, Call i, Call j] t = Some u \<and>
    look A (the_world u) = None \<and> pcs u i = Outside \<and> pcs u j = Failed"
proof -
  have laws: "lease_laws A (ks n)" for n using assms(1) by (simp add: setting_def)
  have pi: "pcs s i = Inside" and ne: "i \<noteq> j" using assms(5,6) by (auto simp: in_critical_def)
  have h: "holder A (the_world s) = Some (holderIdentity (ks i))"
    using mutual_exclusion [OF assms(1,4,5)] by simp
  then obtain l where "look A (the_world s) = Some l" by (auto simp: holder_def bind_eq_Some_conv)
  with call_create_exists [OF laws assms(3)] obtain w1 where
    w1: "call_step A (ks j) Creating (the_world s) = Some (Reading, w1)" "same_store A (the_world s) w1"
    by blast
  with h have "holder A w1 = Some (holderIdentity (ks i))" by (simp add: holder_def same_store_def)
  with call_unlock_read [OF laws assms(2)] obtain w2 where
    w2: "call_step A (ks i) UnReading w1 = Some (UnDeleting, w2)" "look A w2 \<noteq> None"
    by (fastforce simp: holder_def)
  from call_unlock_delete [OF laws assms(2) w2(2)] obtain w3 where
    w3: "call_step A (ks i) UnDeleting w2 = Some (Outside, w3)" "look A w3 = None" by blast
  from call_read_absent [OF laws w3(2)] obtain w4 where
    "call_step A (ks j) Reading w3 = Some (Failed, w4)" "look A w4 = None" by blast
  with w1(1) w2(1) w3(1) pi ne assms(6) show ?thesis
    by (simp add: guard_def in_critical_def)
qed

subsection \<open>Concrete runs\<close>

definition lock_of :: "nat \<Rightarrow> kubeLeaseLock" where
  "lock_of i = \<lparr>leaseName = ''kubeip-lock'', namespace = ''kube-system'',
     holderIdentity = replicate i CHR ''n'', leaseDuration = 5\<rparr>"

definition let_pass :: "nat \<Rightarrow> lease_store \<Rightarrow> lease_store" where
  "let_pass d st = st\<lparr>store_clock := store_clock st + int d\<rparr>"

definition first_cluster :: "lease_store cluster" where
  "first_cluster = \<lparr>the_world = fresh_store, pcs = \<lambda>_. Outside, inflight = \<lambda>_. []\<rparr>"

abbreviation run :: "action list \<Rightarrow> lease_store cluster option" where
  "run as \<equiv> follow (act store_api let_pass lock_of) as first_cluster"

lemma store_setting: "setting store_api let_pass lock_of"
proof -
  have "replicate i CHR ''n'' = replicate j CHR ''n'' \<Longrightarrow> i = j" for i j
    by (metis length_replicate)
  moreover have "same_store store_api w (let_pass d w)" for d w
    by (simp add: same_store_def store_api_def let_pass_def)
  ultimately show ?thesis
    using store_laws by (simp add: setting_def lock_of_def)
qed

lemma start_first: "start store_api first_cluster"
  by (simp add: start_def first_cluster_def fresh_store_def store_api_def)

lemma run_reach: "run as = Some s \<Longrightarrow> reach (start store_api) (act_step store_api let_pass lock_of) s"
  by (rule follow_reach [OF _ reach_init [of "start store_api", OF start_first]])
    (auto simp: act_step_def)

lemmas run_defs = call_step_def create_call_def read_call_def delete_call_def store_api_def
  store_client_def store_write_def first_cluster_def fresh_store_def guard_def attempt_def check_def
  new_lease_def lock_of_def let_pass_def lease_expired_iff held_by_other_def

definition busy_run :: "action list" where
  "busy_run = [Lock_begin 0, Call 0, Renew_read 0, Lock_begin 1, Call 1, Call 1, Renew_write 0 0]"

text \<open>Only an agent's own call can bring it to the \<open>Delete\<close> of an expired lease.\<close>

definition live_act :: "action \<Rightarrow> lease_store cluster \<Rightarrow> lease_store cluster option" where
  "live_act a s = Option.bind (act store_api let_pass lock_of a s)
     (\<lambda>t. guard (case a of Call i \<Rightarrow> pcs t i \<noteq> Deleting | _ \<Rightarrow> True) (Some t))"

lemma live_act_step:
  assumes "live_act a s = Some t" "\<forall>i. pcs s i \<noteq> Deleting"
  shows "unexpired_step store_api let_pass lock_of s t \<and> (\<forall>i. pcs t i \<noteq> Deleting)"
proof -
  have a: "act store_api let_pass lock_of a s = Some t"
    using assms(1) by (auto simp: live_act_def guard_def bind_eq_Some_conv split: if_splits)
  have "\<forall>i. pcs t i \<noteq> Deleting"
    using assms a by (cases a)
      (auto simp: live_act_def guard_def bind_eq_Some_conv renew_read_def split: if_splits prod.splits)
  with a show ?thesis by (auto simp: unexpired_step_def act_step_def)
qed

lemma live_follow:
  assumes "follow live_act as s = Some t" "\<forall>i. pcs s i \<noteq> Deleting"
    and "reach (start store_api) (unexpired_step store_api let_pass lock_of) s"
  shows "reach (start store_api) (unexpired_step store_api let_pass lock_of) t"
  using assms
proof (induction as arbitrary: s)
  case (Cons a as)
  then obtain u where "live_act a s = Some u" "follow live_act as u = Some t"
    by (auto split: option.splits)
  with live_act_step [of a s u] Cons show ?case by (meson reach_step)
qed simp

lemma live_run:
  assumes "follow live_act as first_cluster = Some t"
  shows "reach (start store_api) (unexpired_step store_api let_pass lock_of) t"
  by (rule live_follow [OF assms _ reach_init [of "start store_api", OF start_first]])
    (simp add: first_cluster_def)

lemma busy_run_result:
  "\<exists>s. follow live_act busy_run first_cluster = Some s \<and> in_critical s 0 \<and> pcs s 1 = BackingOff"
  by (simp add: busy_run_def live_act_def run_defs renew_read_def renew_write_def in_critical_def)

lemma lock_mutual_exclusion_witness:
  "\<exists>s. in_critical s 0 \<and> pcs s 1 = BackingOff \<and> holder store_api (the_world s) = Some []"
proof -
  obtain s where s: "follow live_act busy_run first_cluster = Some s" "in_critical s 0"
    "pcs s 1 = BackingOff"
    using busy_run_result by blast
  from lock_mutual_exclusion [OF store_setting live_run [OF s(1)] s(2)] s show ?thesis
    by (auto simp: lock_of_def)
qed

lemma store_create_up: "create_up store_api k"
  by (auto simp: create_up_def store_api_def store_client_def store_write_def split: option.split)

text \<open>Agent 0 has locked, agent 1 tries to and agent 0 unlocks.\<close>

lemma released_lease_fails_waiter_witness:
  "\<exists>s u. follow live_act [Lock_begin 0, Call 0] first_cluster = Some s \<and> in_critical s 0 \<and>
    follow (act store_api let_pass lock_of)
      [Lock_begin 1, Call 1, Unlock_begin 0, Call 0, Call 0, Call 1] s = Some u \<and>
    stored (the_world u) = None \<and> pcs u 1 = Failed"
proof -
  have "\<exists>s. follow live_act [Lock_begin 0, Call 0] first_cluster = Some s \<and> in_critical s 0 \<and>
      pcs s 1 = Outside"
    by (simp add: live_act_def run_defs in_critical_def)
  then obtain s where s: "follow live_act [Lock_begin 0, Call 0] first_cluster = Some s"
    "in_critical s 0" "pcs s 1 = Outside" by blast
  from released_lease_fails_waiter [OF store_setting store_up store_create_up live_run [OF s(1)] s(2,3)]
  obtain t u where t: "follow (act store_api let_pass lock_of) [Lock_begin 1, Call 1] s = Some t"
    and u: "follow (act store_api let_pass lock_of) [Unlock_begin 0, Call 0, Call 0, Call 1] t = Some u"
      "look store_api (the_world u) = None" "pcs u 1 = Failed" by blast
  have "follow (act store_api let_pass lock_of)
      [Lock_begin 1, Call 1, Unlock_begin 0, Call 0, Call 0, Call 1] s = Some u"
    using follow_append [of "act store_api let_pass lock_of" "[Lock_begin 1, Call 1]"
        "[Unlock_begin 0, Call 0, Call 0, Call 1]" s] t u(1)
    by (simp del: follow.simps)
  moreover have "stored (the_world u) = None" using u(2) by (simp add: store_api_def)
  ultimately show ?thesis using s(1,2) u(3) by blast
qed

end
