(* ===== verification/Agent.thy ===== *)
theory Agent
  imports Assigner Tainter LeaseProtocol
begin

text \<open>
  cmd/main.go: the agent. \<open>run\<close> discovers its node, makes the assigner for the node's cloud, assigns an
  address under the cluster-wide lock with retries, waits for the node to report it, removes the
  taint, waits for the end of its context and releases the address.

  A \<open>select\<close> between the ticker and the context is a parameter: it changes the world (time passes) and
  tells which of the two came, \<open>None\<close> for a tick, \<open>Some e\<close> for the context with its error \<open>e\<close>. Logging
  and the command-line library have no counterpart, apart from the level that \<open>prepareLogger\<close> chooses.
\<close>

definition unassignTimeout :: go_int where "unassignTimeout = 5 * 60 * time_Second"
definition kubeipLockName :: string where "kubeipLockName = ''kubeip-lock''"
definition defaultLeaseDuration :: go_int where "defaultLeaseDuration = 5"
definition defaultRetryInterval :: go_int where "defaultRetryInterval = 60 * time_Second"
definition defaultRetryAttempts :: go_int where "defaultRetryAttempts = 60"

subsection \<open>Log levels\<close>

text \<open>The levels of package logrus from the quietest to the most verbose.\<close>

datatype log_level = PanicLevel | FatalLevel | ErrorLevel | WarnLevel | InfoLevel | DebugLevel

fun level_rank :: "log_level \<Rightarrow> nat" where
  "level_rank PanicLevel = 0"
| "level_rank FatalLevel = 1"
| "level_rank ErrorLevel = 2"
| "level_rank WarnLevel = 3"
| "level_rank InfoLevel = 4"
| "level_rank DebugLevel = 5"

instantiation log_level :: linorder
begin

definition less_eq_log_level :: "log_level \<Rightarrow> log_level \<Rightarrow> bool" where
  "less_eq_log_level a b \<longleftrightarrow> level_rank a \<le> level_rank b"

definition less_log_level :: "log_level \<Rightarrow> log_level \<Rightarrow> bool" where
  "less_log_level a b \<longleftrightarrow> level_rank a < level_rank b"

instance
proof
  fix a b :: log_level
  show "a \<le> b \<Longrightarrow> b \<le> a \<Longrightarrow> a = b"
    by (cases a; cases b) (simp_all add: less_eq_log_level_def)
qed (auto simp: less_eq_log_level_def less_log_level_def)

end

definition prepareLogger :: "string \<Rightarrow> log_level" where
  "prepareLogger level =
     (if level = ''debug'' \<or> level = ''DEBUG'' then DebugLevel
      else if level = ''info'' \<or> level = ''INFO'' then InfoLevel
      else if level = ''warning'' \<or> level = ''WARNING'' then WarnLevel
      else if level = ''error'' \<or> level = ''ERROR'' then ErrorLevel
      else if level = ''fatal'' \<or> level = ''FATAL'' then FatalLevel
      else if level = ''panic'' \<or> level = ''PANIC'' then PanicLevel
      else WarnLevel)"

text \<open>An entry is written when its level is at most the logger's.\<close>

definition is_logged :: "string \<Rightarrow> log_level \<Rightarrow> bool" where
  "is_logged level entry \<longleftrightarrow> entry \<le> prepareLogger level"

subsection \<open>Deferred calls and retries\<close>

text \<open>\<open>defer d()\<close> around \<open>m\<close>: \<open>d\<close> runs when \<open>m\<close> returns and when it panics, and its result is dropped.\<close>

definition deferred :: "('w, 'a) prog \<Rightarrow> ('w, unit) prog \<Rightarrow> ('w, 'a) prog" where
  "deferred m d = (\<lambda>w. case m w of
       (Abort OutOfFuel, w1) \<Rightarrow> (Abort OutOfFuel, w1)
     | (r, w1) \<Rightarrow> (case d w1 of (Abort a, w2) \<Rightarrow> (Abort a, w2) | (_, w2) \<Rightarrow> (r, w2)))"

type_synonym 'w selector = "'w \<Rightarrow> go_error option \<times> 'w"

text \<open>The two retry loops of the agent: \<open>for c := 0; c <= R; c++\<close> around a body that either returns or
  goes on to the \<open>select\<close>. (The counter would wrap only after \<open>2 ^ 63\<close> rounds.)\<close>

function retry_ticks ::
  "go_int \<Rightarrow> string \<Rightarrow> 'w selector \<Rightarrow> ('w, 'a option) prog \<Rightarrow> nat \<Rightarrow> 'w \<Rightarrow> 'a result \<times> 'w" where
  "retry_ticks R what select body c w =
     (if \<not> int c \<le> sint R then (Fail (new_error ''reached maximum number of retries'' []), w)
      else (case body w of
          (Abort a, w1) \<Rightarrow> (Abort a, w1)
        | (Fail e, w1) \<Rightarrow> (Fail e, w1)
        | (Ok (Some x), w1) \<Rightarrow> (Ok x, w1)
        | (Ok None, w1) \<Rightarrow> (case select w1 of
              (Some e, w2) \<Rightarrow> (Fail (wrap what [] e), w2)
            | (None, w2) \<Rightarrow> retry_ticks R what select body (Suc c) w2)))"
  by pat_completeness auto
termination
  by (relation "measure (\<lambda>(R, _, _, _, c, _). nat (sint R + 1 - int c))") auto

declare retry_ticks.simps [simp del]

subsection \<open>Assigning\<close>

text \<open>The closure of \<open>assignAddress\<close>: the lock is released by a deferred call; whenever the closure
  returns an error it returns the empty string with it, also when the assigner returned an address.\<close>

definition locked_assign ::
  "('w, unit) prog \<Rightarrow> ('w, unit) prog \<Rightarrow> ('w, string \<times> go_error option) prog \<Rightarrow> ('w, string) prog" where
  "locked_assign lock unlock assign =
     check lock (wrap ''failed to acquire lock'' []) (\<lambda>_.
     deferred
       (check assign id (\<lambda>(assignedAddress, err). case err of
            Some e \<Rightarrow> throw e
          | None \<Rightarrow> ret assignedAddress))
       unlock)"

definition assign_round ::
  "('w, unit) prog \<Rightarrow> ('w, unit) prog \<Rightarrow> ('w, string \<times> go_error option) prog \<Rightarrow> ('w, string option) prog" where
  "assign_round lock unlock assign =
     attempt (locked_assign lock unlock assign)
       (\<lambda>err. if errors_is err ErrStaticIPAlreadyAssigned then ret (Some '''') else ret None)
       (\<lambda>assignedAddress. ret (Some assignedAddress))"

text \<open>\<open>assignAddress\<close> keeps its lock object beside the world; the calls of the assigner leave it alone.\<close>

definition select_world :: "'w selector \<Rightarrow> (lock_obj \<times> 'w) selector" where
  "select_world sel = (\<lambda>(obj, w). case sel w of (d, w') \<Rightarrow> (d, (obj, w')))"

type_synonym 'w backoff = "wait_Backoff \<Rightarrow> (lock_obj \<times> 'w, bool) prog \<Rightarrow> (lock_obj \<times> 'w, unit) prog"

definition address_round ::
  "'w backoff \<Rightarrow> ('w \<Rightarrow> int) \<Rightarrow> 'w lease_client \<Rightarrow> kubeLeaseLock \<Rightarrow> 'w go_context \<Rightarrow> 'w assigner \<Rightarrow>
   Node \<Rightarrow> Config \<Rightarrow> (lock_obj \<times> 'w, string option) prog" where
  "address_round ExponentialBackoff now client k ctx assigner node cfg =
     assign_round (kube_Lock ExponentialBackoff client now k) (kube_Unlock client k)
       (api (Assign assigner ctx (Instance node) (Zone node) (Filter cfg) (OrderBy cfg)))"

definition assignAddress ::
  "'w selector \<Rightarrow> 'w backoff \<Rightarrow> ('w \<Rightarrow> int) \<Rightarrow> 'w lease_client \<Rightarrow> 'w go_context \<Rightarrow> 'w assigner \<Rightarrow>
   Node \<Rightarrow> Config \<Rightarrow> ('w, string) prog" where
  "assignAddress select ExponentialBackoff now client ctx assigner node cfg =
     check (lift (NewTicker (RetryInterval cfg))) id (\<lambda>_ w.
       let (k, obj) = NewKubeLeaseLock kubeipLockName (LeaseNamespace cfg) (Instance node) (LeaseDuration cfg);
           (r, (_, w')) = retry_ticks (RetryAttempts cfg) ''context cancelled while assigning addresses''
             (select_world select)
             (address_round ExponentialBackoff now client k ctx assigner node cfg) 0 (obj, w)
       in (r, w'))"

subsection \<open>Waiting for the node to report the address\<close>

definition report_round ::
  "(string \<Rightarrow> ('w, Node) prog) \<Rightarrow> string \<Rightarrow> string \<Rightarrow> ('w, unit option) prog" where
  "report_round get_node name assignedAddress =
     attempt (get_node name) (\<lambda>_. ret None) (\<lambda>nodeInfo.
       if \<exists>ip \<in> set (ExternalIPs nodeInfo). IP_String ip = assignedAddress then ret (Some ())
       else ret None)"

definition waitForAddressToBeReported ::
  "'w selector \<Rightarrow> (string \<Rightarrow> ('w, Node) prog) \<Rightarrow> Node \<Rightarrow> string \<Rightarrow> Config \<Rightarrow> ('w, unit) prog" where
  "waitForAddressToBeReported select get_node node assignedAddress cfg =
     check (lift (NewTicker (RetryInterval cfg))) id (\<lambda>_.
       retry_ticks (RetryAttempts cfg) ''context cancelled while waiting for node to report assigned address''
         select (report_round get_node (Name node) assignedAddress) 0)"

subsection \<open>The kube config\<close>

record ('w, 'k) kube_sources =
  os_ReadFile :: "string \<Rightarrow> ('w, string) prog"
  RESTConfigFromKubeConfig :: "string \<Rightarrow> 'k result"
  InClusterConfig :: "('w, 'k) prog"

definition kubeConfigFromPath :: "('w, 'k) kube_sources \<Rightarrow> string \<Rightarrow> ('w, 'k) prog" where
  "kubeConfigFromPath src kubepath =
     (if kubepath = '''' then throw (Sentinel ErrEmptyPath)
      else
      check (os_ReadFile src kubepath) (wrap ''reading kubeconfig at %s'' [kubepath]) (\<lambda>content.
      check (lift (RESTConfigFromKubeConfig src content))
        (wrap ''building rest config from kubeconfig at %s'' [kubepath]) ret))"

text \<open>The pointer of the first call is nil exactly when it failed.\<close>

definition retrieveKubeConfig :: "('w, 'k) kube_sources \<Rightarrow> Config \<Rightarrow> ('w, 'k) prog" where
  "retrieveKubeConfig src cfg =
     check (attempt (kubeConfigFromPath src (KubeConfigPath cfg))
              (\<lambda>err. if \<not> errors_is err ErrEmptyPath
                     then throw (wrap ''retrieving kube config from path'' [] err) else ret None)
              (\<lambda>kubeconfig. ret (Some kubeconfig))) id (\<lambda>kubeconfig.
     case kubeconfig of
       Some k \<Rightarrow> ret k
     | None \<Rightarrow> check (InClusterConfig src) (wrap ''retrieving in node kube config'' []) ret)"

subsection \<open>Run\<close>

text \<open>The outside of the agent: the sources of the kube config, the clients made from it, the podinfo file
  reader of node discovery, the JSON encoder of taints, the clock, the \<open>select\<close>, the wait for the end of
  the context, the backoff of the lock and the SDKs.\<close>

record ('w, 'k) environment =
  env_kube :: "('w, 'k) kube_sources"
  env_NewForConfig :: "'k \<Rightarrow> ('w, 'w node_client \<times> 'w lease_client) prog"
  env_read_file :: "string \<Rightarrow> ('w, string) prog"
  env_marshal :: "Taint list \<Rightarrow> string result"
  env_clock :: "'w \<Rightarrow> int"
  env_select :: "'w selector"
  env_done :: "'w \<Rightarrow> 'w"
  env_backoff :: "'w backoff"
  env_sdks :: "'w sdks"

definition releaseIP :: "('w \<Rightarrow> int) \<Rightarrow> 'w assigner \<Rightarrow> Node \<Rightarrow> ('w, unit) prog" where
  "releaseIP now assigner n =
     observe now (\<lambda>t0.
     check (Unassign assigner (WithTimeout now t0 background unassignTimeout) (Instance n) (Zone n))
       (wrap ''failed to release static public IP address'' []) (\<lambda>_. ret ()))"

definition remove_taint ::
  "('w, 'k) environment \<Rightarrow> 'w node_client \<Rightarrow> 'w assigner \<Rightarrow> Node \<Rightarrow> Config \<Rightarrow> ('w, unit) prog" where
  "remove_taint env client assigner n cfg =
     attempt (RemoveTaintKey client (env_marshal env) n (TaintKey cfg))
       (\<lambda>err. attempt (releaseIP (env_clock env) assigner n)
          (\<lambda>_. throw (wrap ''removing node taint key'' [] err))
          (\<lambda>_. throw (wrap ''removing node taint key'' [] err)))
       (\<lambda>_. ret ())"

definition run_agent :: "('w, 'k) environment \<Rightarrow> 'w go_context \<Rightarrow> Config \<Rightarrow> ('w, unit) prog" where
  "run_agent env ctx cfg =
     check (retrieveKubeConfig (env_kube env) cfg) (wrap ''retrieving kube config'' []) (\<lambda>restconfig.
     check (env_NewForConfig env restconfig) (wrap ''initializing kubernetes client'' [])
       (\<lambda>(client, leases).
     check (GetNode (Some client) (env_read_file env) (NodeName cfg)) (wrap ''getting node'' []) (\<lambda>n.
     check (NewAssigner (env_sdks env) (Cloud n) cfg) (wrap ''initializing assigner'' []) (\<lambda>assigner.
     check (assignAddress (env_select env) (env_backoff env) (env_clock env) leases ctx assigner n cfg)
       (wrap ''assigning static public IP address'' []) (\<lambda>assignedAddress.
     check (if TaintKey cfg \<noteq> '''' then
              check (waitForAddressToBeReported (env_select env) (GetNode (Some client) (env_read_file env))
                       n assignedAddress cfg)
                (wrap ''waiting for node to report assigned address'' []) (\<lambda>_.
              remove_taint env client assigner n cfg)
            else ret ()) id (\<lambda>_ w.
     let w1 = env_done env w in
     (if ReleaseOnExit cfg then check (releaseIP (env_clock env) assigner n) id (\<lambda>_. ret ()) w1
      else (Ok (), w1))))))))"

text \<open>\<open>runCmd\<close>: the logger's level, the configuration from the command line, and the run.\<close>

definition runCmd ::
  "('w, 'k) environment \<Rightarrow> 'w go_context \<Rightarrow> cli_context \<Rightarrow> ('w, unit) prog" where
  "runCmd env ctx c = run_agent env ctx (NewConfig c)"

subsection \<open>Retries\<close>

text \<open>\<open>n\<close> rounds that all went on to a tick of the ticker.\<close>

inductive silent_rounds ::
  "'w selector \<Rightarrow> ('w, 'a option) prog \<Rightarrow> nat \<Rightarrow> 'w \<Rightarrow> 'w \<Rightarrow> bool" for select body where
  no_round: "silent_rounds select body 0 w w"
| a_round: "body w = (Ok None, w1) \<Longrightarrow> select w1 = (None, w2) \<Longrightarrow> silent_rounds select body n w2 w' \<Longrightarrow>
    silent_rounds select body (Suc n) w w'"

inductive_cases silent_rounds_SucE: "silent_rounds select body (Suc n) w w'"
inductive_simps silent_rounds_0 [simp]: "silent_rounds select body 0 w w'"

lemma retry_ticks_ok_rounds:
  "retry_ticks R what select body c w = (Ok x, w') \<Longrightarrow>
     \<exists>n w1. int (c + n) \<le> sint R \<and> silent_rounds select body n w w1 \<and> body w1 = (Ok (Some x), w')"
proof (induction R what select body c w rule: retry_ticks.induct)
  case (1 R what select body c w)
  from "1.prems" have c: "int c \<le> sint R"
    by (subst (asm) retry_ticks.simps) (simp split: if_splits)
  obtain r w1 where b: "body w = (r, w1)" by (cases "body w")
  with "1.prems" c obtain y where r: "r = Ok y"
    by (subst (asm) retry_ticks.simps) (cases r, auto)
  show ?case
  proof (cases y)
    case (Some z)
    with "1.prems" c b r have "body w = (Ok (Some x), w')"
      by (subst (asm) retry_ticks.simps) simp
    with c show ?thesis by (intro exI [of _ 0]) auto
  next
    case None
    obtain d w2 where s: "select w1 = (d, w2)" by (cases "select w1")
    with "1.prems" c b r None have d: "d = None" and
      rec: "retry_ticks R what select body (Suc c) w2 = (Ok x, w')"
      by (cases d; subst (asm) retry_ticks.simps; simp)+
    have "\<exists>n w1. int (Suc c + n) \<le> sint R \<and> silent_rounds select body n w2 w1 \<and>
        body w1 = (Ok (Some x), w')"
      by (rule "1.IH" [where x = "Ok None" and y = w1 and xa = None and ya = w2])
        (use c b r None s d rec in simp_all)
    then obtain n w3 where "int (Suc c + n) \<le> sint R" "silent_rounds select body n w2 w3"
      "body w3 = (Ok (Some x), w')" by blast
    with a_round [of body w w1 select w2 n w3] b r None s d show ?thesis
      by (intro exI [of _ "Suc n"]) auto
  qed
qed

lemma rounds_retry_ticks:
  "silent_rounds select body n w w1 \<Longrightarrow> int (c + n) \<le> sint R + 1 \<Longrightarrow>
     retry_ticks R what select body c w = retry_ticks R what select body (c + n) w1"
proof (induction n arbitrary: c w)
  case (Suc n)
  then obtain v v2 where "body w = (Ok None, v)" "select v = (None, v2)"
    and r: "silent_rounds select body n v2 w1"
    by (auto elim: silent_rounds_SucE)
  with Suc.prems have "retry_ticks R what select body c w = retry_ticks R what select body (Suc c) v2"
    by (subst retry_ticks.simps) simp
  with Suc.IH [OF r, of "Suc c"] Suc.prems show ?case by simp
qed simp

lemma retry_ticks_Ok_iff:
  "retry_ticks R what select body c w = (Ok x, w') \<longleftrightarrow>
     (\<exists>n w1. int (c + n) \<le> sint R \<and> silent_rounds select body n w w1 \<and> body w1 = (Ok (Some x), w'))"
proof
  assume "\<exists>n w1. int (c + n) \<le> sint R \<and> silent_rounds select body n w w1 \<and> body w1 = (Ok (Some x), w')"
  then obtain n w1 where n: "int (c + n) \<le> sint R" "silent_rounds select body n w w1"
    "body w1 = (Ok (Some x), w')" by blast
  then have "retry_ticks R what select body c w = retry_ticks R what select body (c + n) w1"
    by (intro rounds_retry_ticks) simp_all
  with n show "retry_ticks R what select body c w = (Ok x, w')"
    by (subst (asm) (2) retry_ticks.simps) simp
qed (rule retry_ticks_ok_rounds)

lemma retry_ticks_exhausted:
  assumes "silent_rounds select body n w w1" "int n = sint R + 1"
  shows "retry_ticks R what select body 0 w = (Fail (new_error ''reached maximum number of retries'' []), w1)"
proof -
  have "retry_ticks R what select body 0 w = retry_ticks R what select body n w1"
    using rounds_retry_ticks [OF assms(1), of 0 R what] assms(2) by simp
  with assms(2) show ?thesis by (subst (asm) (2) retry_ticks.simps) simp
qed

lemma NewTicker_ok [simp]: "0 < sint d \<Longrightarrow> NewTicker d = Ok ()"
  by (simp add: NewTicker_cases)

lemma NewTicker_panic [simp]: "sint d \<le> 0 \<Longrightarrow> NewTicker d = Abort Panic"
  by (simp add: NewTicker_cases)

lemma NewTicker_Ok_iff [simp]: "NewTicker d = Ok u \<longleftrightarrow> 0 < sint d"
  by (simp add: NewTicker_cases)

subsection \<open>Assigning under the lock\<close>

lemma deferred_snd:
  "fst (m w) \<noteq> Abort OutOfFuel \<Longrightarrow> snd (deferred m d w) = snd (d (snd (m w)))"
  by (auto simp: deferred_def split: prod.splits result.splits abort.splits)

lemma deferred_Ok:
  assumes "deferred m d w = (Ok x, w')"
  shows "\<exists>w1. m w = (Ok x, w1) \<and> snd (d w1) = w'"
proof (cases "m w")
  case (Pair r w1)
  show ?thesis
  proof (cases r)
    case (Ok y)
    with assms Pair show ?thesis by (auto simp: deferred_def split: prod.splits result.splits)
  next
    case (Fail e)
    with assms Pair show ?thesis by (auto simp: deferred_def split: prod.splits result.splits)
  next
    case (Abort a)
    with assms Pair show ?thesis
      by (cases a) (auto simp: deferred_def split: prod.splits result.splits)
  qed
qed

lemma check_pure_snd:
  "(\<And>x w. snd (k x w) = w) \<Longrightarrow> snd (check m f k w) = snd (m w)"
  by (auto simp: check_def attempt_def split: prod.splits result.splits)

text \<open>C6. The lock is always given back: once \<open>Lock\<close> has succeeded, the world after an attempt is the one
  that \<open>Unlock\<close> leaves after exactly one call of the assigner, whether that call returned an address,
  an error or panicked; and without the lock the assigner is not called at all.\<close>

theorem assign_holds_lock:
  assumes "locked_assign lock unlock assign w = (r, w')" "r \<noteq> Abort OutOfFuel"
  shows "(if fst (lock w) = Ok () then w' = snd (unlock (snd (assign (snd (lock w)))))
          else w' = snd (lock w) \<and> (\<forall>ip. r \<noteq> Ok ip))"
proof -
  let ?body = "check assign id (\<lambda>(ip, err). case err of Some e \<Rightarrow> throw e | None \<Rightarrow> ret ip)"
  obtain l w1 where l: "lock w = (l, w1)" by (cases "lock w")
  show ?thesis
  proof (cases l)
    case (Ok u)
    with l have d: "locked_assign lock unlock assign w = deferred ?body unlock w1"
      by (simp add: locked_assign_def)
    with assms have "fst (?body w1) \<noteq> Abort OutOfFuel"
      by (auto simp: deferred_def split: prod.splits)
    from deferred_snd [where m = ?body, OF this, of unlock] have "w' = snd (unlock (snd (?body w1)))"
      using assms(1) d by simp
    moreover have "snd (?body w1) = snd (assign w1)"
      by (rule check_pure_snd) (auto split: option.split)
    ultimately show ?thesis using l Ok by simp
  qed (use l assms(1) in \<open>auto simp: locked_assign_def\<close>)
qed

lemma assign_holds_lock_witness:
  "snd (locked_assign (\<lambda>w. (Ok (), True # w)) (\<lambda>w. (Ok (), False # w)) (abort Panic) []) = [False, True]"
proof -
  have "locked_assign (\<lambda>w. (Ok (), True # w)) (\<lambda>w. (Ok (), False # w)) (abort Panic :: (bool list, _) prog) []
      = (Abort Panic, [False, True])"
    by (simp add: locked_assign_def deferred_def check_def attempt_def)
  from assign_holds_lock [OF this] this show ?thesis by simp
qed

lemma locked_assign_Ok:
  assumes "locked_assign lock unlock assign s = (Ok ip, s')"
  shows "\<exists>s1 s2. lock s = (Ok (), s1) \<and> assign s1 = (Ok (ip, None), s2) \<and> snd (unlock s2) = s'"
proof -
  obtain s1 where "lock s = (Ok (), s1)"
    and d: "deferred (check assign id (\<lambda>(ip, err). case err of Some e \<Rightarrow> throw e | None \<Rightarrow> ret ip)) unlock s1
      = (Ok ip, s')"
    using assms by (auto simp: locked_assign_def check_Ok_iff)
  moreover from deferred_Ok [OF d] obtain s2 where "assign s1 = (Ok (ip, None), s2)" "snd (unlock s2) = s'"
    by (auto simp: check_Ok_iff split: option.splits)
  ultimately show ?thesis by blast
qed

definition ended_with :: "string \<Rightarrow> string result \<Rightarrow> bool" where
  "ended_with ip r \<longleftrightarrow>
     r = Ok ip \<or> ip = '''' \<and> (\<exists>e. r = Fail e \<and> errors_is e ErrStaticIPAlreadyAssigned)"

lemma assign_round_Ok_iff:
  "assign_round lock unlock assign w = (Ok (Some ip), w') \<longleftrightarrow>
     (\<exists>r. locked_assign lock unlock assign w = (r, w') \<and> ended_with ip r)"
  by (cases "locked_assign lock unlock assign w")
    (auto simp: assign_round_def ended_with_def attempt_Ok_iff split: if_splits)

text \<open>The lock a node's agent uses.\<close>

definition node_lock :: "Node \<Rightarrow> Config \<Rightarrow> kubeLeaseLock" where
  "node_lock node cfg =
     fst (NewKubeLeaseLock kubeipLockName (LeaseNamespace cfg) (Instance node) (LeaseDuration cfg))"

lemma NewKubeLeaseLock_pair:
  "NewKubeLeaseLock kubeipLockName (LeaseNamespace cfg) (Instance node) (LeaseDuration cfg) =
     (node_lock node cfg, idle_lock)"
  by (simp add: node_lock_def idle_lock_def NewKubeLeaseLock_def)

lemma assignAddress_run:
  assumes "0 < sint (RetryInterval cfg)"
  shows "assignAddress select eb now client ctx a node cfg w =
    (case retry_ticks (RetryAttempts cfg) ''context cancelled while assigning addresses'' (select_world select)
        (address_round eb now client (node_lock node cfg) ctx a node cfg) 0 (idle_lock, w) of
      (r, (_, w')) \<Rightarrow> (r, w'))"
  using assms by (simp add: assignAddress_def NewKubeLeaseLock_pair check_lift split: prod.split)

lemma assignAddress_Ok:
  assumes "assignAddress select eb now client ctx a node cfg w = (Ok ip, w')"
  shows "0 < sint (RetryInterval cfg) \<and>
    (\<exists>n obj1 w1 obj2. int n \<le> sint (RetryAttempts cfg) \<and>
       silent_rounds (select_world select)
         (address_round eb now client (node_lock node cfg) ctx a node cfg) n (idle_lock, w) (obj1, w1) \<and>
       (\<exists>r. locked_assign (kube_Lock eb client now (node_lock node cfg))
              (kube_Unlock client (node_lock node cfg))
              (api (Assign a ctx (Instance node) (Zone node) (Filter cfg) (OrderBy cfg))) (obj1, w1)
            = (r, (obj2, w')) \<and> ended_with ip r))"
proof -
  let ?round = "address_round eb now client (node_lock node cfg) ctx a node cfg"
  from assms have pos: "0 < sint (RetryInterval cfg)"
    by (auto simp: assignAddress_def check_Ok_iff)
  with assms obtain obj2 where
    "retry_ticks (RetryAttempts cfg) ''context cancelled while assigning addresses'' (select_world select)
       ?round 0 (idle_lock, w) = (Ok ip, (obj2, w'))"
    by (auto simp: assignAddress_run split: prod.splits)
  then obtain n obj1 w1 where n: "int n \<le> sint (RetryAttempts cfg)"
    "silent_rounds (select_world select) ?round n (idle_lock, w) (obj1, w1)"
    and round: "?round (obj1, w1) = (Ok (Some ip), (obj2, w'))"
    by (auto simp: retry_ticks_Ok_iff)
  from round [unfolded address_round_def assign_round_Ok_iff] pos n show ?thesis by blast
qed

text \<open>C15. What a successful \<open>assignAddress\<close> has done: the retry interval is positive, and one of the first
  \<open>RetryAttempts + 1\<close> attempts, all the others having failed and been followed by a tick, either
  returned that address under the lock or ended with the error that the instance already has one, in
  which case the result is the empty string.\<close>

theorem assign_address_result:
  assumes "assignAddress select eb now client ctx a node cfg w = (Ok ip, w')"
  shows "0 < sint (RetryInterval cfg) \<and>
    (\<exists>n obj1 w1 obj2. int n \<le> sint (RetryAttempts cfg) \<and>
       silent_rounds (select_world select)
         (address_round eb now client (node_lock node cfg) ctx a node cfg) n (idle_lock, w) (obj1, w1) \<and>
       (\<exists>r. locked_assign (kube_Lock eb client now (node_lock node cfg))
              (kube_Unlock client (node_lock node cfg))
              (api (Assign a ctx (Instance node) (Zone node) (Filter cfg) (OrderBy cfg))) (obj1, w1)
            = (r, (obj2, w')) \<and> ended_with ip r))"
  using assms by (rule assignAddress_Ok)

text \<open>\<open>assignAddress\<close> gives up: if \<open>RetryAttempts + 1\<close> attempts in a row fail, each followed by a tick, it
  returns an error, after exactly that many attempts (one more than the flag's text says).\<close>

theorem assign_address_gives_up:
  assumes "0 < sint (RetryInterval cfg)" "int n = sint (RetryAttempts cfg) + 1"
    and "silent_rounds (select_world select) (address_round eb now client (node_lock node cfg) ctx a node cfg)
           n (idle_lock, w) (obj, w')"
  shows "assignAddress select eb now client ctx a node cfg w =
    (Fail (new_error ''reached maximum number of retries'' []), w')"
  using retry_ticks_exhausted [OF assms(3,2), of "''context cancelled while assigning addresses''"] assms(1)
  by (simp add: assignAddress_run)

text \<open>A retry interval of zero or less, which the flag accepts, crashes the agent: \<open>time.NewTicker\<close>
  panics before the first attempt to assign an address.\<close>

theorem nonpositive_interval_panics:
  assumes "sint (RetryInterval cfg) \<le> 0"
  shows "assignAddress select eb now client ctx a node cfg w = (Abort Panic, w) \<and>
    waitForAddressToBeReported select get_node node ip cfg w = (Abort Panic, w)"
  using assms by (simp add: assignAddress_def waitForAddressToBeReported_def check_lift)

lemma nonpositive_interval_panics_witness:
  "assignAddress select eb now client ctx a node (ex_cfg\<lparr>RetryInterval := 0\<rparr>) w = (Abort Panic, w)"
  using nonpositive_interval_panics [of "ex_cfg\<lparr>RetryInterval := 0\<rparr>" select eb now client ctx a node w]
  by simp

subsection \<open>Waiting for the address\<close>

lemma wait_Ok:
  assumes "waitForAddressToBeReported select get_node node ip cfg w = (Ok (), w')"
  shows "ip \<noteq> '''' \<and> (\<exists>n w1 nd. int n \<le> sint (RetryAttempts cfg) \<and>
    silent_rounds select (report_round get_node (Name node) ip) n w w1 \<and>
    get_node (Name node) w1 = (Ok nd, w') \<and> (\<exists>x \<in> set (ExternalIPs nd). IP_String x = ip))"
proof -
  from assms obtain n w1 where n: "int n \<le> sint (RetryAttempts cfg)"
    "silent_rounds select (report_round get_node (Name node) ip) n w w1"
    and "report_round get_node (Name node) ip w1 = (Ok (Some ()), w')"
    by (auto simp: waitForAddressToBeReported_def check_Ok_iff retry_ticks_Ok_iff)
  then obtain nd where "get_node (Name node) w1 = (Ok nd, w')" "\<exists>x \<in> set (ExternalIPs nd). IP_String x = ip"
    by (auto simp: report_round_def attempt_Ok_iff split: if_splits)
  moreover from this(2) have "ip \<noteq> ''''" using IP_String_nonempty by auto
  ultimately show ?thesis using n by blast
qed


text \<open>C39. Waiting ends successfully only with the address on the node: within \<open>RetryAttempts + 1\<close> looks, the
  last one is a successful discovery of that node that lists an external address whose text is the
  assigned one; so with the empty string as address it never succeeds, whatever the cluster answers.\<close>

theorem wait_ends_with_reported_address:
  assumes "waitForAddressToBeReported select get_node node ip cfg w = (Ok (), w')"
  shows "ip \<noteq> '''' \<and> (\<exists>n w1 nd. int n \<le> sint (RetryAttempts cfg) \<and>
    silent_rounds select (report_round get_node (Name node) ip) n w w1 \<and>
    get_node (Name node) w1 = (Ok nd, w') \<and> (\<exists>x \<in> set (ExternalIPs nd). IP_String x = ip))"
  using assms by (rule wait_Ok)

text \<open>C27. What the comparison of texts in the wait amounts to, for an assigned address that \<open>net.ParseIP\<close>
  reads: a round of the wait ends it exactly when the node, read from the cluster, lists that very IP
  among its external ones and the assigned text is the spelling that Go prints for it. An address in
  any other spelling is therefore never seen, however often the node reports the same IP.\<close>

theorem report_compares_addresses:
  assumes "ParseIP s = Some ip"
  shows "report_round (GetNode client rf) name s w = (Ok (Some ()), w') \<longleftrightarrow>
    s = IP_String ip \<and> (\<exists>nd. GetNode client rf name w = (Ok nd, w') \<and> ip \<in> set (ExternalIPs nd))"
proof -
  have "(\<exists>x \<in> set (ExternalIPs nd). IP_String x = s) \<longleftrightarrow> s = IP_String ip \<and> ip \<in> set (ExternalIPs nd)"
    if "GetNode client rf name w = (Ok nd, w')" for nd
  proof -
    have "x = ip" if "x \<in> set (ExternalIPs nd)" "IP_String x = s" for x
    proof -
      have "length x = 16"
        using node_well_formed [OF \<open>GetNode client rf name w = (Ok nd, w')\<close>] that(1)
        by (simp add: well_formed_node_def)
      with ParseIP_IP_String that(2) assms show ?thesis by (metis option.inject)
    qed
    then show ?thesis by blast
  qed
  then show ?thesis
    by (auto simp: report_round_def attempt_Ok_iff split: if_splits)
qed

subsection \<open>The run\<close>

text \<open>The part of \<open>run\<close> after the address is assigned.\<close>

definition after_assign ::
  "('w, 'k) environment \<Rightarrow> 'w node_client \<Rightarrow> 'w assigner \<Rightarrow> Node \<Rightarrow> Config \<Rightarrow> string \<Rightarrow> ('w, unit) prog" where
  "after_assign env client a n cfg ip =
     check (if TaintKey cfg \<noteq> '''' then
              check (waitForAddressToBeReported (env_select env) (GetNode (Some client) (env_read_file env))
                       n ip cfg)
                (wrap ''waiting for node to report assigned address'' []) (\<lambda>_.
              remove_taint env client a n cfg)
            else ret ()) id (\<lambda>_ w.
     let w1 = env_done env w in
     (if ReleaseOnExit cfg then check (releaseIP (env_clock env) a n) id (\<lambda>_. ret ()) w1
      else (Ok (), w1)))"

text \<open>How far a run has come: the node, its clients, the assigner and the address, and the world then.\<close>

definition assigned_in ::
  "('w, 'k) environment \<Rightarrow> 'w go_context \<Rightarrow> Config \<Rightarrow> 'w \<Rightarrow> 'w node_client \<Rightarrow> 'w assigner \<Rightarrow> Node \<Rightarrow>
   string \<Rightarrow> 'w \<Rightarrow> bool" where
  "assigned_in env ctx cfg w client a n ip w5 \<longleftrightarrow>
     (\<exists>k w1 leases w2 w3 w4. retrieveKubeConfig (env_kube env) cfg w = (Ok k, w1) \<and>
        env_NewForConfig env k w1 = (Ok (client, leases), w2) \<and>
        GetNode (Some client) (env_read_file env) (NodeName cfg) w2 = (Ok n, w3) \<and>
        NewAssigner (env_sdks env) (Cloud n) cfg w3 = (Ok a, w4) \<and>
        assignAddress (env_select env) (env_backoff env) (env_clock env) leases ctx a n cfg w4 = (Ok ip, w5))"

lemma run_agent_assigned:
  "assigned_in env ctx cfg w client a n ip w5 \<Longrightarrow>
     run_agent env ctx cfg w = after_assign env client a n cfg ip w5"
  by (auto simp: assigned_in_def run_agent_def after_assign_def)

lemma run_agent_Ok:
  assumes "run_agent env ctx cfg w = (Ok (), w')"
  obtains client a n ip w5 where "assigned_in env ctx cfg w client a n ip w5"
    "after_assign env client a n cfg ip w5 = (Ok (), w')"
  using assms unfolding run_agent_def assigned_in_def after_assign_def
  by (elim check_OkE) (force split: prod.splits elim: check_OkE)

text \<open>The same surroundings in which patching a node does something else. A run that goes differently in
  them is a run that patches its node.\<close>

definition repatch ::
  "(string \<Rightarrow> string \<Rightarrow> ('w, unit) prog) \<Rightarrow> ('w, 'k) environment \<Rightarrow> ('w, 'k) environment" where
  "repatch P env = env\<lparr>env_NewForConfig := (\<lambda>k. check (env_NewForConfig env k) id
     (\<lambda>(client, leases). ret (client\<lparr>nodes_patch := P\<rparr>, leases)))\<rparr>"

lemma repatch_simps [simp]:
  "env_kube (repatch P env) = env_kube env" "env_read_file (repatch P env) = env_read_file env"
  "env_marshal (repatch P env) = env_marshal env" "env_clock (repatch P env) = env_clock env"
  "env_select (repatch P env) = env_select env" "env_done (repatch P env) = env_done env"
  "env_backoff (repatch P env) = env_backoff env" "env_sdks (repatch P env) = env_sdks env"
  by (simp_all add: repatch_def)

lemma GetNode_repatch [simp]: "GetNode (Some (client\<lparr>nodes_patch := P\<rparr>)) rf name = GetNode (Some client) rf name"
  by (simp add: GetNode_def)

lemma check_neq:
  assumes "check m f k w \<noteq> check m f k' w"
  obtains x w1 where "m w = (Ok x, w1)" "k x w1 \<noteq> k' x w1"
proof (cases "m w")
  case (Pair r w1)
  with assms that show ?thesis by (cases r) auto
qed

lemma check_same: "m w = m' w \<Longrightarrow> check m f k w = check m' f k w"
  by (simp add: check_def attempt_def)

lemma check_id: "check (check m id (\<lambda>x. ret (g x))) f k w = check m f (\<lambda>x. k (g x)) w"
proof (cases "m w")
  case (Pair r w1)
  then show ?thesis by (cases r) simp_all
qed

lemma run_agent_after_assign: "run_agent env ctx cfg =
  check (retrieveKubeConfig (env_kube env) cfg) (wrap ''retrieving kube config'' []) (\<lambda>k.
  check (env_NewForConfig env k) (wrap ''initializing kubernetes client'' []) (\<lambda>(client, leases).
  check (GetNode (Some client) (env_read_file env) (NodeName cfg)) (wrap ''getting node'' []) (\<lambda>n.
  check (NewAssigner (env_sdks env) (Cloud n) cfg) (wrap ''initializing assigner'' []) (\<lambda>a.
  check (assignAddress (env_select env) (env_backoff env) (env_clock env) leases ctx a n cfg)
    (wrap ''assigning static public IP address'' []) (after_assign env client a n cfg)))))"
  by (simp add: run_agent_def after_assign_def [abs_def])

lemma patching_run:
  assumes "run_agent (repatch P env) ctx cfg w \<noteq> run_agent env ctx cfg w"
  obtains client a n ip w5 where "assigned_in env ctx cfg w client a n ip w5"
    "after_assign (repatch P env) (client\<lparr>nodes_patch := P\<rparr>) a n cfg ip w5 \<noteq> after_assign env client a n cfg ip w5"
proof -
  have new: "check (env_NewForConfig (repatch P env) k) f (\<lambda>(client, leases). rest client leases) w1 =
      check (env_NewForConfig env k) f (\<lambda>(client, leases). rest (client\<lparr>nodes_patch := P\<rparr>) leases) w1"
    for k f w1 and rest :: "'a node_client \<Rightarrow> 'a lease_client \<Rightarrow> ('a, unit) prog"
    unfolding repatch_def by (simp add: split_def check_id)
  from assms obtain k w1 client leases w2 n w3 a w4 ip w5 where
    "retrieveKubeConfig (env_kube env) cfg w = (Ok k, w1)"
    "env_NewForConfig env k w1 = (Ok (client, leases), w2)"
    "GetNode (Some client) (env_read_file env) (NodeName cfg) w2 = (Ok n, w3)"
    "NewAssigner (env_sdks env) (Cloud n) cfg w3 = (Ok a, w4)"
    "assignAddress (env_select env) (env_backoff env) (env_clock env) leases ctx a n cfg w4 = (Ok ip, w5)"
    "after_assign (repatch P env) (client\<lparr>nodes_patch := P\<rparr>) a n cfg ip w5 \<noteq> after_assign env client a n cfg ip w5"
    unfolding run_agent_after_assign by (auto simp: new elim!: check_neq)
  with that show thesis unfolding assigned_in_def by blast
qed

text \<open>C7. The taint is removed only from a node that is ready, however the run ends. The taint is removed by
  a patch of the node; a run that patches, one for which it matters what patching does, was asked to
  remove a taint, has a non-empty address in hand, and the wait for it has ended with a reading of its
  node that lists the address among the external ones; and the patch is the one of \<open>RemoveTaintKey\<close> for
  that node and key, called in the world right after that reading.\<close>

theorem taint_removed_when_ready:
  assumes "run_agent (repatch P env) ctx cfg w \<noteq> run_agent env ctx cfg w"
  shows "TaintKey cfg \<noteq> '''' \<and> (\<exists>client a n ip w5 nd v v1.
    assigned_in env ctx cfg w client a n ip w5 \<and> ip \<noteq> '''' \<and>
    waitForAddressToBeReported (env_select env) (GetNode (Some client) (env_read_file env)) n ip cfg w5 = (Ok (), v1) \<and>
    GetNode (Some client) (env_read_file env) (Name n) v = (Ok nd, v1) \<and>
    (\<exists>x \<in> set (ExternalIPs nd). IP_String x = ip) \<and>
    RemoveTaintKey (client\<lparr>nodes_patch := P\<rparr>) (env_marshal env) n (TaintKey cfg) v1 \<noteq>
      RemoveTaintKey client (env_marshal env) n (TaintKey cfg) v1)"
proof -
  from assms obtain client a n ip w5 where as: "assigned_in env ctx cfg w client a n ip w5"
    and ne: "after_assign (repatch P env) (client\<lparr>nodes_patch := P\<rparr>) a n cfg ip w5 \<noteq> after_assign env client a n cfg ip w5"
    by (rule patching_run)
  let ?wait = "waitForAddressToBeReported (env_select env) (GetNode (Some client) (env_read_file env)) n ip cfg"
  let ?taints = "\<lambda>env client. check ?wait (wrap ''waiting for node to report assigned address'' [])
      (\<lambda>_. remove_taint env client a n cfg)"
  have key: "TaintKey cfg \<noteq> ''''" using ne by (auto simp: after_assign_def Let_def split: if_splits)
  let ?tail = "\<lambda>_ w. let w1 = env_done env w in
      if ReleaseOnExit cfg then check (releaseIP (env_clock env) a n) id (\<lambda>_. ret ()) w1 else (Ok (), w1)"
  have "after_assign (repatch P env) (client\<lparr>nodes_patch := P\<rparr>) a n cfg ip w5 =
      check (?taints (repatch P env) (client\<lparr>nodes_patch := P\<rparr>)) id ?tail w5"
    unfolding after_assign_def repatch_simps GetNode_repatch using key by simp
  moreover have "after_assign env client a n cfg ip w5 = check (?taints env client) id ?tail w5"
    unfolding after_assign_def using key by simp
  ultimately have "?taints (repatch P env) (client\<lparr>nodes_patch := P\<rparr>) w5 \<noteq> ?taints env client w5"
    using ne check_same [where f = id and k = ?tail] by auto
  then obtain v1 where wait: "?wait w5 = (Ok (), v1)"
    and rem: "remove_taint (repatch P env) (client\<lparr>nodes_patch := P\<rparr>) a n cfg v1 \<noteq> remove_taint env client a n cfg v1"
    by (auto elim!: check_neq)
  from rem have "RemoveTaintKey (client\<lparr>nodes_patch := P\<rparr>) (env_marshal env) n (TaintKey cfg) v1 \<noteq>
      RemoveTaintKey client (env_marshal env) n (TaintKey cfg) v1"
    by (auto simp: remove_taint_def attempt_def)
  with wait_Ok [OF wait] wait as key show ?thesis by blast
qed

text \<open>A run that ends without an error and was asked to remove a taint has seen the assigned address on its
  node right before \<open>RemoveTaintKey\<close>, which succeeded.\<close>

lemma successful_run_was_ready:
  assumes "run_agent env ctx cfg w = (Ok (), w')" "TaintKey cfg \<noteq> ''''"
  shows "\<exists>client a n ip w5 nd v v1 b v2. assigned_in env ctx cfg w client a n ip w5 \<and> ip \<noteq> '''' \<and>
    GetNode (Some client) (env_read_file env) (Name n) v = (Ok nd, v1) \<and>
    (\<exists>x \<in> set (ExternalIPs nd). IP_String x = ip) \<and>
    RemoveTaintKey client (env_marshal env) n (TaintKey cfg) v1 = (Ok b, v2)"
proof -
  from assms(1) obtain client a n ip w5 where as: "assigned_in env ctx cfg w client a n ip w5"
    and r: "after_assign env client a n cfg ip w5 = (Ok (), w')" by (rule run_agent_Ok)
  from r assms(2) obtain v1 v2 where
    wait: "waitForAddressToBeReported (env_select env) (GetNode (Some client) (env_read_file env)) n ip cfg w5
      = (Ok (), v1)" and "remove_taint env client a n cfg v1 = (Ok (), v2)"
    by (auto simp: after_assign_def check_Ok_iff)
  then obtain b v3 where "RemoveTaintKey client (env_marshal env) n (TaintKey cfg) v1 = (Ok b, v3)"
    by (auto simp: remove_taint_def attempt_Ok_iff)
  with wait_Ok [OF wait] as show ?thesis by blast
qed

text \<open>A run that ends without an error and is configured to release has made a successful \<open>Unassign\<close>
  call for its own instance as its last step.\<close>

lemma run_agent_releases:
  assumes "run_agent env ctx cfg w = (Ok (), w')" "ReleaseOnExit cfg"
  shows "\<exists>client a n ip w5 v. assigned_in env ctx cfg w client a n ip w5 \<and>
    Unassign a (WithTimeout (env_clock env) (env_clock env (env_done env v)) background (300 * time_Second))
      (Instance n) (Zone n) (env_done env v) = (Ok (), w')"
proof -
  from assms(1) obtain client a n ip w5 where as: "assigned_in env ctx cfg w client a n ip w5"
    and r: "after_assign env client a n cfg ip w5 = (Ok (), w')" by (rule run_agent_Ok)
  from r assms(2) obtain v where "releaseIP (env_clock env) a n (env_done env v) = (Ok (), w')"
    by (auto simp: after_assign_def check_Ok_iff Let_def)
  then have "Unassign a (WithTimeout (env_clock env) (env_clock env (env_done env v)) background (300 * time_Second))
      (Instance n) (Zone n) (env_done env v) = (Ok (), w')"
    by (auto simp: releaseIP_def check_Ok_iff unassignTimeout_def)
  with as show ?thesis by blast
qed

text \<open>C8. A node that already has its address stays tainted: when assigning ends with the empty string, as it
  does when the cloud answers that the address is already assigned, and a taint is to be removed, the
  run fails; its last step is the wait for a report that cannot come, so the taint is not removed and
  the address is not released.\<close>

theorem already_assigned_stays_tainted:
  assumes "assigned_in env ctx cfg w client a n '''' w5" "TaintKey cfg \<noteq> ''''"
  shows "fst (run_agent env ctx cfg w) \<noteq> Ok () \<and>
    snd (run_agent env ctx cfg w) =
      snd (waitForAddressToBeReported (env_select env) (GetNode (Some client) (env_read_file env)) n '''' cfg w5)"
proof -
  let ?wait = "waitForAddressToBeReported (env_select env) (GetNode (Some client) (env_read_file env)) n '''' cfg"
  obtain r w6 where wait: "?wait w5 = (r, w6)" by (cases "?wait w5")
  have "r \<noteq> Ok ()"
  proof
    assume "r = Ok ()"
    with wait have "?wait w5 = (Ok (), w6)" by simp
    from wait_Ok [OF this] show False by simp
  qed
  then have "\<exists>q. q \<noteq> Ok () \<and> after_assign env client a n cfg '''' w5 = (q, w6)"
    using wait assms(2) by (cases r) (auto simp: after_assign_def check_def attempt_def)
  with run_agent_assigned [OF assms(1)] wait show ?thesis by auto
qed

text \<open>An address that is never reported is not released either: when the wait ends with an error, for
  instance because the agent is told to stop, the run ends there, even if it is configured to release
  on exit.\<close>

theorem unreported_address_not_released:
  assumes "assigned_in env ctx cfg w client a n ip w5" "TaintKey cfg \<noteq> ''''"
    and "waitForAddressToBeReported (env_select env) (GetNode (Some client) (env_read_file env)) n ip cfg w5
      = (Fail e, w6)"
  shows "run_agent env ctx cfg w = (Fail (wrap ''waiting for node to report assigned address'' [] e), w6)"
  using run_agent_assigned [OF assms(1)] assms(2,3)
  by (simp add: after_assign_def check_def attempt_def)

text \<open>A taint that cannot be removed costs the node its address: when \<open>RemoveTaintKey\<close> fails the address
  is released, once, and the run reports the failure of the removal, not that of the release.\<close>

theorem taint_failure_releases:
  assumes "RemoveTaintKey client (env_marshal env) n (TaintKey cfg) w = (Fail e, w1)"
    and "\<And>x. fst (Unassign a (WithTimeout (env_clock env) (env_clock env w1) background unassignTimeout)
           (Instance n) (Zone n) w1) \<noteq> Abort x"
  shows "remove_taint env client a n cfg w =
    (Fail (wrap ''removing node taint key'' [] e),
     snd (Unassign a (WithTimeout (env_clock env) (env_clock env w1) background unassignTimeout)
           (Instance n) (Zone n) w1))"
proof -
  let ?u = "Unassign a (WithTimeout (env_clock env) (env_clock env w1) background unassignTimeout)
           (Instance n) (Zone n)"
  obtain r w2 where "?u w1 = (r, w2)" by (cases "?u w1")
  with assms show ?thesis
    by (cases r) (auto simp: remove_taint_def releaseIP_def check_def attempt_def)
qed

subsection \<open>Configuration and logging\<close>

text \<open>Where the kube config comes from: without a path it is the in-cluster one; with a path it is the
  one in that file, and a file that cannot be read or parsed is an error, never a reason to fall back
  to the in-cluster config.\<close>

theorem kube_config_source:
  assumes "\<And>e w1. os_ReadFile src (KubeConfigPath cfg) w = (Fail e, w1) \<Longrightarrow> \<not> errors_is e ErrEmptyPath"
    and "\<And>s e. RESTConfigFromKubeConfig src s = Fail e \<Longrightarrow> \<not> errors_is e ErrEmptyPath"
  shows "retrieveKubeConfig src cfg w = (Ok k, w') \<longleftrightarrow>
    (if KubeConfigPath cfg = '''' then InClusterConfig src w = (Ok k, w')
     else \<exists>content. os_ReadFile src (KubeConfigPath cfg) w = (Ok content, w') \<and>
       RESTConfigFromKubeConfig src content = Ok k)"
proof (cases "KubeConfigPath cfg = ''''")
  case True
  then show ?thesis
    by (auto simp: retrieveKubeConfig_def kubeConfigFromPath_def check_Ok_iff attempt_Ok_iff)
next
  case False
  obtain r w1 where r: "os_ReadFile src (KubeConfigPath cfg) w = (r, w1)"
    by (cases "os_ReadFile src (KubeConfigPath cfg) w")
  show ?thesis
  proof (cases r)
    case (Ok s)
    with False r assms(2) [of s] show ?thesis
      by (cases "RESTConfigFromKubeConfig src s")
        (auto simp: retrieveKubeConfig_def kubeConfigFromPath_def check_def attempt_def)
  qed (use False r assms(1) in \<open>auto simp: retrieveKubeConfig_def kubeConfigFromPath_def check_def attempt_def\<close>)
qed

lemma info_level:
  "is_logged level InfoLevel \<longleftrightarrow> level \<in> {''debug'', ''DEBUG'', ''info'', ''INFO''}"
  by (auto simp: is_logged_def prepareLogger_def less_eq_log_level_def)

text \<open>The agent's information messages are written exactly for the level names \<open>debug\<close> and \<open>info\<close>, all in
  lower case or all in upper case; every other spelling silences them, since it counts as a warning
  level or a quieter one.\<close>

theorem info_logged_iff:
  "is_logged level InfoLevel \<longleftrightarrow> level \<in> {''debug'', ''DEBUG'', ''info'', ''INFO''}"
  by (rule info_level)

text \<open>An address that is already there is forgotten: when the first attempt gets the lock and the
  assigner says that the instance already has an address, by its error alone or by the address with
  the error, \<open>assignAddress\<close> succeeds with the empty string.\<close>

theorem already_assigned_gives_empty:
  assumes "0 < sint (RetryInterval cfg)" "0 \<le> sint (RetryAttempts cfg)"
    and "kube_Lock eb client now (node_lock node cfg) (idle_lock, w) = (Ok (), (obj1, w1))"
    and "Assign a ctx (Instance node) (Zone node) (Filter cfg) (OrderBy cfg) w1 = (r, w2)"
    and "r = Fail e \<or> r = Ok (ip, Some e)" "errors_is e ErrStaticIPAlreadyAssigned"
    and "\<And>x. fst (kube_Unlock client (node_lock node cfg) (obj1, w2)) \<noteq> Abort x"
  shows "fst (assignAddress select eb now client ctx a node cfg w) = Ok ''''"
proof -
  let ?k = "node_lock node cfg"
  obtain q obj3 w3 where u: "kube_Unlock client ?k (obj1, w2) = (q, (obj3, w3))"
    by (metis surj_pair)
  have "locked_assign (kube_Lock eb client now ?k) (kube_Unlock client ?k)
      (api (Assign a ctx (Instance node) (Zone node) (Filter cfg) (OrderBy cfg))) (idle_lock, w) =
      (Fail e, (obj3, w3))"
    using assms(3-5,7) u
    by (cases q) (auto simp: locked_assign_def deferred_def check_def attempt_def)
  then have "address_round eb now client ?k ctx a node cfg (idle_lock, w) = (Ok (Some ''''), (obj3, w3))"
    using assms(6) by (auto simp: address_round_def assign_round_Ok_iff ended_with_def)
  then have "retry_ticks (RetryAttempts cfg) ''context cancelled while assigning addresses'' (select_world select)
      (address_round eb now client ?k ctx a node cfg) 0 (idle_lock, w) = (Ok '''', (obj3, w3))"
    using assms(2) by (subst retry_ticks.simps) simp
  then show ?thesis using assms(1) by (simp add: assignAddress_run)
qed

subsection \<open>A small cluster\<close>

text \<open>One node in Oracle Cloud with the tenancy of theory Oci; the world says whether the reserved IP is
  attached, and the node reports it as external address exactly then.\<close>

definition ex_oci_node :: "bool \<Rightarrow> kube_node" where
  "ex_oci_node w = \<lparr>
     Labels = [(regionLabel, ''fra''), (zoneLabel, ''ad-1'')],
     Annotations = [(ociPoolAnnotation, ''pool'')], ProviderID = ''ocid1.instance.1'',
     Addresses = (if w then [\<lparr>addr_Type = NodeExternalIP, addr_Address = ''130.0.0.1''\<rparr>] else []),
     Taints = [ex_taint ''a'', ex_taint ''b'']\<rparr>"

definition ex_nd :: "bool \<Rightarrow> Node" where
  "ex_nd w = \<lparr>Name = ''node-a'', Instance = ''ocid1.instance.1'', Cloud = CloudProviderOCI, Pool = ''pool'',
     Region = ''fra'', Zone = ''ad-1'', ExternalIPs = (if w then [v4_in_v6 [130, 0, 0, 1]] else []),
     InternalIPs = []\<rparr>"

definition ex_node_client :: "bool node_client" where
  "ex_node_client = \<lparr>nodes_get = (\<lambda>_ w. (Ok (ex_oci_node w), w)), nodes_patch = (\<lambda>_ _. ret ())\<rparr>"

definition ex_leases :: "bool lease_client" where
  "ex_leases = \<lparr>leases_create = (\<lambda>_ _. ret ()), leases_get = (\<lambda>_ _. throw (ApiError NotFound ''get'')),
     leases_update = (\<lambda>_ _. ret ()), leases_delete = (\<lambda>_ _. ret ())\<rparr>"

definition no_file :: "string \<Rightarrow> (bool, string) prog" where
  "no_file = (\<lambda>_. throw (new_error ''no file'' []))"

definition ex_env :: "(bool, unit) environment" where
  "ex_env = \<lparr>
     env_kube = \<lparr>os_ReadFile = no_file, RESTConfigFromKubeConfig = (\<lambda>_. Fail (new_error ''bad'' [])),
        InClusterConfig = ret ()\<rparr>,
     env_NewForConfig = (\<lambda>_. ret (ex_node_client, ex_leases)), env_read_file = no_file,
     env_marshal = ex_marshal, env_clock = (\<lambda>_. 0), env_select = (\<lambda>w. (None, w)),
     env_done = (\<lambda>w. w), env_backoff = simple_backoff, env_sdks = ex_sdks\<rparr>"

definition ex_run_cfg :: Config where
  "ex_run_cfg = ex_cfg\<lparr>TaintKey := ''a'', RetryAttempts := 1\<rparr>"

lemma ex_run: "run_agent ex_env background ex_run_cfg False = (Ok (), False)"
  by code_simp

lemma ex_assign_address:
  "assignAddress (env_select ex_env) (env_backoff ex_env) (env_clock ex_env) ex_leases background ex_assigner
     (ex_nd w) ex_run_cfg w = (Ok (if w then '''' else ''130.0.0.1''), True)"
  by (induction w; code_simp)

lemma ex_assigned:
  "assigned_in ex_env background ex_run_cfg w ex_node_client ex_assigner (ex_nd w)
     (if w then '''' else ''130.0.0.1'') True"
proof -
  have 1: "retrieveKubeConfig (env_kube ex_env) ex_run_cfg w = (Ok (), w)" by (induction w; code_simp)
  have 2: "env_NewForConfig ex_env () w = (Ok (ex_node_client, ex_leases), w)" by (simp add: ex_env_def)
  have 3: "GetNode (Some ex_node_client) (env_read_file ex_env) (NodeName ex_run_cfg) w = (Ok (ex_nd w), w)"
    by (induction w; code_simp)
  have p: "parseOCIFilters (Some ex_run_cfg) = Ok (Some env_filter)" by code_simp
  have 4: "NewAssigner (env_sdks ex_env) (Cloud (ex_nd w)) ex_run_cfg w = (Ok ex_assigner, w)"
    using new_oci_assigner [OF p] by (simp add: ex_env_def ex_nd_def ex_run_cfg_def)
  from 1 2 3 4 ex_assign_address show ?thesis unfolding assigned_in_def by blast
qed

text \<open>With a server that refuses the patch the run of the small cluster fails.\<close>

lemma taint_removed_when_ready_witness:
  "\<exists>client a n ip w5. assigned_in ex_env background ex_run_cfg False client a n ip w5 \<and> ip \<noteq> ''''"
proof -
  have "fst (run_agent (repatch (\<lambda>_ _. throw (Sentinel ErrEmptyPath)) ex_env) background ex_run_cfg False) =
      Fail (wrap ''removing node taint key'' [] (wrap ''failed to patch node taints'' [] (Sentinel ErrEmptyPath)))"
    by code_simp
  with ex_run have "run_agent (repatch (\<lambda>_ _. throw (Sentinel ErrEmptyPath)) ex_env) background ex_run_cfg False \<noteq>
      run_agent ex_env background ex_run_cfg False" by auto
  from taint_removed_when_ready [OF this] show ?thesis by blast
qed

lemma report_compares_addresses_witness:
  "report_round (GetNode (Some ex_node_client) no_file) ''n'' ''130.0.0.1'' True = (Ok (Some ()), True) \<and>
   report_round (GetNode (Some ex_node_client) no_file) ''n'' ''2001:db8::7'' True \<noteq> (Ok (Some ()), True)"
proof -
  let ?v4 = "v4_in_v6 [130, 0, 0, 1]" let ?v6 = "[32, 1, 13, 184, 0, 0, 0, 0, 0, 0, 0, 0, 0, 0, 0, 7] :: byte list"
  have n: "GetNode (Some ex_node_client) no_file ''n'' True = (Ok (ex_nd True\<lparr>Name := ''n''\<rparr>), True)" by code_simp
  have e: "ExternalIPs (ex_nd True\<lparr>Name := ''n''\<rparr>) = [?v4]" by code_simp
  have t: "IP_String ?v4 = ''130.0.0.1''" by code_simp
  have p: "ParseIP ''130.0.0.1'' = Some ?v4" "ParseIP ''2001:db8::7'' = Some ?v6"
    using ParseIP_IP_String [of ?v4] ParseIP_IP_String [of ?v6]
    by (simp_all only: t ex_ipv6_text) (simp_all add: v4_in_v6_def)
  have v: "?v6 \<noteq> ?v4" by (simp add: v4_in_v6_def numeral_eq_Suc)
  note seen = report_compares_addresses [where client = "Some ex_node_client" and rf = no_file
      and name = "''n''" and w = True and w' = True]
  have "report_round (GetNode (Some ex_node_client) no_file) ''n'' ''130.0.0.1'' True = (Ok (Some ()), True)"
    using n e t by (subst seen [OF p(1)]) simp
  moreover have "report_round (GetNode (Some ex_node_client) no_file) ''n'' ''2001:db8::7'' True
      \<noteq> (Ok (Some ()), True)"
    using n e v by (subst seen [OF p(2)]) simp
  ultimately show ?thesis by (rule conjI)
qed

lemma already_assigned_stays_tainted_witness:
  "fst (run_agent ex_env background ex_run_cfg True) \<noteq> Ok ()"
  using already_assigned_stays_tainted [OF ex_assigned [of True, simplified]]
  by (simp add: ex_run_cfg_def)

lemma unreported_address_not_released_witness:
  "run_agent ex_env background ex_run_cfg True =
     (Fail (wrap ''waiting for node to report assigned address'' []
        (new_error ''reached maximum number of retries'' [])), True)"
proof (rule unreported_address_not_released [OF ex_assigned [of True]])
  show "waitForAddressToBeReported (env_select ex_env) (GetNode (Some ex_node_client) (env_read_file ex_env))
      (ex_nd True) (if True then '''' else ''130.0.0.1'') ex_run_cfg True =
      (Fail (new_error ''reached maximum number of retries'' []), True)"
    by code_simp
qed (simp add: ex_run_cfg_def)

lemma taint_failure_releases_witness:
  "\<exists>e. remove_taint ex_env ex_node_client ex_assigner (ex_nd True) (ex_run_cfg\<lparr>TaintKey := ''b''\<rparr>) True = (Fail e, False)"
proof -
  have r: "RemoveTaintKey ex_node_client (env_marshal ex_env) (ex_nd True) (TaintKey (ex_run_cfg\<lparr>TaintKey := ''b''\<rparr>)) True
      = (Fail (wrap ''failed to marshal new taints'' [] (new_error ''unsupported'' [])), True)"
    by code_simp
  have u: "Unassign ex_assigner (WithTimeout (env_clock ex_env) (env_clock ex_env True) background unassignTimeout)
      (Instance (ex_nd True)) (Zone (ex_nd True)) True = (Ok (), False)"
    by code_simp
  show ?thesis using taint_failure_releases [OF r, of ex_assigner] u by simp
qed

lemma kube_config_source_witness:
  "retrieveKubeConfig (env_kube ex_env) ex_run_cfg True = (Ok (), True)"
  by (subst kube_config_source) (auto simp: ex_env_def ex_run_cfg_def ex_cfg_def no_file_def)

lemma assign_address_result_witness:
  "\<exists>n. int n \<le> sint (RetryAttempts ex_run_cfg) \<and> (\<exists>s. silent_rounds (select_world (env_select ex_env))
     (address_round (env_backoff ex_env) (env_clock ex_env) ex_leases (node_lock (ex_nd False) ex_run_cfg)
        background ex_assigner (ex_nd False) ex_run_cfg) n (idle_lock, False) s)"
  using assign_address_result [OF ex_assign_address [of False]] by blast

lemma already_assigned_gives_empty_witness:
  "fst (assignAddress (env_select ex_env) simple_backoff (\<lambda>_. 0) ex_leases background ex_assigner
     (ex_nd True) ex_run_cfg True) = Ok ''''"
proof (rule already_assigned_gives_empty [where e = "Sentinel ErrStaticIPAlreadyAssigned"])
  have "lock_attempt ex_leases (\<lambda>_. 0) (node_lock (ex_nd True) ex_run_cfg) (idle_lock, True) =
      (Ok True, (started idle_lock, True))"
    by (simp add: lock_attempt_True_iff acquired_def ex_leases_def)
  then show "kube_Lock simple_backoff ex_leases (\<lambda>_. 0) (node_lock (ex_nd True) ex_run_cfg) (idle_lock, True)
      = (Ok (), (started idle_lock, True))"
    by (simp add: kube_Lock_def simple_backoff_first)
  show "Assign ex_assigner background (Instance (ex_nd True)) (Zone (ex_nd True)) (Filter ex_run_cfg)
      (OrderBy ex_run_cfg) True = (Ok (''130.0.0.1'', Some (Sentinel ErrStaticIPAlreadyAssigned)), True)"
    by code_simp
qed (simp_all add: ex_run_cfg_def ex_cfg_def kube_Unlock_def cancel_renewal_def check_def attempt_def
    ex_leases_def)

lemma assign_address_gives_up_witness:
  "fst (assignAddress (\<lambda>w. (None, w)) simple_backoff (\<lambda>_. 0) ex_leases background
     (oci_assigner (oci_services ex_oci_compute ex_oci (Some (env_filter\<lparr>FreeformTags := Some [(''env'', ''dev'')]\<rparr>)) ''c''))
     (ex_nd False) (ex_run_cfg\<lparr>RetryAttempts := 0\<rparr>) False) =
   Fail (new_error ''reached maximum number of retries'' [])"
proof -
  let ?a = "oci_assigner (oci_services ex_oci_compute ex_oci (Some (env_filter\<lparr>FreeformTags := Some [(''env'', ''dev'')]\<rparr>)) ''c'')"
  let ?cfg = "ex_run_cfg\<lparr>RetryAttempts := 0\<rparr>"
  let ?sel = "select_world (\<lambda>w. (None, w))"
  let ?round = "address_round simple_backoff (\<lambda>_. 0) ex_leases (node_lock (ex_nd False) ?cfg) background ?a
    (ex_nd False) ?cfg"
  let ?obj = "\<lparr>cancelFunc = Some 0, renewers = [False]\<rparr>"
  have b: "?round (idle_lock, False) = (Ok None, (?obj, False))" by code_simp
  have "silent_rounds ?sel ?round (Suc 0) (idle_lock, False) (?obj, False)"
    by (rule a_round [where body = ?round and ?w2.0 = "(?obj, False)", OF b])
      (simp_all add: select_world_def)
  from assign_address_gives_up [OF _ _ this] show ?thesis
    by (simp add: ex_run_cfg_def ex_cfg_def)
qed

lemma wait_ends_with_reported_address_witness:
  "\<exists>x \<in> set (ExternalIPs (ex_nd True)). IP_String x = ''130.0.0.1''"
proof -
  let ?get = "GetNode (Some ex_node_client) no_file"
  have "waitForAddressToBeReported (\<lambda>w. (None, w)) ?get (ex_nd False) ''130.0.0.1'' ex_run_cfg True = (Ok (), True)"
    by code_simp
  from wait_ends_with_reported_address [OF this] obtain w1 nd where
    g: "?get (Name (ex_nd False)) w1 = (Ok nd, True)" and x: "\<exists>x \<in> set (ExternalIPs nd). IP_String x = ''130.0.0.1''"
    by blast
  have "?get (Name (ex_nd False)) True = (Ok (ex_nd True), True)"
    "?get (Name (ex_nd False)) False = (Ok (ex_nd False), False)" by code_simp+
  with g x show ?thesis by (cases w1) auto
qed

end
