(* ===== verification/Cli.thy ===== *)
theory Cli
  imports Agent
begin

text \<open>
  The command line of cmd/main.go: the table of flags of the \<open>run\<close> command with their environment
  variables and defaults, and what configuration it amounts to. The library that reads the command
  line (urfave/cli) is a parameter; what the agent relies on is that a flag that is given neither as
  an argument nor in the environment has its declared value.
\<close>

datatype flag_value =
    StringValue string
  | PathValue string
  | BoolValue bool
  | DurationValue go_int
  | IntValue go_int
  | StringSliceValue "string list"

record cli_flag =
  flag_Name :: string
  flag_EnvVar :: string
  flag_Value :: flag_value
  flag_Category :: string

definition SliceFlagSeparator :: string where "SliceFlagSeparator = '';''"

definition run_flags :: "cli_flag list" where
  "run_flags = [
   \<lparr>flag_Name = ''node-name'', flag_EnvVar = ''NODE_NAME'', flag_Value = StringValue '''', flag_Category = ''Configuration''\<rparr>,
   \<lparr>flag_Name = ''project'', flag_EnvVar = ''PROJECT'', flag_Value = StringValue '''', flag_Category = ''Configuration''\<rparr>,
   \<lparr>flag_Name = ''region'', flag_EnvVar = ''REGION'', flag_Value = StringValue '''', flag_Category = ''Configuration''\<rparr>,
   \<lparr>flag_Name = ''ipv6'', flag_EnvVar = ''IPV6'', flag_Value = BoolValue False, flag_Category = ''Configuration''\<rparr>,
   \<lparr>flag_Name = ''kubeconfig'', flag_EnvVar = ''KUBECONFIG'', flag_Value = PathValue '''', flag_Category = ''Configuration''\<rparr>,
   \<lparr>flag_Name = ''retry-interval'', flag_EnvVar = ''RETRY_INTERVAL'', flag_Value = DurationValue defaultRetryInterval, flag_Category = ''Configuration''\<rparr>,
   \<lparr>flag_Name = ''filter'', flag_EnvVar = ''FILTER'', flag_Value = StringSliceValue [], flag_Category = ''Configuration''\<rparr>,
   \<lparr>flag_Name = ''order-by'', flag_EnvVar = ''ORDER_BY'', flag_Value = StringValue '''', flag_Category = ''Configuration''\<rparr>,
   \<lparr>flag_Name = ''retry-attempts'', flag_EnvVar = ''RETRY_ATTEMPTS'', flag_Value = IntValue defaultRetryAttempts, flag_Category = ''Configuration''\<rparr>,
   \<lparr>flag_Name = ''lease-duration'', flag_EnvVar = ''LEASE_DURATION'', flag_Value = IntValue defaultLeaseDuration, flag_Category = ''Configuration''\<rparr>,
   \<lparr>flag_Name = ''lease-namespace'', flag_EnvVar = ''LEASE_NAMESPACE'', flag_Value = StringValue ''default'', flag_Category = ''Configuration''\<rparr>,
   \<lparr>flag_Name = ''release-on-exit'', flag_EnvVar = ''RELEASE_ON_EXIT'', flag_Value = BoolValue True, flag_Category = ''Configuration''\<rparr>,
   \<lparr>flag_Name = ''taint-key'', flag_EnvVar = ''TAINT_KEY'', flag_Value = StringValue '''', flag_Category = ''Configuration''\<rparr>,
   \<lparr>flag_Name = ''log-level'', flag_EnvVar = ''LOG_LEVEL'', flag_Value = StringValue ''info'', flag_Category = ''Logging''\<rparr>,
   \<lparr>flag_Name = ''json'', flag_EnvVar = ''LOG_JSON'', flag_Value = BoolValue False, flag_Category = ''Logging''\<rparr>,
   \<lparr>flag_Name = ''develop-mode'', flag_EnvVar = ''DEV_MODE'', flag_Value = BoolValue False, flag_Category = ''Development''\<rparr>]"

text \<open>A command-line context in which a flag has its declared value.\<close>

fun has_value :: "cli_context \<Rightarrow> string \<Rightarrow> flag_value \<Rightarrow> bool" where
  "has_value c name (StringValue s) = (cli_String c name = s)"
| "has_value c name (PathValue s) = (cli_String c name = s)"
| "has_value c name (BoolValue b) = (cli_Bool c name = b)"
| "has_value c name (DurationValue d) = (cli_Duration c name = d)"
| "has_value c name (IntValue i) = (cli_Int c name = i)"
| "has_value c name (StringSliceValue l) = (cli_StringSlice c name = l)"

definition all_defaults :: "cli_context \<Rightarrow> bool" where
  "all_defaults c \<longleftrightarrow> (\<forall>f \<in> set run_flags. has_value c (flag_Name f) (flag_Value f))"

lemma run_flags_distinct:
  "distinct (map flag_Name run_flags) \<and> distinct (map flag_EnvVar run_flags)"
  by code_simp

text \<open>The default configuration: with no flag given, \<open>NewConfig\<close> yields 61 attempts one minute apart, a
  lease of five seconds in the namespace \<open>default\<close>, release on exit and no taint, no filter and no
  order; the log level lets information messages through; and these values are good for every later
  step: the retry ticker does not panic, and the lease's time to live and its renewal period do not
  wrap around.\<close>

theorem default_configuration:
  assumes "all_defaults c"
  shows "NewConfig c = \<lparr>KubeConfigPath = [], NodeName = [], Project = [], cfg_Region = [], IPv6 = False,
      DevelopMode = False, Filter = [], OrderBy = [], RetryInterval = 60000000000, RetryAttempts = 60,
      ReleaseOnExit = True, LeaseDuration = 5, LeaseNamespace = ''default'', TaintKey = []\<rparr> \<and>
    NewTicker (RetryInterval (NewConfig c)) = Ok () \<and>
    NewTicker (renew_period (node_lock n (NewConfig c))) = Ok () \<and>
    sint (lease_ttl (node_lock n (NewConfig c))) = 5000000000 \<and>
    is_logged (cli_String c ''log-level'') InfoLevel"
proof -
  have cfg: "NewConfig c = \<lparr>KubeConfigPath = [], NodeName = [], Project = [], cfg_Region = [], IPv6 = False,
      DevelopMode = False, Filter = [], OrderBy = [], RetryInterval = 60000000000, RetryAttempts = 60,
      ReleaseOnExit = True, LeaseDuration = 5, LeaseNamespace = ''default'', TaintKey = []\<rparr>"
    and level: "cli_String c ''log-level'' = ''info''"
    using assms
    by (simp_all add: all_defaults_def run_flags_def NewConfig_def defaultRetryInterval_def
        defaultRetryAttempts_def defaultLeaseDuration_def time_Second_def)
  have "leaseDuration (node_lock n (NewConfig c)) = 5"
    by (simp add: cfg node_lock_def NewKubeLeaseLock_def)
  then have "sint (renew_period (node_lock n (NewConfig c))) = 2500000000"
    "sint (lease_ttl (node_lock n (NewConfig c))) = 5000000000"
    by (simp_all add: renew_period_exact lease_ttl_exact)
  then show ?thesis
    using cfg level by (simp add: info_level)
qed

definition default_context :: cli_context where
  "default_context = \<lparr>
     cli_String = (\<lambda>n. if n = ''lease-namespace'' then ''default'' else if n = ''log-level'' then ''info'' else []),
     cli_Bool = (\<lambda>n. n = ''release-on-exit''),
     cli_Duration = (\<lambda>n. if n = ''retry-interval'' then defaultRetryInterval else 0),
     cli_Int = (\<lambda>n. if n = ''retry-attempts'' then defaultRetryAttempts
                    else if n = ''lease-duration'' then defaultLeaseDuration else 0),
     cli_StringSlice = (\<lambda>_. [])\<rparr>"

lemma default_configuration_witness:
  "RetryAttempts (NewConfig default_context) = 60 \<and> LeaseDuration (NewConfig default_context) = 5"
proof -
  have "all_defaults default_context"
    by (simp add: all_defaults_def run_flags_def default_context_def)
  from default_configuration [OF this] show ?thesis by simp
qed

end
