(* ===== verification/Clouds.thy ===== *)
theory Clouds
  imports Agent
begin

text \<open>
  The agent on each cloud: what \<open>run\<close> (cmd/main.go) has done to the cloud once it has an address, and
  once it has given it back, by composing the agent's theorems with those of the assigners of
  internal/address that the factory makes.
\<close>

subsection \<open>What the factory makes\<close>

text \<open>The clients are those that the constructors of the SDKs returned when the factory called them, in
  the world \<open>u\<close> in which it ran.\<close>

lemma factory_aws:
  assumes "NewAssigner sdk CloudProviderAWS cfg u = (Ok a, u')"
  shows "\<exists>client. sdk_aws_load sdk (cfg_Region cfg) u = (Ok client, u') \<and>
    a = aws_assigner (sdk_sort sdk) (aws_services client (sdk_map_order sdk) (cfg_Region cfg))"
  using assms by (auto simp: NewAssigner_def NewAwsAssigner_def check_Ok_iff)

lemma factory_azure:
  assumes "NewAssigner sdk CloudProviderAzure cfg u = (Ok a, u')"
  shows "a = azure_assigner"
  using assms by (auto simp: NewAssigner_def cloud_providers_neq)

text \<open>Where the project and the region of the GCP assigner come from: the configuration, or else the
  metadata server.\<close>

definition gcp_place :: "'w metadata_server \<Rightarrow> Config \<Rightarrow> 'w \<Rightarrow> string \<Rightarrow> string \<Rightarrow> bool" where
  "gcp_place md cfg u project region \<longleftrightarrow> (\<exists>u1 u2.
     (if Project cfg = '''' then metadata_ProjectID md u = (Ok project, u1) else project = Project cfg \<and> u1 = u) \<and>
     (if cfg_Region cfg = '''' then \<exists>location. region = zone_to_region location \<and>
        metadata_InstanceAttributeValue md ''cluster-location'' u1 = (Ok location, u2)
      else region = cfg_Region cfg))"

lemma factory_gcp:
  assumes "NewAssigner sdk CloudProviderGCP cfg u = (Ok a, u')"
  shows "\<exists>client project region u1. sdk_gcp_NewService sdk u = (Ok client, u1) \<and>
    gcp_place (sdk_gcp_metadata sdk) cfg u1 project region \<and>
    a = gcp_assigner (sdk_fuel sdk) (gcp_services client (sdk_clock sdk) project region (IPv6 cfg))"
proof -
  from assms obtain client u1 project u2 region u3 where 1: "sdk_gcp_NewService sdk u = (Ok client, u1)"
    and 2: "(if Project cfg = '''' then metadata_ProjectID (sdk_gcp_metadata sdk) else ret (Project cfg)) u1
      = (Ok project, u2)"
    and 3: "(if cfg_Region cfg = ''''
       then check (metadata_InstanceAttributeValue (sdk_gcp_metadata sdk) ''cluster-location'') id
         (\<lambda>region. ret (zone_to_region region)) else ret (cfg_Region cfg)) u2 = (Ok region, u3)"
    and a: "a = gcp_assigner (sdk_fuel sdk) (gcp_services client (sdk_clock sdk) project region (IPv6 cfg))"
    by (simp add: NewAssigner_def NewGCPAssigner_def cloud_providers_neq check_Ok_iff) blast
  from 2 3 have "gcp_place (sdk_gcp_metadata sdk) cfg u1 project region"
    unfolding gcp_place_def by (intro exI [of _ u2] exI [of _ u3]) (auto simp: check_Ok_iff split: if_splits)
  with 1 a show ?thesis by blast
qed

lemma factory_oci:
  assumes "NewAssigner sdk CloudProviderOCI cfg u = (Ok a, u')"
  shows "\<exists>compute client u1 m. parse_oci_loop (Filter cfg) [] = Ok m \<and>
    sdk_oci_compute sdk u = (Ok compute, u1) \<and> sdk_oci_network sdk u1 = (Ok client, u') \<and>
    a = oci_assigner (oci_services compute client
      (Some \<lparr>FreeformTags = Some m, DefinedTags = None\<rparr>) (Project cfg))"
  using assms
  by (auto simp: NewAssigner_def NewOCIAssigner_def NewOCIInstanceService_def NewOCINetworkService_def
      cloud_providers_neq check_Ok_iff parseOCIFilters_def rcheck_Ok_iff Let_def)

subsection \<open>An address in hand\<close>

text \<open>How a run starts: its kube config, the clients made from it, its node, and the assigner that the
  factory makes in the world \<open>u\<close>.\<close>

definition started_with ::
  "('w, 'k) environment \<Rightarrow> Config \<Rightarrow> 'w \<Rightarrow> 'w node_client \<Rightarrow> 'w lease_client \<Rightarrow> Node \<Rightarrow> 'w \<Rightarrow> 'w assigner \<Rightarrow>
   'w \<Rightarrow> bool" where
  "started_with env cfg w client leases n u a u' \<longleftrightarrow>
     (\<exists>k w1 w2. retrieveKubeConfig (env_kube env) cfg w = (Ok k, w1) \<and>
        env_NewForConfig env k w1 = (Ok (client, leases), w2) \<and>
        GetNode (Some client) (env_read_file env) (NodeName cfg) w2 = (Ok n, u) \<and>
        NewAssigner (env_sdks env) (Cloud n) cfg u = (Ok a, u'))"

lemma assigned_in_started:
  "assigned_in env ctx cfg w client a n ip w5 \<longleftrightarrow> (\<exists>leases u u'. started_with env cfg w client leases n u a u' \<and>
     assignAddress (env_select env) (env_backoff env) (env_clock env) leases ctx a n cfg u' = (Ok ip, w5))"
  unfolding assigned_in_def started_with_def by blast

text \<open>An address that a run has in hand was assigned in one call of the assigner between a \<open>Lock\<close> that
  succeeded, with the node's own lock, and its \<open>Unlock\<close>.\<close>

lemma assigned_under_lock:
  assumes "assignAddress (env_select env) (env_backoff env) (env_clock env) leases ctx a n cfg w4 = (Ok ip, w5)"
    and "ip \<noteq> ''''"
  shows "\<exists>o1 v o2 v1 v2.
    kube_Lock (env_backoff env) leases (env_clock env) (node_lock n cfg) (o1, v) = (Ok (), (o2, v1)) \<and>
    Assign a ctx (Instance n) (Zone n) (Filter cfg) (OrderBy cfg) v1 = (Ok (ip, None), v2) \<and>
    snd (snd (kube_Unlock leases (node_lock n cfg) (o2, v2))) = w5"
proof -
  from assignAddress_Ok [OF assms(1)] obtain o1 v r o3 where
    l: "locked_assign (kube_Lock (env_backoff env) leases (env_clock env) (node_lock n cfg))
        (kube_Unlock leases (node_lock n cfg))
        (api (Assign a ctx (Instance n) (Zone n) (Filter cfg) (OrderBy cfg))) (o1, v) = (r, (o3, w5))"
      "ended_with ip r" by blast
  then have "r = Ok ip" using assms(2) by (simp add: ended_with_def)
  from locked_assign_Ok [OF l(1) [unfolded this]] obtain o2 v1 s2 where
    "kube_Lock (env_backoff env) leases (env_clock env) (node_lock n cfg) (o1, v) = (Ok (), (o2, v1))"
    "api (Assign a ctx (Instance n) (Zone n) (Filter cfg) (OrderBy cfg)) (o2, v1) = (Ok (ip, None), s2)"
    "snd (kube_Unlock leases (node_lock n cfg) s2) = (o3, w5)" by auto
  then show ?thesis by (cases s2) (force simp: api_def split: prod.splits)
qed

text \<open>What has happened to the cloud between \<open>v1\<close> and \<open>v2\<close> when \<open>Assign\<close> returned an address without an
  error, in terms of calls to the client that the SDK gave to the run in \<open>u\<close>.\<close>

definition attached ::
  "('w, 'k) environment \<Rightarrow> 'w go_context \<Rightarrow> Config \<Rightarrow> Node \<Rightarrow> string \<Rightarrow> 'w \<Rightarrow> 'w \<Rightarrow> 'w \<Rightarrow> bool" where
  "attached env ctx cfg n ip u v1 v2 \<longleftrightarrow> (let sdk = env_sdks env in
     Cloud n = CloudProviderAWS \<and> (\<exists>client u'. sdk_aws_load sdk (cfg_Region cfg) u = (Ok client, u') \<and>
       aws_associated client (sdk_map_order sdk) (cfg_Region cfg) (Instance n) (Filter cfg) ip v2) \<or>
     Cloud n = CloudProviderGCP \<and> (\<exists>client u' project region. sdk_gcp_NewService sdk u = (Ok client, u') \<and>
       gcp_place (sdk_gcp_metadata sdk) cfg u' project region \<and>
       gcp_attached (sdk_fuel sdk) client (sdk_clock sdk) project region (IPv6 cfg) ctx
         (Instance n) (Zone n) (Filter cfg) (OrderBy cfg) ip v1 v2) \<or>
     Cloud n = CloudProviderOCI \<and> (\<exists>compute client u' u'' m. parse_oci_loop (Filter cfg) [] = Ok m \<and>
       sdk_oci_compute sdk u = (Ok compute, u') \<and> sdk_oci_network sdk u' = (Ok client, u'') \<and>
       oci_attached compute client m (Project cfg) (Instance n) ip v1 v2))"

lemma started_cloud:
  assumes "started_with env cfg w client leases n u a u'"
  shows "NewAssigner (env_sdks env) (Cloud n) cfg u = (Ok a, u')"
    "Cloud n \<in> {CloudProviderAWS, CloudProviderAzure, CloudProviderGCP, CloudProviderOCI}"
  using assms unfolding started_with_def by (auto dest: GetNode_known_cloud)

lemma value_only_Ok: "value_only m w = (Ok (x, err), w') \<Longrightarrow> m w = (Ok x, w')"
  by (auto simp: value_only_def check_Ok_iff)

lemma assign_attaches:
  assumes made: "NewAssigner (env_sdks env) (Cloud n) cfg u = (Ok a, u')"
    and known: "Cloud n \<in> {CloudProviderAWS, CloudProviderAzure, CloudProviderGCP, CloudProviderOCI}"
    and sort: "slice_sort (sdk_sort (env_sdks env))" and ip: "ip \<noteq> ''''"
    and call: "Assign a ctx (Instance n) (Zone n) (Filter cfg) (OrderBy cfg) v1 = (Ok (ip, None), v2)"
  shows "attached env ctx cfg n ip u v1 v2"
proof -
  consider (aws) "Cloud n = CloudProviderAWS" | (azure) "Cloud n = CloudProviderAzure"
    | (gcp) "Cloud n = CloudProviderGCP" | (oci) "Cloud n = CloudProviderOCI"
    using known by blast
  then show ?thesis
  proof cases
    case aws
    from factory_aws [OF made [unfolded aws]] obtain client where
      c: "sdk_aws_load (env_sdks env) (cfg_Region cfg) u = (Ok client, u')" and
      "a = aws_assigner (sdk_sort (env_sdks env))
        (aws_services client (sdk_map_order (env_sdks env)) (cfg_Region cfg))" by blast
    with call have "aws_associated client (sdk_map_order (env_sdks env)) (cfg_Region cfg) (Instance n) (Filter cfg) ip v2"
      by (auto simp: aws_assigner_def dest!: value_only_Ok intro: aws_Assign_associates [OF sort])
    with c aws show ?thesis unfolding attached_def Let_def by blast
  next
    case azure
    from factory_azure [OF made [unfolded azure]] call ip show ?thesis
      by (simp add: azure_assigner_def azureAssigner_Assign_def)
  next
    case gcp
    from factory_gcp [OF made [unfolded gcp]] obtain client project region u1 where
      c: "sdk_gcp_NewService (env_sdks env) u = (Ok client, u1)"
        "gcp_place (sdk_gcp_metadata (env_sdks env)) cfg u1 project region" and
      "a = gcp_assigner (sdk_fuel (env_sdks env))
        (gcp_services client (sdk_clock (env_sdks env)) project region (IPv6 cfg))" by blast
    with call have "gcp_Assign (sdk_fuel (env_sdks env))
        (gcp_services client (sdk_clock (env_sdks env)) project region (IPv6 cfg)) ctx (Instance n) (Zone n)
        (Filter cfg) (OrderBy cfg) v1 = (Ok ip, v2)"
      by (auto simp: gcp_assigner_def dest!: value_only_Ok)
    from gcp_Assign_attaches [OF this ip] c gcp show ?thesis unfolding attached_def Let_def by blast
  next
    case oci
    from factory_oci [OF made [unfolded oci]] obtain compute client u1 m where
      c: "parse_oci_loop (Filter cfg) [] = Ok m" "sdk_oci_compute (env_sdks env) u = (Ok compute, u1)"
        "sdk_oci_network (env_sdks env) u1 = (Ok client, u')"
      and "a = oci_assigner (oci_services compute client
        (Some \<lparr>FreeformTags = Some m, DefinedTags = None\<rparr>) (Project cfg))" by blast
    with call have "oci_attached compute client m (Project cfg) (Instance n) ip v1 v2"
      by (auto simp: oci_assigner_def intro: oci_Assign_attaches)
    with c oci show ?thesis unfolding attached_def Let_def by blast
  qed
qed

text \<open>C2. The address a run has in hand is attached to its node. When \<open>assignAddress\<close> gives a started run an
  address that is not empty, then between a \<open>Lock\<close> with the node's own lock and the \<open>Unlock\<close> that
  followed, calls to the client of the node's cloud, the one made for this run, have attached it: on
  AWS a free address that passes the filters was associated with the instance, on Google Cloud a
  reserved address was added to it or the one it uses was found, on Oracle Cloud an available IP with
  the configured tags was pointed at the primary private IP of its VNIC. On Azure no run ever has an
  address in hand.\<close>

theorem assigned_address_is_attached:
  assumes "started_with env cfg w client leases n u a u'"
    and "assignAddress (env_select env) (env_backoff env) (env_clock env) leases ctx a n cfg u' = (Ok ip, w5)"
    and "ip \<noteq> ''''" "slice_sort (sdk_sort (env_sdks env))"
  shows "Cloud n \<noteq> CloudProviderAzure \<and> (\<exists>o1 v o2 v1 v2.
    kube_Lock (env_backoff env) leases (env_clock env) (node_lock n cfg) (o1, v) = (Ok (), (o2, v1)) \<and>
    attached env ctx cfg n ip u v1 v2 \<and>
    snd (snd (kube_Unlock leases (node_lock n cfg) (o2, v2))) = w5)"
proof -
  obtain o1 v o2 v1 v2 where
    lock: "kube_Lock (env_backoff env) leases (env_clock env) (node_lock n cfg) (o1, v) = (Ok (), (o2, v1))"
    and call: "Assign a ctx (Instance n) (Zone n) (Filter cfg) (OrderBy cfg) v1 = (Ok (ip, None), v2)"
    and unlock: "snd (snd (kube_Unlock leases (node_lock n cfg) (o2, v2))) = w5"
    using assigned_under_lock [OF assms(2,3)] by blast
  from assign_attaches [OF started_cloud [OF assms(1)] assms(4,3) call]
  have "attached env ctx cfg n ip u v1 v2" .
  moreover from this have "Cloud n \<noteq> CloudProviderAzure"
    by (auto simp: attached_def Let_def cloud_providers_neq)
  ultimately show ?thesis using lock unlock by blast
qed

lemma ex_started:
  "started_with ex_env ex_run_cfg w ex_node_client ex_leases (ex_nd w) w ex_assigner w"
proof -
  have 1: "retrieveKubeConfig (env_kube ex_env) ex_run_cfg w = (Ok (), w)" by (induction w; code_simp)
  have 2: "env_NewForConfig ex_env () w = (Ok (ex_node_client, ex_leases), w)" by (simp add: ex_env_def)
  have 3: "GetNode (Some ex_node_client) (env_read_file ex_env) (NodeName ex_run_cfg) w = (Ok (ex_nd w), w)"
    by (induction w; code_simp)
  have p: "parseOCIFilters (Some ex_run_cfg) = Ok (Some env_filter)" by code_simp
  have 4: "NewAssigner (env_sdks ex_env) (Cloud (ex_nd w)) ex_run_cfg w = (Ok ex_assigner, w)"
    using new_oci_assigner [OF p] by (simp add: ex_env_def ex_nd_def ex_run_cfg_def)
  from 1 2 3 4 show ?thesis unfolding started_with_def by blast
qed

lemma assigned_address_is_attached_witness:
  "\<exists>o1 v o2 v1 v2.
    kube_Lock (env_backoff ex_env) ex_leases (env_clock ex_env) (node_lock (ex_nd False) ex_run_cfg) (o1, v)
      = (Ok (), (o2, v1)) \<and>
    attached ex_env background ex_run_cfg (ex_nd False) ''130.0.0.1'' False v1 v2 \<and>
    snd (snd (kube_Unlock ex_leases (node_lock (ex_nd False) ex_run_cfg) (o2, v2))) = True"
proof -
  have "slice_sort (sdk_sort (env_sdks ex_env))"
    using insertion.slice_sort_axioms by (simp add: ex_env_def ex_sdks_def)
  from assigned_address_is_attached [OF ex_started ex_assign_address [of False, simplified] _ this]
  show ?thesis by simp
qed

subsection \<open>Giving the address back\<close>

text \<open>What \<open>Unassign\<close> has done between \<open>v\<close> and \<open>v'\<close>, through the client made for the run in \<open>u\<close>.\<close>

definition detached ::
  "('w, 'k) environment \<Rightarrow> 'w go_context \<Rightarrow> Config \<Rightarrow> Node \<Rightarrow> 'w \<Rightarrow> 'w \<Rightarrow> 'w \<Rightarrow> bool" where
  "detached env c cfg n u v v' \<longleftrightarrow> (let sdk = env_sdks env in
     Cloud n = CloudProviderAWS \<and> (\<exists>client u'. sdk_aws_load sdk (cfg_Region cfg) u = (Ok client, u') \<and>
       aws_disassociated client (sdk_map_order sdk) (Instance n) v v') \<or>
     Cloud n = CloudProviderAzure \<and> v' = v \<or>
     Cloud n = CloudProviderGCP \<and> (\<exists>client u' project region. sdk_gcp_NewService sdk u = (Ok client, u') \<and>
       gcp_place (sdk_gcp_metadata sdk) cfg u' project region \<and>
       gcp_released (sdk_fuel sdk) client (sdk_clock sdk) project region (IPv6 cfg) c (Instance n) (Zone n) v v') \<or>
     Cloud n = CloudProviderOCI \<and> (\<exists>compute client u' u'' m. parse_oci_loop (Filter cfg) [] = Ok m \<and>
       sdk_oci_compute sdk u = (Ok compute, u') \<and> sdk_oci_network sdk u' = (Ok client, u'') \<and>
       oci_detached (oci_services compute client (Some \<lparr>FreeformTags = Some m, DefinedTags = None\<rparr>)
         (Project cfg)) (Instance n) v v'))"

lemma unassign_detaches:
  assumes made: "NewAssigner (env_sdks env) (Cloud n) cfg u = (Ok a, u')"
    and known: "Cloud n \<in> {CloudProviderAWS, CloudProviderAzure, CloudProviderGCP, CloudProviderOCI}"
    and call: "Unassign a c (Instance n) (Zone n) v = (Ok (), v')"
  shows "detached env c cfg n u v v'"
proof -
  consider (aws) "Cloud n = CloudProviderAWS" | (azure) "Cloud n = CloudProviderAzure"
    | (gcp) "Cloud n = CloudProviderGCP" | (oci) "Cloud n = CloudProviderOCI"
    using known by blast
  then show ?thesis
  proof cases
    case aws
    from factory_aws [OF made [unfolded aws]] call aws show ?thesis
      unfolding detached_def Let_def by (auto simp: aws_assigner_def dest: aws_Unassign_disassociates)
  next
    case azure
    from factory_azure [OF made [unfolded azure]] call azure show ?thesis
      by (simp add: detached_def azure_assigner_def azureAssigner_Unassign_def)
  next
    case gcp
    from factory_gcp [OF made [unfolded gcp]] call gcp gcp_Unassign_releases show ?thesis
      unfolding detached_def Let_def by (fastforce simp: gcp_assigner_def)
  next
    case oci
    from factory_oci [OF made [unfolded oci]] call oci oci_Unassign_detaches show ?thesis
      unfolding detached_def Let_def by (fastforce simp: oci_assigner_def)
  qed
qed

text \<open>C26. What a run that is configured to release has done when it ends without an error: after the end
  of its context it made one \<open>Unassign\<close>, under the time limit of five minutes, for its own instance and
  through the client made for this run. On AWS that has disassociated the instance's first associated
  address, and on Oracle Cloud it has detached the reserved IP of its VNIC. On Google Cloud it has
  replaced the instance's static address by an ephemeral one, or changed nothing if no in-use address
  names the instance as its user; on Azure it changes nothing.\<close>

theorem released_address_is_detached:
  assumes "run_agent env ctx cfg w = (Ok (), w')" "ReleaseOnExit cfg"
  shows "\<exists>client leases n u a u' ip w5 v. started_with env cfg w client leases n u a u' \<and>
    assignAddress (env_select env) (env_backoff env) (env_clock env) leases ctx a n cfg u' = (Ok ip, w5) \<and>
    detached env (WithTimeout (env_clock env) (env_clock env (env_done env v)) background (300 * time_Second))
      cfg n u (env_done env v) w'"
proof -
  obtain client a n ip w5 v where as: "assigned_in env ctx cfg w client a n ip w5"
    and call: "Unassign a (WithTimeout (env_clock env) (env_clock env (env_done env v)) background (300 * time_Second))
      (Instance n) (Zone n) (env_done env v) = (Ok (), w')"
    using run_agent_releases [OF assms] by blast
  from as obtain leases u u' where st: "started_with env cfg w client leases n u a u'"
    and "assignAddress (env_select env) (env_backoff env) (env_clock env) leases ctx a n cfg u' = (Ok ip, w5)"
    unfolding assigned_in_started by blast
  with unassign_detaches [OF started_cloud [OF st] call] show ?thesis by blast
qed

lemma released_address_is_detached_witness:
  "\<exists>client leases n u a u' v. started_with ex_env ex_run_cfg False client leases n u a u' \<and>
    detached ex_env (WithTimeout (env_clock ex_env) (env_clock ex_env (env_done ex_env v)) background
      (300 * time_Second)) ex_run_cfg n u (env_done ex_env v) False"
proof -
  have "ReleaseOnExit ex_run_cfg" by (simp add: ex_run_cfg_def ex_cfg_def)
  from released_address_is_detached [OF ex_run this] show ?thesis by blast
qed

end
