(* ===== verification/Progress.thy ===== *)
theory Progress
  imports Aws Gcp Oci
begin

text \<open>
  When an assigner finds an address. The theorems of Aws, Gcp and Oci say what a successful \<open>Assign\<close>
  has done; those here say that it succeeds: when one of the listed candidates can be attached, the
  loop returns the address of a listed candidate, and that candidate is the one attached in the world
  it leaves, whatever happens to the others. \<open>I\<close> is in each of them what the calls that read or fail
  leave unchanged about the world, \<open>C\<close> what holds of the listed candidates, and \<open>J b\<close> what holds of the
  world once \<open>b\<close> has been attached.
\<close>

subsection \<open>AWS\<close>

lemma deref_ips_Ok: "(\<forall>x \<in> set xs. PublicIp x \<noteq> None) \<Longrightarrow> \<exists>ips. deref_ips xs = Ok ips"
  by (induction xs) auto

lemma settles_fail_with_ip:
  "PublicIp x = Some ip \<Longrightarrow> settles I (fail_with_ip x mk) Q I"
  by (simp add: fail_with_ip_def settles_def)

lemma yields_aws_assign_loop:
  assumes "\<And>x. x \<in> set xs \<Longrightarrow> C x \<and> PublicIp x \<noteq> None \<and> AllocationId x \<noteq> None"
    and tried: "\<And>x b. x \<in> set xs \<Longrightarrow> AllocationId x = Some b \<Longrightarrow>
      settles I (aws_tryAssignAddress a x ni iid) (\<lambda>_. J b) I"
    and "x \<in> set xs" "AllocationId x = Some al" "yields I (aws_tryAssignAddress a x ni iid) (\<lambda>_. J al)"
  shows "yields I (aws_assign_loop a ni iid xs err) (\<lambda>r w. fst r = None \<and>
    (\<exists>y b. C y \<and> PublicIp y = Some (snd r) \<and> AllocationId y = Some b \<and> J b w))"
  using assms
proof (induction xs arbitrary: err)
  case Nil
  then show ?case by simp
next
  case (Cons y ys)
  let ?Q = "\<lambda>r w. fst r = None \<and> (\<exists>y b. C y \<and> PublicIp y = Some (snd r) \<and> AllocationId y = Some b \<and> J b w)"
  from Cons.prems(1) [of y] obtain ip b where y: "C y" "PublicIp y = Some ip" "AllocationId y = Some b" by auto
  then have fin: "yields (J b) (ret (None, ip)) ?Q" by (intro yields_ret) auto
  have "yields I (attempt (aws_tryAssignAddress a y ni iid)
      (\<lambda>e. aws_assign_loop a ni iid ys (Some e)) (\<lambda>_. ret (None, ip))) ?Q"
  proof (cases "x = y")
    case True
    with Cons.prems(4) y have "b = al" by simp
    with True Cons.prems(5) fin show ?thesis by (auto intro: yields_attempt_Ok)
  next
    case False
    with Cons.prems have "yields I (aws_assign_loop a ni iid ys (Some e)) ?Q" for e
      by (intro Cons.IH) auto
    with Cons.prems(2) [OF _ y(3)] fin show ?thesis by (auto intro: yields_attempt)
  qed
  with y show ?case by (auto simp: yields_def)
qed

lemma settles_aws_tryAssign:
  assumes "PublicIp x \<noteq> None" "AllocationId x = Some al"
    and "\<And>f. yields I (eipLister a f True) (\<lambda>_. I)"
    and "settles I (eipAssigner_assign a ni al) (\<lambda>_. J al) I"
  shows "settles I (aws_tryAssignAddress a x ni iid) (\<lambda>_. J al) I"
proof -
  from assms(1,2) obtain ip where x: "PublicIp x = Some ip" "AllocationId x = Some al" by auto
  have "yields I (forceCheckAddressAssigned a al) (\<lambda>_. I)"
    unfolding forceCheckAddressAssigned_def
    by (auto intro!: yields_check [OF assms(3)] yields_ret split: list.split)
  moreover have "settles I (attempt (eipAssigner_assign a ni al)
      (\<lambda>e. fail_with_ip x (mk e)) (\<lambda>_. ret ())) (\<lambda>_. J al) I" for mk
    by (intro settles_attempt [OF assms(4)] settles_fail_with_ip [OF x(1)] yields_settles yields_ret) simp
  ultimately have "settles I (attempt (forceCheckAddressAssigned a al) (\<lambda>e. fail_with_ip x (mk1 e))
      (\<lambda>b. if b then fail_with_ip x mk2 else attempt (eipAssigner_assign a ni al)
         (\<lambda>e. fail_with_ip x (mk3 e)) (\<lambda>_. ret ()))) (\<lambda>_. J al) I" for mk1 mk2 mk3
    by (intro settles_attempt [OF yields_settles]) (auto intro: settles_fail_with_ip [OF x(1)])
  with x show ?thesis by (simp add: aws_tryAssignAddress_def settles_def)
qed

lemma yields_aws_tryAssign:
  assumes "AllocationId x = Some al" "yields I (eipLister a [(''allocation-id'', [al])] True) (\<lambda>ys w. ys = [] \<and> I w)"
    and "yields I (eipAssigner_assign a ni al) (\<lambda>_. J)"
  shows "yields I (aws_tryAssignAddress a x ni iid) (\<lambda>_. J)"
proof -
  have "yields I (forceCheckAddressAssigned a al) (\<lambda>b w. \<not> b \<and> I w)"
    unfolding forceCheckAddressAssigned_def
    by (auto intro!: yields_check [OF assms(2)] yields_ret split: list.split)
  then have "yields I (attempt (forceCheckAddressAssigned a al) h
      (\<lambda>b. if b then m else attempt (eipAssigner_assign a ni al) h' (\<lambda>_. ret ()))) (\<lambda>_. J)" for h h' m
    by (rule yields_attempt_Ok) (auto intro: yields_attempt_Ok [OF assms(3)] yields_ret)
  with assms(1) show ?thesis by (simp add: aws_tryAssignAddress_def yields_def)
qed

abbreviation candidates :: "string \<Rightarrow> ec2_address list \<Rightarrow> bool" where
  "candidates al ys \<equiv> (\<exists>y \<in> set ys. AllocationId y = Some al) \<and>
     (\<forall>y \<in> set ys. PublicIp y \<noteq> None \<and> AllocationId y \<noteq> None)"

lemma yields_getAvailable:
  assumes "slice_sort big" and "parse_filters filt [] = Ok fs"
    and "yields I (eipLister a fs False) (\<lambda>ys w. (candidates al ys \<and> (\<forall>y \<in> set ys. C y) \<and>
      (\<exists>zs. sortAddressesByField big ys ob = Ok zs)) \<and> I w)"
  shows "yields I (getAvailableElasticIPs big a filt ob)
    (\<lambda>ys w. (candidates al ys \<and> (\<forall>y \<in> set ys. C y)) \<and> I w)"
  unfolding getAvailableElasticIPs_def
proof (rule yields_check_lift [OF assms(2)], rule yields_check_pure [OF assms(3)])
  fix ys :: "ec2_address list"
  assume *: "candidates al ys \<and> (\<forall>y \<in> set ys. C y) \<and> (\<exists>zs. sortAddressesByField big ys ob = Ok zs)"
  then obtain zs where zs: "sortAddressesByField big ys ob = Ok zs" by blast
  from mset_eq_setD [OF sortAddressesByField_perm [OF assms(1) zs]] *
  have ok: "candidates al zs \<and> (\<forall>y \<in> set zs. C y)" by simp
  then obtain ips where "deref_ips zs = Ok ips" using deref_ips_Ok by blast
  moreover from * have "ys \<noteq> []" by auto
  ultimately show "yields I (if ys = [] then throw (new_error ''no available elastic IPs'' [])
      else check (lift (sortAddressesByField big ys ob)) id
        (\<lambda>zs. check (lift (deref_ips zs)) id (\<lambda>_. ret zs)))
      (\<lambda>ys w. (candidates al ys \<and> (\<forall>y \<in> set ys. C y)) \<and> I w)"
    using zs ok by (simp add: yields_def)
qed

text \<open>C18. \<open>Assign\<close> does not give up while there is an address to be had. Let the filters parse, the instance
  have no address and one primary public interface; let the listing show the address with allocation
  \<open>al\<close> among others, sortable by the configured order, and let \<open>al\<close> be free and attachable whenever it
  is tried. Then, whichever of the other candidates turn out to be taken or fail, \<open>Assign\<close> returns the
  public address of a listed candidate, and it is that candidate's allocation whose association with
  the interface the world is left with: \<open>I\<close> is what the calls that fail or only read leave unchanged,
  \<open>C\<close> what holds of the listed addresses, \<open>J b\<close> of the worlds in which \<open>b\<close> has been associated.\<close>

theorem aws_assign_succeeds:
  assumes "slice_sort big" and "parse_filters filt [] = Ok fs"
    and "yields I (eipLister a [(''instance-id'', [iid])] True) (\<lambda>ys w. ys = [] \<and> I w)"
    and "yields I (eipLister a fs False) (\<lambda>ys w. (candidates al ys \<and> (\<forall>y \<in> set ys. C y) \<and>
      (\<exists>zs. sortAddressesByField big ys ob = Ok zs)) \<and> I w)"
    and "yields I (instanceGetter a iid (aws_region a)) (\<lambda>i w. getNetworkInterfaceID i = Ok ni \<and> I w)"
    and "\<And>f. yields I (eipLister a f True) (\<lambda>_. I)"
    and "\<And>b. settles I (eipAssigner_assign a ni b) (\<lambda>_. J b) I"
    and "yields I (eipLister a [(''allocation-id'', [al])] True) (\<lambda>ys w. ys = [] \<and> I w)"
    and "yields I (eipAssigner_assign a ni al) (\<lambda>_. J al)"
  shows "yields I (aws_Assign big a iid zone filt ob)
    (\<lambda>ip w. \<exists>y b. C y \<and> PublicIp y = Some ip \<and> AllocationId y = Some b \<and> J b w)"
proof -
  let ?Q = "\<lambda>ip w. \<exists>y b. C y \<and> PublicIp y = Some ip \<and> AllocationId y = Some b \<and> J b w"
  have check: "yields I (checkElasticIPAssigned a iid) (\<lambda>_. I)"
    unfolding checkElasticIPAssigned_def
    by (rule yields_check [OF assms(3)]) (auto simp: yields_def)
  have loop: "yields I (aws_assign_loop a ni iid ys None) (\<lambda>r w. fst r = None \<and> ?Q (snd r) w)"
    if ok: "candidates al ys" "\<forall>y \<in> set ys. C y" for ys
  proof -
    from ok(1) obtain x where x: "x \<in> set ys" "AllocationId x = Some al" by blast
    show ?thesis
    proof (rule yields_aws_assign_loop [where J = J and al = al and C = C, OF _ _ x yields_aws_tryAssign [OF x(2) assms(8,9)]])
      fix y assume y: "y \<in> set ys"
      with ok show "C y \<and> PublicIp y \<noteq> None \<and> AllocationId y \<noteq> None" by blast
      then show "settles I (aws_tryAssignAddress a y ni iid) (\<lambda>_. J b) I" if "AllocationId y = Some b" for b
        using assms(6,7) that by (intro settles_aws_tryAssign) auto
    qed
  qed
  show ?thesis unfolding aws_Assign_def
  proof (rule yields_check [OF check], rule yields_check_pure [OF yields_getAvailable [OF assms(1,2,4)]],
      rule yields_check_pure [OF assms(5)])
    fix addresses i assume ok: "candidates al addresses \<and> (\<forall>y \<in> set addresses. C y)"
      and ni: "getNetworkInterfaceID i = Ok ni"
    show "yields I (check (lift (getNetworkInterfaceID i)) (wrap f xs) (\<lambda>n.
        check (aws_assign_loop a n iid addresses None) id (\<lambda>(err, ip).
          case err of Some e \<Rightarrow> throw (mk e) | None \<Rightarrow> ret ip))) ?Q" for f xs mk
      by (rule yields_check_lift [OF ni],
          rule yields_check [OF loop [OF ok [THEN conjunct1] ok [THEN conjunct2]]])
        (auto simp: yields_def split: prod.split option.split)
  qed
qed

text \<open>On the small EC2 the listed address is returned and the world is one in which it is associated.\<close>

lemma aws_assign_succeeds_witness:
  "\<exists>ip. aws_Assign insertionSort_func ex_aws ''i-1'' ''us-east-1a'' [] [] False = (Ok ip, True) \<and> ip = ''100.0.0.1''"
proof -
  note ex = yields_def settles_def aws_services_def ex_ec2_def eipLister_List_def eipAssigner_Assign_def
    ec2InstanceGetter_Get_def ex_address_def
  have "yields Not (aws_Assign insertionSort_func ex_aws ''i-1'' ''us-east-1a'' [] [])
      (\<lambda>ip w. \<exists>(y :: ec2_address) b. PublicIp y = Some ''100.0.0.1'' \<and> PublicIp y = Some ip \<and> AllocationId y = Some b \<and> w)"
  proof (rule aws_assign_succeeds [where al = "''a1''" and ni = "''eni-1''" and fs = "[]"
        and C = "\<lambda>y. PublicIp y = Some ''100.0.0.1''" and J = "\<lambda>_ w. w", OF insertion.slice_sort_axioms])
    show "parse_filters [] [] = Ok []" by simp
  qed (simp_all add: ex check_def attempt_def sortAddressesByField_def HasPrefix_def getNetworkInterfaceID_def
      ex_instance_def primary_public_def ex_bool_eq)
  then show ?thesis by (fastforce simp: yields_def)
qed

subsection \<open>OCI\<close>

lemma yields_oci_assign_loop:
  assumes "priv_Id p = Some priv"
    and "\<And>x. x \<in> set xs \<Longrightarrow> C x \<and> pip_Id x \<noteq> None \<and> IpAddress x \<noteq> None"
    and "\<And>b. settles I (oci_tryAssignAddress a priv b) (\<lambda>_. J b) I"
    and "x \<in> set xs" "pip_Id x = Some pub" "yields I (oci_tryAssignAddress a priv pub) (\<lambda>_. J pub)"
  shows "yields I (oci_assign_loop a p xs)
    (\<lambda>ip w. \<exists>y b. C y \<and> IpAddress y = Some ip \<and> pip_Id y = Some b \<and> J b w)"
  using assms(2,4)
proof (induction xs)
  case Nil
  then show ?case by simp
next
  case (Cons y ys)
  let ?Q = "\<lambda>ip w. \<exists>y b. C y \<and> IpAddress y = Some ip \<and> pip_Id y = Some b \<and> J b w"
  from Cons.prems(1) [of y] obtain b ip where y: "C y" "pip_Id y = Some b" "IpAddress y = Some ip" by auto
  have fin: "yields (J b) (check (lift (deref (IpAddress y))) id ret) ?Q"
    using y by (auto simp: yields_def)
  have "yields I (attempt (oci_tryAssignAddress a priv b)
      (\<lambda>_. check (lift (deref (IpAddress y))) id (\<lambda>_. oci_assign_loop a p ys))
      (\<lambda>_. check (lift (deref (IpAddress y))) id ret)) ?Q"
  proof (cases "x = y")
    case True
    with assms(5) y have "b = pub" by simp
    with assms(6) fin show ?thesis by (auto intro: yields_attempt_Ok)
  next
    case False
    with Cons.prems have "yields I (oci_assign_loop a p ys) ?Q" by (intro Cons.IH) auto
    with y have "yields I (check (lift (deref (IpAddress y))) id (\<lambda>_. oci_assign_loop a p ys)) ?Q"
      by (intro yields_check_lift) auto
    then show ?thesis by (intro yields_attempt [OF assms(3)] fin)
  qed
  with y assms(1) show ?case by (simp add: yields_def)
qed

lemma settles_oci_tryAssign:
  assumes "settles I (n_GetPublicIP a b) (\<lambda>p w. (\<forall>q. p = Some q \<longrightarrow> pip_Id q = Some b) \<and> I w) I"
    and "settles I (n_UpdatePublicIP a b priv) (\<lambda>_. J) I"
  shows "settles I (oci_tryAssignAddress a priv b) (\<lambda>_. J) I"
  unfolding oci_tryAssignAddress_def
proof (rule settles_check_pure [OF assms(1)])
  fix p assume p: "\<forall>q. p = Some q \<longrightarrow> pip_Id q = Some b"
  have upd: "settles I (check (n_UpdatePublicIP a b priv) f (\<lambda>_. ret ())) (\<lambda>_. J) I" for f
    by (rule settles_check [OF assms(2)]) (simp add: settles_def)
  show "settles I (case p of None \<Rightarrow> throw e1
       | Some q \<Rightarrow> if LifecycleState q \<noteq> PublicIpLifecycleStateAvailable then throw e2
           else check (lift (deref (pip_Id q))) id (\<lambda>i. check (n_UpdatePublicIP a i priv) f (\<lambda>_. ret ())))
      (\<lambda>_. J) I" for e1 e2 f
  proof (cases p)
    case (Some q)
    with p have "pip_Id q = Some b" by simp
    with Some show ?thesis by (auto intro: settles_throw settles_check_lift upd [simplified])
  qed (simp add: settles_throw)
qed

lemma yields_oci_tryAssign:
  assumes "yields I (n_GetPublicIP a pub) (\<lambda>p w. (\<exists>q. p = Some q \<and> pip_Id q = Some pub \<and>
      LifecycleState q = PublicIpLifecycleStateAvailable) \<and> I w)"
    and "yields I (n_UpdatePublicIP a pub priv) (\<lambda>_. J)"
  shows "yields I (oci_tryAssignAddress a priv pub) (\<lambda>_. J)"
proof -
  have "yields I (check (n_UpdatePublicIP a pub priv) f (\<lambda>_. ret ())) (\<lambda>_. J)" for f
    by (rule yields_check [OF assms(2)]) (simp add: yields_def)
  then show ?thesis unfolding oci_tryAssignAddress_def
    by (intro yields_check_pure [OF assms(1)]) (auto simp: yields_def)
qed

text \<open>C20. \<open>Assign\<close> of OCI succeeds when it can, for an instance whose primary VNIC has no public address: a
  listed IP object that can be attached whenever it is tried is enough for it to return, without an
  error, the address of a listed object, and it is that object that points at the private IP in the
  world it leaves, whichever of the others have been taken or fail. \<open>I\<close>, \<open>C\<close> and \<open>J\<close> are as for AWS.\<close>

theorem oci_assign_succeeds:
  assumes "yields I (getPrimaryVnicOfInstance a iid)
      (\<lambda>v w. (vnic_Id v = Some vn \<and> vnic_PublicIp v = None) \<and> I w)"
    and "yields I (n_GetPrimaryPrivateIPOfVnic a vn) (\<lambda>p w. priv_Id p = Some priv \<and> I w)"
    and "yields I (fetchPublicIps a True False) (\<lambda>ys w. ((\<exists>y \<in> set ys. pip_Id y = Some pub) \<and>
      (\<forall>y \<in> set ys. C y \<and> pip_Id y \<noteq> None \<and> IpAddress y \<noteq> None)) \<and> I w)"
    and "\<And>b. settles I (n_GetPublicIP a b) (\<lambda>p w. (\<forall>q. p = Some q \<longrightarrow> pip_Id q = Some b) \<and> I w) I"
    and "\<And>b. settles I (n_UpdatePublicIP a b priv) (\<lambda>_. J b) I"
    and "yields I (n_GetPublicIP a pub) (\<lambda>p w. (\<exists>q. p = Some q \<and> pip_Id q = Some pub \<and>
      LifecycleState q = PublicIpLifecycleStateAvailable) \<and> I w)"
    and "yields I (n_UpdatePublicIP a pub priv) (\<lambda>_. J pub)"
  shows "yields I (oci_Assign a iid) (\<lambda>r w. snd r = None \<and>
    (\<exists>y b. C y \<and> IpAddress y = Some (fst r) \<and> pip_Id y = Some b \<and> J b w))"
proof -
  define Q where "Q = (\<lambda>(r :: string \<times> go_error option) w. snd r = None \<and> (\<exists>y b. C y \<and> IpAddress y = Some (fst r) \<and> pip_Id y = Some b \<and> J b w))"
  have tried: "settles I (oci_tryAssignAddress a priv b) (\<lambda>_. J b) I" for b
    by (rule settles_oci_tryAssign [OF assms(4,5)])
  have list: "yields I (if ys = [] then throw e else check (oci_assign_loop a p ys) id (\<lambda>ip. ret (ip, None))) Q"
    if "priv_Id p = Some priv" "x \<in> set ys" "pip_Id x = Some pub"
      "\<forall>y \<in> set ys. C y \<and> pip_Id y \<noteq> None \<and> IpAddress y \<noteq> None" for p x ys e
  proof -
    have "yields I (oci_assign_loop a p ys)
        (\<lambda>ip w. \<exists>y b. C y \<and> IpAddress y = Some ip \<and> pip_Id y = Some b \<and> J b w)"
      by (rule yields_oci_assign_loop [where J = J and C = C and pub = pub, OF that(1) _ tried that(2,3)
            yields_oci_tryAssign [OF assms(6,7)]]) (use that(4) in blast)
    then have "yields I (check (oci_assign_loop a p ys) id (\<lambda>ip. ret (ip, None))) Q"
      by (rule yields_check) (simp add: yields_def Q_def)
    with that(2) show ?thesis by auto
  qed
  have rest: "yields I (check (lift (deref (vnic_Id v))) id (\<lambda>vnicId.
      check (handlePublicIPAlreadyAssignedCase a (Some v)) f1 (\<lambda>alreadyAssigned.
      if alreadyAssigned then m else
      check (n_GetPrimaryPrivateIPOfVnic a vnicId) f2 (\<lambda>privateIP.
      check (lift (deref (priv_Id privateIP))) id (\<lambda>_.
      check (fetchPublicIps a True False) f3 (\<lambda>ys.
      if ys = [] then throw e else check (oci_assign_loop a privateIP ys) id (\<lambda>ip. ret (ip, None)))))))) Q"
    if v: "vnic_Id v = Some vn \<and> vnic_PublicIp v = None" for v m f1 f2 f3 e
  proof (rule yields_check_lift, simp add: v, rule yields_check [of _ _ "\<lambda>b w. \<not> b \<and> I w"])
    show "yields I (handlePublicIPAlreadyAssignedCase a (Some v)) (\<lambda>b w. \<not> b \<and> I w)"
      using v by (simp add: handlePublicIPAlreadyAssignedCase_def yields_def ex_bool_eq)
  qed (auto intro!: yields_assume yields_check_pure [OF assms(2)] yields_check_lift
      yields_check_pure [OF assms(3)] list)
  have "yields I (oci_Assign a iid) Q"
    unfolding oci_Assign_def by (rule yields_check_pure [OF assms(1)]) (rule rest)
  then show ?thesis by (simp add: Q_def)
qed

lemma oci_assign_succeeds_witness:
  "\<exists>ip. oci_Assign (ex_oci_assigner env_filter) ''vm-1'' False = (Ok (ip, None), True) \<and> ip = ''130.0.0.1''"
proof -
  let ?a = "ex_oci_assigner env_filter"
  note ex = yields_def settles_def oci_services_def ex_oci_def ex_oci_compute_def ex_pip_def ex_vnic_def
    svc_GetPublicIP_def svc_UpdatePublicIP_def check_def attempt_def ex_bool_eq
  have "yields Not (oci_Assign ?a ''vm-1'') (\<lambda>r w. snd r = None \<and>
      (\<exists>(y :: PublicIp) b. IpAddress y = Some ''130.0.0.1'' \<and> IpAddress y = Some (fst r) \<and> pip_Id y = Some b \<and> w))"
  proof (rule oci_assign_succeeds [where vn = "''vnic-1''" and priv = "''priv-1''" and pub = "''ip-1''"
        and C = "\<lambda>y. IpAddress y = Some ''130.0.0.1''" and J = "\<lambda>_ w. w"])
    have "getPrimaryVnicOfInstance ?a ''vm-1'' False = (Ok (ex_vnic False), False)" by code_simp
    then show "yields Not (getPrimaryVnicOfInstance ?a ''vm-1'')
        (\<lambda>v w. (vnic_Id v = Some ''vnic-1'' \<and> vnic_PublicIp v = None) \<and> \<not> w)"
      by (auto simp: yields_def ex_vnic_def)
    have "n_GetPrimaryPrivateIPOfVnic ?a ''vnic-1'' False =
        (Ok \<lparr>priv_Id = Some ''priv-1'', priv_IsPrimary = Some True\<rparr>, False)" by code_simp
    then show "yields Not (n_GetPrimaryPrivateIPOfVnic ?a ''vnic-1'') (\<lambda>p w. priv_Id p = Some ''priv-1'' \<and> \<not> w)"
      by (auto simp: yields_def)
    have "fetchPublicIps ?a True False False = (Ok [ex_pip False], False)" by code_simp
    then show "yields Not (fetchPublicIps ?a True False) (\<lambda>ys w. ((\<exists>y \<in> set ys. pip_Id y = Some ''ip-1'') \<and>
        (\<forall>y \<in> set ys. IpAddress y = Some ''130.0.0.1'' \<and> pip_Id y \<noteq> None \<and> IpAddress y \<noteq> None)) \<and> \<not> w)"
      by (auto simp: yields_def ex_pip_def)
  qed (simp_all add: ex)
  then show ?thesis by (force simp: yields_def)
qed

subsection \<open>GCP\<close>

lemma yields_gcp_assign_loop:
  assumes "\<And>w. I w \<Longrightarrow> ctx_Err ctx w = None"
    and "\<And>x. settles I (tryAssignAddress ctx (internal_assigner fuel a) inst (gcp_region a) zone x) (\<lambda>_. J x) I"
    and "\<And>x. x \<in> set xs \<Longrightarrow> C x" "x \<in> set xs"
    and "yields I (tryAssignAddress ctx (internal_assigner fuel a) inst (gcp_region a) zone x) (\<lambda>_. J x)"
  shows "yields I (gcp_assign_loop fuel a ctx inst zone xs err) (\<lambda>ip w. \<exists>y. C y \<and> ip = ga_Address y \<and> J y w)"
  using assms(3,4)
proof (induction xs arbitrary: err)
  case (Cons y ys)
  let ?attempt = "tryAssignAddress ctx (internal_assigner fuel a) inst (gcp_region a) zone y"
  let ?Q = "\<lambda>ip w. \<exists>y. C y \<and> ip = ga_Address y \<and> J y w"
  have fin: "yields (J y) (ret (ga_Address y)) ?Q" using Cons.prems(1) by (intro yields_ret) auto
  have "yields I (attempt ?attempt (\<lambda>e. gcp_assign_loop fuel a ctx inst zone ys (Some e))
      (\<lambda>_. ret (ga_Address y))) ?Q"
  proof (cases "x = y")
    case True
    with assms(5) fin show ?thesis by (auto intro: yields_attempt_Ok)
  next
    case False
    with Cons have "yields I (gcp_assign_loop fuel a ctx inst zone ys (Some e)) ?Q" for e by auto
    then show ?thesis by (intro yields_attempt [OF assms(2)] fin)
  qed
  with assms(1) show ?case by (simp add: yields_def)
qed simp

lemma settles_gcp_tryAssign:
  assumes "settles I (CheckAddressAssigned a region (ga_Name x)) (\<lambda>_. I) I"
    and "settles I (AddInstanceAddress fuel a ctx inst zone (Some x)) (\<lambda>_. J) I"
  shows "settles I (tryAssignAddress ctx (internal_assigner fuel a) inst region zone x) (\<lambda>_. J) I"
proof -
  have "settles I (check (AddInstanceAddress fuel a ctx inst zone (Some x)) f ret) (\<lambda>_. J) I" for f
    by (rule settles_check [OF assms(2)]) (simp add: settles_def)
  then show ?thesis unfolding tryAssignAddress_def internal_assigner_def
    by (auto intro!: settles_check [OF assms(1)] settles_throw)
qed

lemma yields_gcp_tryAssign:
  assumes "yields I (CheckAddressAssigned a region (ga_Name x)) (\<lambda>b w. \<not> b \<and> I w)"
    and "yields I (AddInstanceAddress fuel a ctx inst zone (Some x)) (\<lambda>_. J)"
  shows "yields I (tryAssignAddress ctx (internal_assigner fuel a) inst region zone x) (\<lambda>_. J)"
proof -
  have "yields I (check (AddInstanceAddress fuel a ctx inst zone (Some x)) f ret) (\<lambda>_. J)" for f
    by (rule yields_check [OF assms(2)]) (simp add: yields_def)
  then show ?thesis unfolding tryAssignAddress_def internal_assigner_def
    by (auto intro!: yields_check_pure [OF assms(1)])
qed

text \<open>C19. \<open>Assign\<close> of GCP succeeds when it can, for an instance that uses no static address: a listed address
  \<open>c\<close> that can be added whenever it is tried is enough, provided the context is alive and the
  instance's old address, if it has one, can be deleted. What it returns is the text of a listed
  address, and it is that address that has been added in the world it leaves, whichever of the others
  are in use or fail. \<open>K\<close> says what the API keeps telling about the instance; \<open>I\<close>, \<open>C\<close> and \<open>J\<close> are as for
  AWS.\<close>

theorem gcp_assign_succeeds:
  assumes "\<And>w. I w \<Longrightarrow> ctx_Err ctx w = None"
    and "yields I (gcp_instance_Get a (gcp_project a) zone iid) (\<lambda>i w. K i \<and> I w)"
    and "yields I (listAddresses fuel a [] '''' inUseStatus)
      (\<lambda>xs w. (\<forall>i. K i \<longrightarrow> map_of (createUserMap xs) (SelfLink i) = None) \<and> I w)"
    and "yields I (listAddresses fuel a filt ob reservedStatus)
      (\<lambda>xs w. (c \<in> set xs \<and> (\<forall>x \<in> set xs. C x)) \<and> I w)"
    and "\<And>i w. K i \<Longrightarrow> I w \<Longrightarrow> \<exists>r w'. DeleteInstanceAddress fuel a ctx i zone w = (r, w') \<and>
      I w' \<and> (r = Ok () \<or> (\<exists>e. r = Fail e \<and> errors_is e ErrNoPublicIPAssigned))"
    and "\<And>x :: compute_Address. settles I (CheckAddressAssigned a (gcp_region a) (ga_Name x)) (\<lambda>_. I) I"
    and "\<And>i x. K i \<Longrightarrow> settles I (AddInstanceAddress fuel a ctx i zone (Some x)) (\<lambda>_. J x) I"
    and "yields I (CheckAddressAssigned a (gcp_region a) (ga_Name c)) (\<lambda>b w. \<not> b \<and> I w)"
    and "\<And>i. K i \<Longrightarrow> yields I (AddInstanceAddress fuel a ctx i zone (Some c)) (\<lambda>_. J c)"
  shows "yields I (gcp_Assign fuel a ctx iid zone filt ob) (\<lambda>ip w. \<exists>y. C y \<and> ip = ga_Address y \<and> J y w)"
proof -
  let ?Q = "\<lambda>ip w. \<exists>y. C y \<and> ip = ga_Address y \<and> J y w"
  have tried: "settles I (tryAssignAddress ctx (internal_assigner fuel a) i (gcp_region a) zone x)
      (\<lambda>_. J x) I" if "K i" for i x
    by (intro settles_gcp_tryAssign assms(6) assms(7) [OF that])
  have loop: "yields I (gcp_assign_loop fuel a ctx i zone xs None) ?Q"
    if "K i" "c \<in> set xs" "\<forall>x \<in> set xs. C x" for i xs
    by (rule yields_gcp_assign_loop [where J = J and C = C and x = c, OF assms(1) tried [OF that(1)] _ that(2)
          yields_gcp_tryAssign [OF assms(8) assms(9) [OF that(1)]]]) (use that(3) in blast)+
  have deleted: "yields I (attempt (DeleteInstanceAddress fuel a ctx i zone)
      (\<lambda>e. if errors_is e ErrNoPublicIPAssigned then ret () else throw e) ret) (\<lambda>_. I)"
    if "K i" for i
    unfolding yields_def attempt_def using assms(5) [OF that] by fastforce
  have new: "yields I (gcp_assign_new fuel a ctx iid zone filt ob i) ?Q" if "K i" for i
    unfolding gcp_assign_new_def
  proof (rule yields_check_pure [OF assms(4)])
    fix xs assume c: "c \<in> set xs \<and> (\<forall>x \<in> set xs. C x)"
    then show "yields I (if xs = [] then throw e else
        check (attempt (DeleteInstanceAddress fuel a ctx i zone)
          (\<lambda>e. if errors_is e ErrNoPublicIPAssigned then ret () else throw e) ret) f1 (\<lambda>_.
        check (gcp_instance_Get a (gcp_project a) zone iid) f2 (\<lambda>i.
        gcp_assign_loop fuel a ctx i zone xs None))) ?Q" for e f1 f2
      by (auto intro!: yields_check [OF deleted [OF that]] yields_check_pure [OF assms(2)] loop)
  qed
  have "yields I (checkStaticIPAssigned fuel a zone iid)
      (\<lambda>r w. (\<exists>i. r = (Some i, '''', None) \<and> K i) \<and> I w)"
    unfolding checkStaticIPAssigned_def
    by (intro yields_attempt_Ok [OF assms(2)] yields_assume yields_attempt_Ok [OF assms(3)]) (auto intro: yields_ret)
  then show ?thesis unfolding gcp_Assign_def
    by (rule yields_check_pure) (auto intro!: yields_check_lift new)
qed

lemma ex_gcp_calls:
  "gcp_instance_Get ex_gcp p z i w = (Ok ex_vm, w)"
  "listAddresses 1 ex_gcp [] '''' inUseStatus False = (Ok [], False)"
  "listAddresses 1 ex_gcp [] '''' reservedStatus False = (Ok [ex_static False], False)"
  "CheckAddressAssigned ex_gcp r n w = (Ok w, w)"
  "AddInstanceAddress 1 ex_gcp background ex_vm z (Some x) w = (Ok (), ga_Address x \<noteq> '''')"
  "DeleteInstanceAddress 1 ex_gcp background ex_vm z w = (Ok (), False)"
proof -
  note call = check_def attempt_def gcp_services_def ex_compute_def
  have nif: "getNetworkInterface ex_vm = Ok (hd (NetworkInterfaces ex_vm))"
    by (simp add: getNetworkInterface_def ex_vm_def)
  have fin: "await n a ctx (Some ex_done) z v = (Ok (), v)" for n and a :: "bool gcpAssigner" and ctx v
    by (simp add: await_def waitForOperation_def attempt_def ex_done_def)
  show "gcp_instance_Get ex_gcp p z i w = (Ok ex_vm, w)"
    by (simp add: call instanceGetter_Get_def)
  show "CheckAddressAssigned ex_gcp r n w = (Ok w, w)"
    by (simp add: CheckAddressAssigned_def call addressManager_GetAddress_def ex_static_def
        inUseStatus_def reservedStatus_def)
  show "AddInstanceAddress 1 ex_gcp background ex_vm z (Some x) w = (Ok (), ga_Address x \<noteq> '''')"
    by (simp add: AddInstanceAddress_def nif, simp add: call addressManager_AddAccessConfig_def fin,
        simp add: createAccessConfig_def addressAddressOrEmpty_def)
  have "getAccessConfig (hd (NetworkInterfaces ex_vm)) False = Ok (createAccessConfig None False)"
    by (simp add: getAccessConfig_def ex_vm_def)
  then show "DeleteInstanceAddress 1 ex_gcp background ex_vm z w = (Ok (), False)"
    by (simp add: DeleteInstanceAddress_def nif, simp add: call addressManager_DeleteAccessConfig_def fin)
qed code_simp+

lemma gcp_assign_succeeds_witness:
  "\<exists>ip. gcp_Assign 1 ex_gcp background ''vm-1'' ''us-central1-a'' [] [] False = (Ok ip, True) \<and> ip = ''35.0.0.1''"
proof -
  have "yields Not (gcp_Assign 1 ex_gcp background ''vm-1'' ''us-central1-a'' [] [])
      (\<lambda>ip w. \<exists>y :: compute_Address. ga_Address y = ''35.0.0.1'' \<and> ip = ga_Address y \<and> (w \<or> ga_Address y = ''''))"
    by (rule gcp_assign_succeeds [where K = "\<lambda>i. i = ex_vm" and c = "ex_static False"
          and C = "\<lambda>y. ga_Address y = ''35.0.0.1''" and J = "\<lambda>y w. w \<or> ga_Address y = ''''"])
      (simp_all add: yields_def settles_def ex_gcp_calls ex_bool_eq createUserMap_def del: One_nat_def,
        simp_all add: background_def ex_static_def)
  then show ?thesis by (fastforce simp: yields_def)
qed

end
