(* ===== verification/LeaseTiming.thy ===== *)
theory LeaseTiming
  imports LeaseProtocol
begin

text \<open>
  The lease lock and time (internal/lease/lock.go). The first part follows the renewal times: in every
  run, whatever crashes or expires, the stored lease carries a renewal time that is not in the
  future, and a delayed renewal never sets it back. The second part gives the condition under which
  leases do not expire: no time step makes the stored lease older than its time to live. The third
  part is what the expiry is good for: \<open>Lock\<close> outlasts a holder that is gone, by all its attempts and
  the waits between them; and what it breaks: two agents that find the same lease expired both get
  the lock.

  API calls are instants; time passes in \<open>Pass\<close> steps between them.
\<close>

subsection \<open>Renewal times\<close>

definition clock_laws :: "'w lease_api \<Rightarrow> (nat \<Rightarrow> 'w \<Rightarrow> 'w) \<Rightarrow> kubeLeaseLock \<Rightarrow> bool" where
  "clock_laws A pass k \<longleftrightarrow>
     (\<forall>l w. api_clock A (snd (leases_create (api_client A) (namespace k) l w)) = api_clock A w) \<and>
     (\<forall>w. api_clock A (snd (leases_get (api_client A) (namespace k) (leaseName k) w)) = api_clock A w) \<and>
     (\<forall>l w. api_clock A (snd (leases_update (api_client A) (namespace k) l w)) = api_clock A w) \<and>
     (\<forall>w. api_clock A (snd (leases_delete (api_client A) (namespace k) (leaseName k) w)) = api_clock A w) \<and>
     (\<forall>d w. api_clock A (pass d w) = api_clock A w + int d)"

text \<open>Agents of one configuration: the lease lives \<open>T\<close> seconds for all of them.\<close>

definition timed_setting ::
  "'w lease_api \<Rightarrow> (nat \<Rightarrow> 'w \<Rightarrow> 'w) \<Rightarrow> (nat \<Rightarrow> kubeLeaseLock) \<Rightarrow> int \<Rightarrow> bool" where
  "timed_setting A pass ks T \<longleftrightarrow> setting A pass ks \<and> (\<forall>i. clock_laws A pass (ks i)) \<and>
     1 \<le> T \<and> T \<le> 9223372036 \<and> (\<forall>i. sint (leaseDuration (ks i)) = T)"

text \<open>A lease of the lock with a renewal time in the past and a version that the server has given out;
  and a renewal under way that does not set the stored renewal time back.\<close>

definition stamped :: "'w lease_api \<Rightarrow> string \<Rightarrow> 'w \<Rightarrow> Lease \<Rightarrow> bool" where
  "stamped A nm w l \<longleftrightarrow> lease_Name l = nm \<and> ResourceVersion l \<le> version A w \<and>
     (\<exists>r. RenewTime l = Some r \<and> r \<le> api_clock A w)"

definition not_older :: "'w lease_api \<Rightarrow> 'w \<Rightarrow> Lease \<Rightarrow> bool" where
  "not_older A w l \<longleftrightarrow> (\<forall>l'. look A w = Some l' \<longrightarrow> ResourceVersion l' = ResourceVersion l \<longrightarrow>
     the (RenewTime l') \<le> the (RenewTime l))"

definition stamp_inv :: "'w lease_api \<Rightarrow> string \<Rightarrow> 'w cluster \<Rightarrow> bool" where
  "stamp_inv A nm s \<longleftrightarrow>
     (\<forall>l. look A (the_world s) = Some l \<longrightarrow> stamped A nm (the_world s) l) \<and>
     (\<forall>i. \<forall>l \<in> set (inflight s i). stamped A nm (the_world s) l \<and> not_older A (the_world s) l)"

text \<open>What an API call of any agent may do: nothing, delete the lease, or write one: where there was
  none, one renewed now, and otherwise one renewed no earlier than the stored one.\<close>

definition stamp_write :: "'w lease_api \<Rightarrow> string \<Rightarrow> 'w \<Rightarrow> 'w \<Rightarrow> Lease \<Rightarrow> bool" where
  "stamp_write A nm w w' l \<longleftrightarrow> writes A w w' l \<and> lease_Name l = nm \<and>
     (\<exists>r. RenewTime l = Some r \<and> r \<le> api_clock A w \<and>
        (case look A w of None \<Rightarrow> r = api_clock A w | Some l' \<Rightarrow> the (RenewTime l') \<le> r))"

definition stamp_change :: "'w lease_api \<Rightarrow> string \<Rightarrow> 'w \<Rightarrow> 'w \<Rightarrow> bool" where
  "stamp_change A nm w w' \<longleftrightarrow> api_clock A w' = api_clock A w \<and>
     (same_store A w w' \<or> deleted A w w' \<or> (\<exists>l. stamp_write A nm w w' l))"

lemma stamp_change_store:
  assumes "stamp_change A nm w w'" "\<And>l. look A w = Some l \<Longrightarrow> stamped A nm w l" "look A w' = Some l"
  shows "stamped A nm w' l"
  using assms
  by (auto simp: stamp_change_def stamp_write_def stamped_def same_store_def deleted_def writes_def)

lemma stamp_change_inflight:
  assumes "stamp_change A nm w w'" "stamped A nm w l \<and> not_older A w l"
  shows "stamped A nm w' l \<and> not_older A w' l"
  using assms
  by (auto simp: stamp_change_def stamp_write_def stamped_def not_older_def same_store_def deleted_def
      writes_def)

lemma stamp_inv_update:
  assumes "stamp_inv A nm s" "stamp_change A nm (the_world s) (the_world t)"
    and "\<And>i l. l \<in> set (inflight t i) \<Longrightarrow> l \<in> set (inflight s i) \<or>
      stamped A nm (the_world s) l \<and> not_older A (the_world s) l"
  shows "stamp_inv A nm t"
  using assms(1,3) stamp_change_store [OF assms(2)] stamp_change_inflight [OF assms(2)]
  unfolding stamp_inv_def by blast

lemma same_stamp_change: "same_store A w w' \<Longrightarrow> api_clock A w' = api_clock A w \<Longrightarrow> stamp_change A nm w w'"
  by (simp add: stamp_change_def)

lemma create_stamp:
  assumes "lease_laws A k" "clock_laws A pass k"
  shows "stamp_change A (leaseName k) w
    (snd (leases_create (api_client A) (namespace k) (new_lease k (api_clock A w)) w))"
proof -
  let ?l = "new_lease k (api_clock A w)"
  obtain r w' where c: "leases_create (api_client A) (namespace k) ?l w = (r, w')"
    by (cases "leases_create (api_client A) (namespace k) ?l w")
  then have "api_clock A w' = api_clock A w"
    using assms(2) unfolding clock_laws_def by (metis snd_conv)
  moreover have "same_store A w w' \<or> created A w w' ?l"
    using assms(1) c by (cases r) (force simp: lease_laws_def create_law_def new_lease_def)+
  ultimately show ?thesis
    unfolding c snd_conv stamp_change_def stamp_write_def created_def
    by (auto simp: new_lease_def)
qed

lemma get_stamp:
  assumes "lease_laws A k" "clock_laws A pass k"
  shows "stamp_change A (leaseName k) w (snd (leases_get (api_client A) (namespace k) (leaseName k) w))"
proof -
  obtain r w' where g: "leases_get (api_client A) (namespace k) (leaseName k) w = (r, w')"
    by (cases "leases_get (api_client A) (namespace k) (leaseName k) w")
  then have "api_clock A w' = api_clock A w"
    using assms(2) unfolding clock_laws_def by (metis snd_conv)
  with get_same [OF assms(1) g] show ?thesis
    by (simp add: g same_stamp_change same_store_def)
qed

lemma delete_stamp:
  assumes "lease_laws A k" "clock_laws A pass k"
  shows "stamp_change A (leaseName k) w (snd (leases_delete (api_client A) (namespace k) (leaseName k) w))"
proof -
  obtain r w' where d: "leases_delete (api_client A) (namespace k) (leaseName k) w = (r, w')"
    by (cases "leases_delete (api_client A) (namespace k) (leaseName k) w")
  then have "same_store A w w' \<or> deleted A w w'"
    using assms(1) by (cases r) (force simp: lease_laws_def delete_law_def)+
  moreover have "api_clock A w' = api_clock A w"
    using assms(2) d unfolding clock_laws_def by (metis snd_conv)
  ultimately show ?thesis by (auto simp: d stamp_change_def)
qed

lemma renew_write_stamp:
  assumes "lease_laws A k" "clock_laws A pass k"
    and "stamped A (leaseName k) w l" "not_older A w l"
  shows "stamp_change A (leaseName k) w (renew_write A k l w)"
proof -
  have "api_clock A (renew_write A k l w) = api_clock A w"
    using assms(2) by (simp add: clock_laws_def renew_write_def)
  moreover have "stamp_write A (leaseName k) w (renew_write A k l w) l"
    if "updated A w (renew_write A k l w) l"
    using that assms(3,4) by (auto simp: updated_def stamp_write_def stamped_def not_older_def)
  ultimately show ?thesis
    using renew_write_law [OF assms(1), of l w] assms(3) by (auto simp: stamp_change_def stamped_def)
qed

lemma renew_read_stamp:
  assumes "lease_laws A k" "clock_laws A pass k" "renew_read A k w = (ls, w')"
    and "\<And>l. look A w = Some l \<Longrightarrow> stamped A (leaseName k) w l"
  shows "stamp_change A (leaseName k) w w' \<and>
    (\<forall>l \<in> set ls. stamped A (leaseName k) w l \<and> not_older A w l)"
proof -
  obtain q w1 where g: "leases_get (api_client A) (namespace k) (leaseName k) w = (q, w1)"
    by (cases "leases_get (api_client A) (namespace k) (leaseName k) w")
  have w: "w' = w1" using assms(3) g by (cases q) (auto simp: renew_read_def)
  have ch: "stamp_change A (leaseName k) w w1" using get_stamp [OF assms(1,2), of w] g by simp
  then have "api_clock A w1 = api_clock A w" by (simp add: stamp_change_def)
  then have "\<forall>l \<in> set ls. stamped A (leaseName k) w l \<and> not_older A w l"
    using assms(3,4) get_same(3) [OF assms(1) g] g
    by (cases q) (auto simp: renew_read_def stamped_def not_older_def split: if_splits)
  with ch w show ?thesis by simp
qed

text \<open>The world after a call of the protocol is the world after its one API call.\<close>

lemma call_world:
  "snd (create_call A k w) = snd (leases_create (api_client A) (namespace k) (new_lease k (api_clock A w)) w)"
  "snd (read_call A k w) = snd (leases_get (api_client A) (namespace k) (leaseName k) w)"
  "snd (delete_call A k w) = snd (leases_delete (api_client A) (namespace k) (leaseName k) w)"
  "snd (unlock_read_call A k w) = snd (leases_get (api_client A) (namespace k) (leaseName k) w)"
  "snd (unlock_delete_call A k w) = snd (leases_delete (api_client A) (namespace k) (leaseName k) w)"
  by (simp_all add: create_call_def read_call_def delete_call_def unlock_read_call_def
      unlock_delete_call_def check_def attempt_def split: prod.split result.split)

lemma call_step_stamp:
  assumes "lease_laws A k" "clock_laws A pass k" "call_step A k pc w = Some (pc', w')"
  shows "stamp_change A (leaseName k) w w'"
proof -
  obtain m where m: "api_call A k pc = Some m" and w': "w' = snd (m w)"
    using assms(3) by (cases "api_call A k pc")
      (auto simp: call_step_def split: prod.splits result.splits)
  have "stamp_change A (leaseName k) w (snd (m w))"
    using m create_stamp [OF assms(1,2)] get_stamp [OF assms(1,2)] delete_stamp [OF assms(1,2)]
    by (cases pc) (auto simp: call_world)
  with w' show ?thesis by simp
qed

lemma pass_stamp_inv:
  assumes "stamp_inv A nm s" "same_store A (the_world s) w'" "api_clock A (the_world s) \<le> api_clock A w'"
  shows "stamp_inv A nm (s\<lparr>the_world := w'\<rparr>)"
  using assms by (fastforce simp: stamp_inv_def stamped_def not_older_def same_store_def)

lemma timed_settingD:
  assumes "timed_setting A pass ks T"
  shows "lease_laws A (ks i)" "clock_laws A pass (ks i)" "leaseName (ks i) = leaseName (ks 0)"
    "same_store A w (pass d w)" "api_clock A (pass d w) = api_clock A w + int d"
    "lease_expired (ks i) t l \<longleftrightarrow> (\<exists>r. RenewTime l = Some r \<and> T * 10 ^ 9 < t - r)"
  using assms lease_expired_iff [of "ks i" t l]
  by (auto simp: timed_setting_def setting_def clock_laws_def)

lemma act_keeps_stamps:
  assumes set: "timed_setting A pass ks T" and act: "act A pass ks a s = Some t"
    and inv: "stamp_inv A (leaseName (ks 0)) s"
  shows "stamp_inv A (leaseName (ks 0)) t \<and>
    ((\<exists>d. a = Pass d) \<or> stamp_change A (leaseName (ks 0)) (the_world s) (the_world t))"
proof -
  note laws = timed_settingD(1) [OF set] timed_settingD(2) [OF set]
  note nm = timed_settingD(3) [OF set]
  have st: "\<And>l. look A (the_world s) = Some l \<Longrightarrow> stamped A (leaseName (ks 0)) (the_world s) l"
    and fl: "\<And>l i. l \<in> set (inflight s i) \<Longrightarrow>
      stamped A (leaseName (ks 0)) (the_world s) l \<and> not_older A (the_world s) l"
    using inv by (auto simp: stamp_inv_def)
  have refl: "stamp_change A m w w" for m w by (simp add: stamp_change_def same_store_def)
  note upd = stamp_inv_update [OF inv]
  show ?thesis
  proof (cases a)
    case (Call i)
    with act obtain pc' w' where c: "call_step A (ks i) (pcs s i) (the_world s) = Some (pc', w')"
      and t: "t = s\<lparr>pcs := (pcs s)(i := pc'), the_world := w'\<rparr>" by auto
    have "stamp_change A (leaseName (ks 0)) (the_world s) w'"
      using call_step_stamp [OF laws c] by (simp add: nm [of i])
    with upd [of t] t show ?thesis by simp
  next
    case (Renew_read i)
    then obtain ls w' where r: "renew_read A (ks i) (the_world s) = (ls, w')"
      and t: "t = s\<lparr>inflight := (inflight s)(i := ls @ inflight s i), the_world := w'\<rparr>"
      using act by (auto split: prod.splits)
    have rr: "stamp_change A (leaseName (ks 0)) (the_world s) w' \<and>
        (\<forall>l \<in> set ls. stamped A (leaseName (ks 0)) (the_world s) l \<and> not_older A (the_world s) l)"
      using renew_read_stamp [OF laws r] st by (simp add: nm [of i])
    have "stamp_inv A (leaseName (ks 0)) t"
      by (rule upd) (use rr t in \<open>auto split: if_splits\<close>)
    with rr show ?thesis by (simp add: t)
  next
    case (Renew_write i j)
    let ?l = "inflight s i ! j" let ?w = "renew_write A (ks i) (inflight s i ! j) (the_world s)"
    have t: "t = s\<lparr>the_world := ?w\<rparr>" and l: "?l \<in> set (inflight s i)"
      using Renew_write act by (auto simp: guard_def split: if_splits)
    have "stamp_change A (leaseName (ks i)) (the_world s) ?w"
      by (rule renew_write_stamp [OF laws]) (use fl [OF l] nm [of i] in simp_all)
    with upd [of t] t show ?thesis by (simp add: nm [of i])
  next
    case (Pass d)
    with act inv timed_settingD(4,5) [OF set] show ?thesis
      by (auto intro!: pass_stamp_inv)
  qed (use act upd [of t] refl in \<open>auto simp: guard_def split: if_splits\<close>)
qed

lemma start_stamps: "start A s \<Longrightarrow> stamp_inv A nm s"
  by (simp add: start_def stamp_inv_def)

definition guarded_stamps ::
  "'w lease_api \<Rightarrow> (nat \<Rightarrow> 'w \<Rightarrow> 'w) \<Rightarrow> (nat \<Rightarrow> kubeLeaseLock) \<Rightarrow> int \<Rightarrow> 'w cluster \<Rightarrow> bool" where
  "guarded_stamps A pass ks T s \<longleftrightarrow> (timed_setting A pass ks T \<longrightarrow> stamp_inv A (leaseName (ks 0)) s)"

interpretation stamps: invariant "start A" "act_step A pass ks" "guarded_stamps A pass ks T"
  for A :: "'w lease_api" and pass ks T
proof unfold_locales
  show "guarded_stamps A pass ks T s" if "start A s" for s
    using that by (simp add: guarded_stamps_def start_stamps)
  show "guarded_stamps A pass ks T t"
    if "act_step A pass ks s t" "guarded_stamps A pass ks T s" for s t
    using that act_keeps_stamps unfolding guarded_stamps_def act_step_def by blast
qed

lemma reach_stamps:
  assumes "timed_setting A pass ks T" "reach (start A) (act_step A pass ks) s"
  shows "stamp_inv A (leaseName (ks 0)) s"
  using stamps.reach_inv [OF assms(2), of T] assms(1) by (simp add: guarded_stamps_def)

subsection \<open>Leases renewed in time\<close>

text \<open>The stored lease is at most \<open>T\<close> seconds old.\<close>

definition young :: "'w lease_api \<Rightarrow> int \<Rightarrow> 'w \<Rightarrow> bool" where
  "young A T w \<longleftrightarrow> (\<forall>l. look A w = Some l \<longrightarrow> api_clock A w - the (RenewTime l) \<le> T * 10 ^ 9)"

text \<open>A step of the agents in time: when time passes, the stored lease, if there is one, does not get
  older than its time to live. Nothing else is restricted: agents crash, calls fail, renewals are
  delayed.\<close>

definition timely_step :: "'w lease_api \<Rightarrow> (nat \<Rightarrow> 'w \<Rightarrow> 'w) \<Rightarrow> (nat \<Rightarrow> kubeLeaseLock) \<Rightarrow> int \<Rightarrow>
    'w cluster \<Rightarrow> 'w cluster \<Rightarrow> bool" where
  "timely_step A pass ks T s t \<longleftrightarrow>
     (\<exists>a. act A pass ks a s = Some t \<and> (\<forall>d. a = Pass d \<longrightarrow> young A T (the_world t)))"

lemma stamp_change_young:
  assumes "stamp_change A nm w w'" "young A T w" "0 \<le> T"
  shows "young A T w'"
  using assms
  by (fastforce simp: stamp_change_def stamp_write_def young_def same_store_def deleted_def writes_def
      split: option.splits)

definition timely_inv ::
  "'w lease_api \<Rightarrow> (nat \<Rightarrow> kubeLeaseLock) \<Rightarrow> int \<Rightarrow> 'w cluster \<Rightarrow> bool" where
  "timely_inv A ks T s \<longleftrightarrow> stamp_inv A (leaseName (ks 0)) s \<and> young A T (the_world s) \<and>
     (\<forall>i. pcs s i \<noteq> Deleting)"

text \<open>Only the call that reads a lease can lead an agent to delete it, and it reads a young one.\<close>

lemma read_young:
  assumes set: "timed_setting A pass ks T" and "young A T w"
    and "\<And>l. look A w = Some l \<Longrightarrow> stamped A (leaseName (ks 0)) w l"
    and "read_call A (ks i) w = (r, w')"
  shows "r \<noteq> Ok Deleting"
proof -
  note laws = timed_settingD(1) [OF set, of i] timed_settingD(2) [OF set, of i]
  obtain q w1 where g: "leases_get (api_client A) (namespace (ks i)) (leaseName (ks i)) w = (q, w1)"
    by (cases "leases_get (api_client A) (namespace (ks i)) (leaseName (ks i)) w")
  have "api_clock A w1 = api_clock A w"
    using get_stamp [OF laws, of w] g by (simp add: stamp_change_def)
  then have "\<not> lease_expired (ks i) (api_clock A w1) l" if "q = Ok l" for l
    using get_same(3) [OF laws(1) g that] assms(2,3)
    by (auto simp: timed_settingD(6) [OF set] young_def stamped_def)
  then show ?thesis
    using assms(4) g by (cases q) (auto simp: read_call_def split: if_splits)
qed

lemma call_no_delete:
  assumes set: "timed_setting A pass ks T" and inv: "timely_inv A ks T s"
    and "call_step A (ks i) (pcs s i) (the_world s) = Some (pc', w')"
  shows "pc' \<noteq> Deleting"
proof (cases "pcs s i")
  case Reading
  with assms(3) obtain r where "read_call A (ks i) (the_world s) = (r, w')"
    and "pc' = (case r of Ok p \<Rightarrow> p | _ \<Rightarrow> Failed)"
    by (auto simp: call_step_def split: prod.splits result.splits)
  with read_young [OF set, of "the_world s" i r w'] inv show ?thesis
    by (auto simp: timely_inv_def stamp_inv_def split: result.splits)
qed (use assms(3) inv in \<open>auto simp: timely_inv_def call_step_def create_call_def unlock_read_call_def
    unlock_delete_call_def check_def attempt_def split: prod.splits result.splits if_splits\<close>)

lemma timely_inv_step:
  assumes set: "timed_setting A pass ks T" and step: "timely_step A pass ks T s t"
    and inv: "timely_inv A ks T s"
  shows "timely_inv A ks T t"
proof -
  obtain a where act: "act A pass ks a s = Some t" and pass: "\<And>d. a = Pass d \<Longrightarrow> young A T (the_world t)"
    using step unfolding timely_step_def by blast
  have k: "stamp_inv A (leaseName (ks 0)) t"
    "(\<exists>d. a = Pass d) \<or> stamp_change A (leaseName (ks 0)) (the_world s) (the_world t)"
    using act_keeps_stamps [OF set act] inv by (simp_all add: timely_inv_def)
  have "0 \<le> T" using set by (simp add: timed_setting_def)
  then have "young A T (the_world t)"
    using k(2) pass stamp_change_young [of A _ "the_world s" "the_world t" T] inv
    by (auto simp: timely_inv_def)
  moreover have "pcs t j \<noteq> Deleting" for j
  proof (cases a)
    case (Call i)
    with act obtain pc' w' where c: "call_step A (ks i) (pcs s i) (the_world s) = Some (pc', w')"
      and t: "t = s\<lparr>pcs := (pcs s)(i := pc'), the_world := w'\<rparr>" by auto
    from call_no_delete [OF set inv c] inv show ?thesis by (simp add: t timely_inv_def)
  qed (use act inv in \<open>auto simp: timely_inv_def guard_def split: if_splits prod.splits\<close>)
  ultimately show ?thesis using k(1) by (simp add: timely_inv_def)
qed

definition guarded_timely ::
  "'w lease_api \<Rightarrow> (nat \<Rightarrow> 'w \<Rightarrow> 'w) \<Rightarrow> (nat \<Rightarrow> kubeLeaseLock) \<Rightarrow> int \<Rightarrow> 'w cluster \<Rightarrow> bool" where
  "guarded_timely A pass ks T s \<longleftrightarrow> (timed_setting A pass ks T \<longrightarrow> timely_inv A ks T s)"

interpretation timely: invariant "start A" "timely_step A pass ks T" "guarded_timely A pass ks T"
  for A :: "'w lease_api" and pass ks T
proof unfold_locales
  show "guarded_timely A pass ks T s" if "start A s" for s
    using that by (simp add: guarded_timely_def timely_inv_def start_stamps) (simp add: start_def young_def)
  show "guarded_timely A pass ks T t"
    if "timely_step A pass ks T s t" "guarded_timely A pass ks T s" for s t
    using that timely_inv_step unfolding guarded_timely_def by blast
qed

text \<open>In time, no agent finds the lease expired: the runs in time are runs without an expired lease.\<close>

lemma timely_unexpired:
  assumes set: "timed_setting A pass ks T" and "reach (start A) (timely_step A pass ks T) s"
  shows "reach (start A) (unexpired_step A pass ks) s"
  using assms(2)
proof (induction rule: reach.induct)
  case (reach_init s)
  then show ?case by (rule reach.reach_init)
next
  case (reach_step s t)
  then have "timely_inv A ks T t"
    using timely.reach_inv [OF reach.reach_step [OF reach_step.hyps(1,2)]] set
    by (simp add: guarded_timely_def)
  with reach_step.hyps(2) have "unexpired_step A pass ks s t"
    by (auto simp: timely_inv_def timely_step_def unexpired_step_def act_step_def)
  with reach_step.IH show ?case by (rule reach.reach_step)
qed

text \<open>The lease in a run in time: it is the lock's, at most \<open>T\<close> seconds old, not from the future, and held
  by every agent inside the critical section, of which there is at most one.\<close>

lemma timely_exclusion:
  assumes "timed_setting A pass ks T" "reach (start A) (timely_step A pass ks T) s" "in_critical s i"
  shows "\<exists>l r. look A (the_world s) = Some l \<and> HolderIdentity l = Some (holderIdentity (ks i)) \<and>
    RenewTime l = Some r \<and> r \<le> api_clock A (the_world s) \<and>
    api_clock A (the_world s) - r \<le> T * 10 ^ 9 \<and> (\<forall>j. in_critical s j \<longrightarrow> j = i)"
proof -
  have m: "holder A (the_world s) = Some (holderIdentity (ks i)) \<and> (\<forall>j. in_critical s j \<longrightarrow> j = i)"
    using mutual_exclusion [OF _ timely_unexpired [OF assms(1,2)] assms(3)] assms(1)
    by (simp add: timed_setting_def)
  have "timely_inv A ks T s"
    using timely.reach_inv [OF assms(2)] assms(1) by (simp add: guarded_timely_def)
  with m show ?thesis
    by (fastforce simp: timely_inv_def stamp_inv_def stamped_def young_def holder_def bind_eq_Some_conv)
qed

subsection \<open>Renewing in time\<close>

text \<open>An API that carries out an update of the version that is stored.\<close>

definition update_up :: "'w lease_api \<Rightarrow> kubeLeaseLock \<Rightarrow> bool" where
  "update_up A k \<longleftrightarrow> (\<forall>l l' w. lease_Name l = leaseName k \<longrightarrow> look A w = Some l' \<longrightarrow>
     ResourceVersion l' = ResourceVersion l \<longrightarrow>
     fst (leases_update (api_client A) (namespace k) l w) = Ok ())"

definition held_since :: "'w lease_api \<Rightarrow> kubeLeaseLock \<Rightarrow> 'w \<Rightarrow> int \<Rightarrow> bool" where
  "held_since A k w r \<longleftrightarrow> (\<exists>l. look A w = Some l \<and> lease_Name l = leaseName k \<and>
     HolderIdentity l = Some (holderIdentity k) \<and> RenewTime l = Some r)"

lemma renew_round_renews:
  assumes laws: "lease_laws A k" "clock_laws A pass k" and up: "api_up A k" "update_up A k"
    and "held_since A k w r"
  shows "\<exists>w'. renew_round (api_client A) (api_clock A) k w = (Ok True, w') \<and>
    held_since A k w' (api_clock A w') \<and> api_clock A w' = api_clock A w"
proof -
  obtain l where l: "look A w = Some l" "lease_Name l = leaseName k" "HolderIdentity l = Some (holderIdentity k)"
    using assms(5) by (auto simp: held_since_def)
  obtain w1 where g: "leases_get (api_client A) (namespace k) (leaseName k) w = (Ok l, w1)"
    and l1: "look A w1 = look A w"
    using get_up [OF laws(1) up(1) l(1)] by blast
  let ?l = "l\<lparr>RenewTime := Some (api_clock A w1)\<rparr>"
  obtain q w2 where u: "leases_update (api_client A) (namespace k) ?l w1 = (q, w2)"
    by (cases "leases_update (api_client A) (namespace k) ?l w1")
  have nm: "lease_Name ?l = leaseName k" using l by simp
  have "look A w1 = Some l \<and> ResourceVersion l = ResourceVersion ?l" using l l1 by simp
  with up(2) nm have "fst (leases_update (api_client A) (namespace k) ?l w1) = Ok ()"
    unfolding update_up_def by blast
  with u have "updated A w1 w2 ?l" and "q = Ok ()"
    using laws(1) nm by (auto simp: lease_laws_def update_law_def split: result.splits)
  moreover have "api_clock A w1 = api_clock A w" "api_clock A w2 = api_clock A w1"
    using laws(2) g u unfolding clock_laws_def by (metis snd_conv)+
  ultimately show ?thesis
    using g u l nm by (auto simp: renew_round_def updated_def writes_def held_since_def)
qed

lemma renew_loop_renews:
  assumes "lease_laws A k" "clock_laws A pass k" "api_up A k" "update_up A k"
    and "\<And>d w. same_store A w (pass d w)" and "held_since A k w r"
  shows "\<exists>w'. renew_loop (api_client A) (api_clock A) k (map (\<lambda>d. Tick (pass d)) ds) w = (Ok (), w') \<and>
    held_since A k w' (if ds = [] then r else api_clock A w') \<and>
    api_clock A w' = api_clock A w + int (sum_list ds)"
  using assms(6)
proof (induction ds arbitrary: w r)
  case (Cons d ds)
  have "held_since A k (pass d w) r"
    using Cons.prems assms(5) [of w d] by (simp add: held_since_def same_store_def)
  then obtain w1 where w1: "renew_round (api_client A) (api_clock A) k (pass d w) = (Ok True, w1)"
    "held_since A k w1 (api_clock A w1)" "api_clock A w1 = api_clock A (pass d w)"
    using renew_round_renews [OF assms(1-4)] by blast
  have "api_clock A (pass d w) = api_clock A w + int d" using assms(2) by (simp add: clock_laws_def)
  with w1 Cons.IH [OF w1(2)] show ?case by (auto split: if_splits)
qed simp

text \<open>C3. The renewal goroutine keeps the lease: started right after the lease was created or renewed,
  with nobody else writing and an API that is reachable, it goes on for as long as its ticker
  ticks, whatever the waits, and after every round the lease is the agent's and just renewed; it is
  then not expired for anybody for twice the ticker's period, so a tick, and the calls of its round,
  may come late by a whole period.\<close>

theorem renewal_keeps_lease:
  assumes "lease_laws A k" "clock_laws A pass k" "api_up A k" "update_up A k"
    and "\<And>d w. same_store A w (pass d w)"
    and "1 \<le> sint (leaseDuration k)" "sint (leaseDuration k) \<le> 9223372036"
    and "held_since A k w (api_clock A w)"
  shows "\<exists>w' l. renewLeasePeriodically (api_client A) (api_clock A) k (map (\<lambda>d. Tick (pass d)) ds) w
      = (Ok (), w') \<and> look A w' = Some l \<and> HolderIdentity l = Some (holderIdentity k) \<and>
    RenewTime l = Some (api_clock A w') \<and> api_clock A w' = api_clock A w + int (sum_list ds) \<and>
    (\<forall>k' d. leaseDuration k' = leaseDuration k \<longrightarrow> int d \<le> 2 * sint (renew_period k) \<longrightarrow>
       \<not> lease_expired k' (api_clock A (pass d w')) l)"
proof -
  obtain w' where w': "renew_loop (api_client A) (api_clock A) k (map (\<lambda>d. Tick (pass d)) ds) w = (Ok (), w')"
    "held_since A k w' (if ds = [] then api_clock A w else api_clock A w')"
    "api_clock A w' = api_clock A w + int (sum_list ds)"
    using renew_loop_renews [OF assms(1-5,8), of ds] by blast
  have "held_since A k w' (api_clock A w')" using w'(2,3) by (cases ds) simp_all
  then obtain l where l: "look A w' = Some l" "HolderIdentity l = Some (holderIdentity k)"
    "RenewTime l = Some (api_clock A w')"
    by (auto simp: held_since_def)
  have t: "NewTicker (renew_period k) = Ok ()" "2 * sint (renew_period k) = sint (leaseDuration k) * 10 ^ 9"
    using assms(6,7) by (simp_all add: NewTicker_cases renew_period_exact)
  have "\<not> lease_expired k' (api_clock A (pass d w')) l"
    if "leaseDuration k' = leaseDuration k" "int d \<le> 2 * sint (renew_period k)" for k' d
    using that assms(2,6,7) l(3) by (simp add: t lease_expired_iff clock_laws_def)
  with w' l t show ?thesis by (simp add: renewLeasePeriodically_def check_lift)
qed

subsection \<open>Waiting for a lease to expire\<close>

text \<open>\<open>wait.ExponentialBackoff\<close> as it runs in time: at most \<open>bo_Steps\<close> attempts, a wait between any two
  of them, and possibly one after the last (it waits once more when the next wait would exceed the
  cap). How long the waits are is left open: the theorem below is for every list of them.\<close>

fun attempts_apart :: "(nat \<Rightarrow> 'w \<Rightarrow> 'w) \<Rightarrow> nat list \<Rightarrow> nat \<Rightarrow> (lock_obj \<times> 'w, bool) prog \<Rightarrow>
    (lock_obj \<times> 'w, unit) prog" where
  "attempts_apart pass [] rest cond = check cond id (\<lambda>b. if b then ret ()
     else (\<lambda>(obj, w). throw ErrWaitTimeout (obj, pass rest w)))"
| "attempts_apart pass (d # ds) rest cond = check cond id (\<lambda>b. if b then ret ()
     else (\<lambda>(obj, w). attempts_apart pass ds rest cond (obj, pass d w)))"

definition spaced_backoff :: "(nat \<Rightarrow> 'w \<Rightarrow> 'w) \<Rightarrow> nat list \<Rightarrow> nat \<Rightarrow> wait_Backoff \<Rightarrow>
    (lock_obj \<times> 'w, bool) prog \<Rightarrow> (lock_obj \<times> 'w, unit) prog" where
  "spaced_backoff pass ds rest b cond = attempts_apart pass (take (bo_Steps b - 1) ds) rest cond"

lemma attempts_again:
  assumes "lock_attempt client now k (obj, w) = (Ok False, (obj', w'))"
  shows "attempts_apart pass [] rest (lock_attempt client now k) (obj, w) =
      (Fail ErrWaitTimeout, (obj', pass rest w'))"
    and "attempts_apart pass (d # ds) rest (lock_attempt client now k) (obj, w) =
      attempts_apart pass ds rest (lock_attempt client now k) (obj', pass d w')"
  using assms by (simp_all add: check_def attempt_def)

text \<open>It is one of the ways in which the backoff of theory Lease runs.\<close>

definition waits_by :: "(nat \<Rightarrow> 'w \<Rightarrow> 'w) \<Rightarrow> lock_obj \<times> 'w \<Rightarrow> lock_obj \<times> 'w \<Rightarrow> bool" where
  "waits_by pass = (\<lambda>(obj, w) (obj', w'). obj' = obj \<and> (\<exists>d. w' = pass d w))"

lemma attempts_apart_run:
  "backoff_run (waits_by pass) cond (Suc (length ds)) s (attempts_apart pass ds rest cond s)"
proof (induction ds arbitrary: s)
  case Nil
  obtain r obj w where c: "cond s = (r, (obj, w))" by (cases "cond s") auto
  show ?case
  proof (cases r)
    case (Ok b)
    have "waits_by pass (obj, w) (obj, pass rest w)" by (auto simp: waits_by_def)
    with c Ok show ?thesis
      by (cases b) (auto intro: met again [OF _ _ timeout])
  qed (use c in \<open>auto intro: failed aborted\<close>)
next
  case (Cons d ds)
  obtain r obj w where c: "cond s = (r, (obj, w))" by (cases "cond s") auto
  show ?case
  proof (cases r)
    case (Ok b)
    have "waits_by pass (obj, w) (obj, pass d w)" by (auto simp: waits_by_def)
    with c Ok Cons [of "(obj, pass d w)"] show ?thesis
      by (cases b) (auto intro: met again)
  qed (use c in \<open>auto intro: failed aborted\<close>)
qed

lemma spaced_backoff_run:
  assumes "length ds < bo_Steps b"
  shows "backoff_run (waits_by pass) cond (Suc (length ds)) s (spaced_backoff pass ds rest b cond s)"
  using attempts_apart_run [of pass cond ds s] assms by (simp add: spaced_backoff_def)

lemma get_clocked:
  assumes "lease_laws A k" "clock_laws A pass k" "api_up A k" "look A w = Some l"
  shows "\<exists>w'. leases_get (api_client A) (namespace k) (leaseName k) w = (Ok l, w') \<and> same_store A w w' \<and>
    api_clock A w' = api_clock A w"
proof -
  obtain w' where g: "leases_get (api_client A) (namespace k) (leaseName k) w = (Ok l, w')"
    using get_up [OF assms(1,3,4)] by blast
  then have "api_clock A w' = api_clock A w" using assms(2) unfolding clock_laws_def by (metis snd_conv)
  with g get_same [OF assms(1) g] show ?thesis by (simp add: same_store_def)
qed

lemma delete_clocked:
  assumes "lease_laws A k" "clock_laws A pass k" "api_up A k" "look A w \<noteq> None"
  shows "\<exists>w'. leases_delete (api_client A) (namespace k) (leaseName k) w = (Ok (), w') \<and>
    look A w' = None \<and> api_clock A w' = api_clock A w"
  using delete_up [OF assms(1,3,4)] assms(2) unfolding clock_laws_def by (metis snd_conv)

lemma create_exists:
  assumes "lease_laws A k" "clock_laws A pass k" "create_up A k" "look A w \<noteq> None"
  shows "\<exists>e w'. leases_create (api_client A) (namespace k) (new_lease k (api_clock A w)) w = (Fail e, w') \<and>
    IsAlreadyExists e \<and> same_store A w w' \<and> api_clock A w' = api_clock A w"
proof -
  let ?l = "new_lease k (api_clock A w)"
  obtain q w' where c: "leases_create (api_client A) (namespace k) ?l w = (q, w')"
    by (cases "leases_create (api_client A) (namespace k) ?l w")
  then have "api_clock A w' = api_clock A w" using assms(2) unfolding clock_laws_def by (metis snd_conv)
  moreover obtain e where e: "q = Fail e" "IsAlreadyExists e"
    using create_up_cases [OF assms(3) c] assms(4) by (cases q) auto
  moreover have "same_store A w w'"
    using e assms(1) c by (force simp: lease_laws_def create_law_def new_lease_def)
  ultimately show ?thesis using c by blast
qed

text \<open>A lease of the agent's own, written at the present time.\<close>

definition own_fresh :: "'w lease_api \<Rightarrow> kubeLeaseLock \<Rightarrow> 'w \<Rightarrow> bool" where
  "own_fresh A k w \<longleftrightarrow> (\<exists>l. look A w = Some l \<and> HolderIdentity l = Some (holderIdentity k) \<and>
     RenewTime l = Some (api_clock A w))"

lemma create_free:
  assumes "lease_laws A k" "clock_laws A pass k" "create_up A k" "look A w = None"
  shows "\<exists>w'. leases_create (api_client A) (namespace k) (new_lease k (api_clock A w)) w = (Ok (), w') \<and>
    own_fresh A k w' \<and> api_clock A w' = api_clock A w"
proof -
  let ?l = "new_lease k (api_clock A w)"
  have nm: "lease_Name ?l = leaseName k" by (simp add: new_lease_def)
  obtain q w' where c: "leases_create (api_client A) (namespace k) ?l w = (q, w')"
    by (cases "leases_create (api_client A) (namespace k) ?l w")
  then have clock: "api_clock A w' = api_clock A w"
    using assms(2) unfolding clock_laws_def by (metis snd_conv)
  have q: "q = Ok ()" using create_up_cases [OF assms(3) c] assms(4) by (cases q) auto
  with create_writes [OF assms(1) nm] c have "writes A w w' ?l" by simp
  then have "own_fresh A k w'" by (simp add: own_fresh_def writes_def new_lease_def clock)
  with c q clock show ?thesis by blast
qed

text \<open>The three kinds of attempt.\<close>

lemma attempt_expired:
  assumes laws: "lease_laws A k" "clock_laws A pass k" and up: "api_up A k" "create_up A k"
    and "look A w = Some l" "lease_expired k (api_clock A w) l"
  shows "\<exists>w'. lock_attempt (api_client A) (api_clock A) k (obj, w) = (Ok False, (obj, w')) \<and>
    look A w' = None \<and> api_clock A w' = api_clock A w"
proof -
  obtain e w1 where c: "leases_create (api_client A) (namespace k) (new_lease k (api_clock A w)) w = (Fail e, w1)"
    "IsAlreadyExists e" "same_store A w w1" "api_clock A w1 = api_clock A w"
    using create_exists [OF laws up(2)] assms(5) by blast
  then have "look A w1 = Some l" using assms(5) by (simp add: same_store_def)
  from get_clocked [OF laws up(1) this] obtain w2 where
    g: "leases_get (api_client A) (namespace k) (leaseName k) w1 = (Ok l, w2)" "same_store A w1 w2"
    "api_clock A w2 = api_clock A w1" by blast
  with \<open>look A w1 = Some l\<close> have "look A w2 \<noteq> None" by (simp add: same_store_def)
  from delete_clocked [OF laws up(1) this] obtain w3 where
    "leases_delete (api_client A) (namespace k) (leaseName k) w2 = (Ok (), w3)" "look A w3 = None"
    "api_clock A w3 = api_clock A w2" by blast
  with c g assms(6) show ?thesis by (simp add: lock_attempt_def)
qed

lemma attempt_held:
  assumes laws: "lease_laws A k" "clock_laws A pass k" and up: "api_up A k" "create_up A k"
    and "look A w = Some l" "\<not> lease_expired k (api_clock A w) l" "held_by_other k l"
  shows "\<exists>w'. lock_attempt (api_client A) (api_clock A) k (obj, w) = (Ok False, (obj, w')) \<and>
    same_store A w w' \<and> api_clock A w' = api_clock A w"
proof -
  obtain e w1 where c: "leases_create (api_client A) (namespace k) (new_lease k (api_clock A w)) w = (Fail e, w1)"
    "IsAlreadyExists e" "same_store A w w1" "api_clock A w1 = api_clock A w"
    using create_exists [OF laws up(2)] assms(5) by blast
  then have "look A w1 = Some l" using assms(5) by (simp add: same_store_def)
  from get_clocked [OF laws up(1) this] c assms(6,7) show ?thesis
    by (auto simp: lock_attempt_def same_store_def)
qed

lemma attempt_free:
  assumes "lease_laws A k" "clock_laws A pass k" "create_up A k" "look A w = None"
  shows "\<exists>w'. lock_attempt (api_client A) (api_clock A) k (obj, w) = (Ok True, (started obj, w')) \<and>
    own_fresh A k w' \<and> api_clock A w' = api_clock A w"
  using create_free [OF assms] by (auto simp: lock_attempt_def)

lemma attempts_free:
  assumes "lease_laws A k" "clock_laws A pass k" "create_up A k" "look A w = None"
  shows "\<exists>w'. attempts_apart pass ds rest (lock_attempt (api_client A) (api_clock A) k) (obj, w) =
    (Ok (), (started obj, w')) \<and> own_fresh A k w' \<and> api_clock A w' = api_clock A w"
  using attempt_free [OF assms, of obj] by (cases ds) auto

declare attempts_apart.simps [simp del]

text \<open>How \<open>Lock\<close> ends when it starts at time \<open>t\<close> and finds another holder's lease, which is expired for
  it after time \<open>e\<close>. If an attempt other than the last one comes after \<open>e\<close>, then the first such attempt
  deletes the lease, and the next one, a wait later, creates the agent's own. Otherwise \<open>Lock\<close> gives
  up after its last attempt; if that one came after \<open>e\<close>, it has deleted the lease.\<close>

definition outwaited :: "'w lease_api \<Rightarrow> kubeLeaseLock \<Rightarrow> int \<Rightarrow> int \<Rightarrow> nat list \<Rightarrow> nat \<Rightarrow> lock_obj \<Rightarrow>
    'w \<Rightarrow> unit result \<times> lock_obj \<times> 'w \<Rightarrow> bool" where
  "outwaited A k e t ds rest obj w = (\<lambda>(r, obj', w').
     if \<exists>n < length ds. e < t + int (sum_list (take n ds)) then
       r = Ok () \<and> obj' = started obj \<and> own_fresh A k w' \<and>
       (\<exists>n < length ds. e < t + int (sum_list (take n ds)) \<and>
          (\<forall>m < n. t + int (sum_list (take m ds)) \<le> e) \<and>
          api_clock A w' = t + int (sum_list (take (Suc n) ds)))
     else r = Fail ErrWaitTimeout \<and> obj' = obj \<and> api_clock A w' = t + int (sum_list ds + rest) \<and>
       look A w' = (if e < t + int (sum_list ds) then None else look A w))"

lemma outwaited_later:
  assumes "outwaited A k e (t + int d) ds rest obj w1 x" "t \<le> e" "look A w1 = look A w"
  shows "outwaited A k e t (d # ds) rest obj w x"
proof -
  obtain r obj' w' where x: "x = (r, obj', w')" by (cases x)
  let ?late = "\<lambda>n. e < t + int (sum_list (take n (d # ds)))"
  have shift: "?late (Suc n) \<longleftrightarrow> e < t + int d + int (sum_list (take n ds))" for n by (simp add: ac_simps)
  have no: "\<not> ?late 0" using assms(2) by simp
  have iff: "(\<exists>n < length (d # ds). ?late n) \<longleftrightarrow>
      (\<exists>n < length ds. e < t + int d + int (sum_list (take n ds)))"
    using no shift by (metis Suc_less_eq length_Cons not0_implies_Suc)
  show ?thesis
  proof (cases "\<exists>n < length ds. e < t + int d + int (sum_list (take n ds))")
    case True
    with assms(1) x obtain n where r: "r = Ok ()" "obj' = started obj" "own_fresh A k w'"
      and n: "n < length ds" "e < t + int d + int (sum_list (take n ds))"
      "\<forall>m < n. t + int d + int (sum_list (take m ds)) \<le> e"
      "api_clock A w' = t + int d + int (sum_list (take (Suc n) ds))"
      by (auto simp: outwaited_def)
    have "t + int (sum_list (take m (d # ds))) \<le> e" if "m < Suc n" for m
      using that n(3) assms(2) by (cases m) (auto simp: ac_simps)
    moreover have "Suc n < length (d # ds)" using n(1) by simp
    moreover have "?late (Suc n)" using n(2) shift by simp
    moreover have "api_clock A w' = t + int (sum_list (take (Suc (Suc n)) (d # ds)))"
      using n(4) by (simp add: ac_simps)
    ultimately show ?thesis
      using r iff True unfolding outwaited_def x by (auto simp del: take_Suc_Cons)
  next
    case False
    with assms(1) x have "r = Fail ErrWaitTimeout" "obj' = obj"
      "api_clock A w' = t + int d + int (sum_list ds + rest)"
      "look A w' = (if e < t + int d + int (sum_list ds) then None else look A w1)"
      by (simp_all add: outwaited_def)
    with False iff assms(3) show ?thesis
      unfolding outwaited_def x by (simp del: take_Suc_Cons add: ac_simps)
  qed
qed

lemma attempts_outwait:
  assumes laws: "lease_laws A k" "clock_laws A pass k" "\<And>d w. same_store A w (pass d w)"
    and up: "api_up A k" "create_up A k"
    and "\<And>t. lease_expired k t l \<longleftrightarrow> e < t" "held_by_other k l" "look A w = Some l"
  shows "outwaited A k e (api_clock A w) ds rest obj w
    (attempts_apart pass ds rest (lock_attempt (api_client A) (api_clock A) k) (obj, w))"
  using assms(8)
proof (induction ds arbitrary: w)
  case Nil
  show ?case
  proof (cases "e < api_clock A w")
    case True
    with attempt_expired [OF laws(1,2) up Nil, of obj] obtain w' where
      w': "lock_attempt (api_client A) (api_clock A) k (obj, w) = (Ok False, (obj, w'))"
      "look A w' = None" "api_clock A w' = api_clock A w" using assms(6) by blast
    with True laws(2,3) show ?thesis
      by (simp add: outwaited_def clock_laws_def same_store_def attempts_again [OF w'(1)])
  next
    case False
    with attempt_held [OF laws(1,2) up Nil _ assms(7), of obj] obtain w' where
      w': "lock_attempt (api_client A) (api_clock A) k (obj, w) = (Ok False, (obj, w'))"
      "same_store A w w'" "api_clock A w' = api_clock A w" using assms(6) by blast
    with False laws(2,3) show ?thesis
      by (simp add: outwaited_def clock_laws_def same_store_def attempts_again [OF w'(1)])
  qed
next
  case (Cons d ds)
  have pass: "api_clock A (pass d v) = api_clock A v + int d" "look A (pass d v) = look A v" for v
    using laws(2,3) by (simp_all add: clock_laws_def same_store_def)
  show ?case
  proof (cases "e < api_clock A w")
    case True
    with attempt_expired [OF laws(1,2) up Cons.prems, of obj] obtain w' where
      w': "lock_attempt (api_client A) (api_clock A) k (obj, w) = (Ok False, (obj, w'))"
      "look A w' = None" "api_clock A w' = api_clock A w" using assms(6) by blast
    have "look A (pass d w') = None" using w'(2) pass by simp
    from attempts_free [OF laws(1,2) up(2) this, of ds rest obj] obtain w'' where
      "attempts_apart pass ds rest (lock_attempt (api_client A) (api_clock A) k) (obj, pass d w') =
        (Ok (), (started obj, w''))" "own_fresh A k w''" "api_clock A w'' = api_clock A w + int d"
      using pass w'(3) by auto
    with w' True show ?thesis
      by (auto simp: outwaited_def attempts_again [OF w'(1)] intro!: exI [of _ 0])
  next
    case False
    with attempt_held [OF laws(1,2) up Cons.prems _ assms(7), of obj] obtain w' where
      w': "lock_attempt (api_client A) (api_clock A) k (obj, w) = (Ok False, (obj, w'))"
      "same_store A w w'" "api_clock A w' = api_clock A w" using assms(6) by blast
    have "look A (pass d w') = Some l" using w'(2) pass Cons.prems by (simp add: same_store_def)
    from outwaited_later [OF Cons.IH [OF this, unfolded pass w'(3)], of w] False w'(2) pass show ?thesis
      by (simp add: same_store_def attempts_again [OF w'(1)])
  qed
qed

text \<open>C17. \<open>Lock\<close> outlasts a holder that is gone, and exactly then. Another agent's lease is stored and
  nobody else writes (its holder has crashed, say, so that nobody renews it), and the API is
  reachable. However long the waits between the attempts are and however many they are: if an attempt
  other than the last one comes more than the lease's time to live after its last renewal, \<open>Lock\<close>
  returns without an error; the first such attempt has deleted the lease, and the next one, right
  after the next wait, has created the agent's own and started its renewal. If there is no such
  attempt, \<open>Lock\<close> returns the timeout error after its last attempt and has left the lease alone,
  except that a last attempt that comes late enough has deleted it and \<open>Lock\<close> still gives up.\<close>

theorem Lock_outlasts_holder:
  assumes "lease_laws A k" "clock_laws A pass k" "\<And>d w. same_store A w (pass d w)"
    and "api_up A k" "create_up A k"
    and "1 \<le> sint (leaseDuration k)" "sint (leaseDuration k) \<le> 9223372036"
    and "look A w = Some l" "held_by_other k l" "RenewTime l = Some r"
    and "length ds < bo_Steps lock_backoff"
  shows "outwaited A k (r + sint (leaseDuration k) * 10 ^ 9) (api_clock A w) ds rest obj w
    (kube_Lock (spaced_backoff pass ds rest) (api_client A) (api_clock A) k (obj, w))"
proof -
  let ?e = "r + sint (leaseDuration k) * 10 ^ 9"
  have "lease_expired k t l \<longleftrightarrow> ?e < t" for t
    using assms(6,7,10) by (auto simp: lease_expired_iff)
  from attempts_outwait [OF assms(1-5) this assms(9,8), of ds rest obj] assms(11)
  show ?thesis by (simp add: kube_Lock_def spaced_backoff_def)
qed

subsection \<open>Two agents that find the same lease expired\<close>

lemma step_create_free:
  assumes "timed_setting A pass ks T" "create_up A (ks i)" "look A w = None"
  shows "\<exists>w'. call_step A (ks i) Creating w = Some (Inside, w') \<and> own_fresh A (ks i) w'"
  using create_free [OF timed_settingD(1,2) [OF assms(1)] assms(2,3)]
  by (auto simp: call_step_def create_call_def)

lemma step_delete:
  assumes "timed_setting A pass ks T" "api_up A (ks i)" "look A w \<noteq> None"
  shows "\<exists>w'. call_step A (ks i) Deleting w = Some (BackingOff, w') \<and> look A w' = None"
  using delete_up [OF timed_settingD(1) [OF assms(1)] assms(2,3)]
  by (auto simp: call_step_def delete_call_def)

text \<open>The \<open>Delete\<close> of an agent that has found the lease expired, a wait, and its next attempt: the agent
  is inside, whatever lease was stored and whoever is inside already.\<close>

lemma delete_and_enter:
  assumes set: "timed_setting A pass ks T" and "api_up A (ks i)" "create_up A (ks i)"
    and "look A (the_world s) \<noteq> None" "pcs s i = Deleting"
  shows "\<exists>t. follow (act A pass ks) [Call i, Pass d, Lock_begin i, Call i] s = Some t \<and>
    in_critical t i \<and> own_fresh A (ks i) (the_world t) \<and> (\<forall>j. j \<noteq> i \<longrightarrow> pcs t j = pcs s j)"
proof -
  from step_delete [OF assms(1,2,4)] obtain w1 where
    w1: "call_step A (ks i) Deleting (the_world s) = Some (BackingOff, w1)" "look A w1 = None" by blast
  have "look A (pass d w1) = None" using timed_settingD(4) [OF set, of w1 d] w1(2) by (simp add: same_store_def)
  from step_create_free [OF assms(1,3) this] w1(1) assms(5) show ?thesis
    by (auto simp: guard_def in_critical_def)
qed

text \<open>C5. Two agents that have found the same lease expired both get the lock. Agent \<open>i\<close> deletes the
  lease, waits and creates its own; now \<open>i\<close> is inside, with a lease renewed at this very moment. The
  \<open>Delete\<close> of agent \<open>j\<close>, which names no version, removes \<^emph>\<open>that\<close> lease, and \<open>j\<close> creates its own and is
  inside together with \<open>i\<close>. This is so for every API server, every setting and all waits \<open>d\<close> and \<open>e\<close>,
  and no agent, call or clock has to fail from here on.\<close>

theorem late_delete_lets_second_in:
  assumes "timed_setting A pass ks T" "api_up A (ks i)" "create_up A (ks i)" "api_up A (ks j)" "create_up A (ks j)"
    and "i \<noteq> j" "look A (the_world s) \<noteq> None" "pcs s i = Deleting" "pcs s j = Deleting"
  shows "\<exists>t u. follow (act A pass ks) [Call i, Pass d, Lock_begin i, Call i] s = Some t \<and>
    in_critical t i \<and> own_fresh A (ks i) (the_world t) \<and>
    follow (act A pass ks) [Call j, Pass e, Lock_begin j, Call j] t = Some u \<and>
    in_critical u i \<and> in_critical u j \<and> own_fresh A (ks j) (the_world u)"
proof -
  from delete_and_enter [OF assms(1-3,7,8)] obtain t where
    t: "follow (act A pass ks) [Call i, Pass d, Lock_begin i, Call i] s = Some t" "in_critical t i"
    "own_fresh A (ks i) (the_world t)" "\<forall>j. j \<noteq> i \<longrightarrow> pcs t j = pcs s j" by blast
  have "look A (the_world t) \<noteq> None" "pcs t j = Deleting"
    using t(3,4) assms(6,9) by (auto simp: own_fresh_def)
  from delete_and_enter [OF assms(1,4,5) this, of e] obtain u where
    "follow (act A pass ks) [Call j, Pass e, Lock_begin j, Call j] t = Some u" "in_critical u j"
    "own_fresh A (ks j) (the_world u)" "\<forall>m. m \<noteq> j \<longrightarrow> pcs u m = pcs t m" by blast
  with t(1-3) assms(6) show ?thesis by (auto simp del: follow.simps simp: in_critical_def)
qed

subsection \<open>Concrete runs\<close>

lemma store_timed: "timed_setting store_api let_pass lock_of 5"
proof -
  have "clock_laws store_api let_pass (lock_of i)" for i
    by (auto simp: clock_laws_def store_api_def store_client_def store_write_def let_pass_def
        split: option.split)
  then show ?thesis by (simp add: timed_setting_def store_setting lock_of_def)
qed

lemma store_update_up: "update_up store_api k"
  by (auto simp: update_up_def store_api_def store_client_def store_write_def)

text \<open>The lease just created, renewed by two ticks of a ticker with 2.5 seconds, the second one late.\<close>

lemma renewal_keeps_lease_witness:
  "\<exists>w' l. renewLeasePeriodically store_client store_clock example_lock
      [Tick (let_pass 2500000000), Tick (let_pass 4000000000)]
      (snd (store_write (new_lease example_lock 0) fresh_store)) = (Ok (), w') \<and>
    stored w' = Some l \<and> RenewTime l = Some 6500000000 \<and>
    \<not> lease_expired (lock_of 1) (store_clock (let_pass 5000000000 w')) l"
proof -
  let ?w = "snd (store_write (new_lease example_lock 0) fresh_store)"
  have laws: "clock_laws store_api let_pass example_lock"
    by (auto simp: clock_laws_def store_api_def store_client_def store_write_def let_pass_def
        split: option.split)
  have held: "held_since store_api example_lock ?w (api_clock store_api ?w)"
    by (simp add: held_since_def store_api_def store_write_def new_lease_def fresh_store_def)
  have tick: "same_store store_api w (let_pass d w)" for d w
    by (simp add: same_store_def store_api_def let_pass_def)
  have d: "leaseDuration (lock_of 1) = leaseDuration example_lock"
    and p: "2 * sint (renew_period example_lock) = 5000000000"
    by (simp_all add: lock_of_def example_lock_def renew_period_exact)
  have c0: "store_clock ?w = 0" by (simp add: store_write_def fresh_store_def)
  have c: "api_client store_api = store_client" "api_clock store_api = store_clock"
    "look store_api = stored"
    by (simp_all add: store_api_def)
  have "1 \<le> sint (leaseDuration example_lock)" "sint (leaseDuration example_lock) \<le> 9223372036"
    by (simp_all add: example_lock_def)
  from renewal_keeps_lease [OF store_laws laws store_up store_update_up tick this held,
      of "[2500000000, 4000000000]"] obtain w' l where
    w': "renewLeasePeriodically store_client store_clock example_lock
      [Tick (let_pass 2500000000), Tick (let_pass 4000000000)] ?w = (Ok (), w')"
      "stored w' = Some l" "RenewTime l = Some (store_clock w')" "store_clock w' = 6500000000"
    and e: "\<And>k' e. leaseDuration k' = leaseDuration example_lock \<Longrightarrow> int e \<le> 5000000000 \<Longrightarrow>
      \<not> lease_expired k' (store_clock (let_pass e w')) l"
    unfolding c p c0 by auto
  from w' e [OF d, of 5000000000] show ?thesis by auto
qed

text \<open>Agent 0 has crashed with its lease renewed at time 0, which lives for 5 seconds. Agent 1 makes its
  attempts two seconds apart: the one after 6 seconds deletes the lease and the one after 8 seconds
  gets the lock. With four attempts in place of five it deletes the lease and gives up.\<close>

lemma outwaited_steps:
  assumes "outwaited A k 5000000000 0 (replicate m 2000000000) 0 obj w (r, obj', w')"
  shows "m = 4 \<Longrightarrow> r = Ok () \<and> obj' = started obj \<and> own_fresh A k w' \<and> api_clock A w' = 8000000000"
    and "m = 3 \<Longrightarrow> r = Fail ErrWaitTimeout \<and> obj' = obj \<and> look A w' = None"
proof -
  have sum: "sum_list (take n (replicate m (2000000000 :: nat))) = min n m * 2000000000" for n
    by (simp add: take_replicate sum_list_replicate)
  note out = assms [unfolded outwaited_def sum prod.case length_replicate]
  show "r = Ok () \<and> obj' = started obj \<and> own_fresh A k w' \<and> api_clock A w' = 8000000000" if "m = 4"
  proof -
    have "\<exists>n < m. 5000000000 < 0 + int (min n m * 2000000000)" using that by (intro exI [of _ 3]) simp
    with out obtain n where "r = Ok ()" "obj' = started obj" "own_fresh A k w'" "n < m"
      "5000000000 < 0 + int (min n m * 2000000000)" "api_clock A w' = 0 + int (min (Suc n) m * 2000000000)"
      by (simp only: if_True) blast
    moreover from this have "n = 3" using that by simp
    ultimately show ?thesis using that by simp
  qed
  show "r = Fail ErrWaitTimeout \<and> obj' = obj \<and> look A w' = None" if "m = 3"
  proof -
    have no: "\<not> (\<exists>n < m. 5000000000 < 0 + int (min n m * 2000000000))" using that by auto
    have "5000000000 < 0 + int (sum_list (replicate m (2000000000 :: nat)))"
      using that by (simp add: sum_list_replicate)
    with out [unfolded if_not_P [OF no]] show ?thesis by simp
  qed
qed

lemma Lock_outlasts_holder_witness:
  "\<exists>w'. kube_Lock (spaced_backoff let_pass (replicate 4 2000000000) 0)
      store_client store_clock (lock_of 1)
      (idle_lock, snd (store_write (new_lease (lock_of 0) 0) fresh_store)) = (Ok (), (started idle_lock, w')) \<and>
    own_fresh store_api (lock_of 1) w' \<and> store_clock w' = 8000000000 \<and>
    (\<exists>w''. kube_Lock (spaced_backoff let_pass (replicate 3 2000000000) 0)
      store_client store_clock (lock_of 1)
      (idle_lock, snd (store_write (new_lease (lock_of 0) 0) fresh_store)) =
        (Fail ErrWaitTimeout, (idle_lock, w'')) \<and> stored w'' = None)"
proof -
  let ?w = "snd (store_write (new_lease (lock_of 0) 0) fresh_store)"
  let ?l = "new_lease (lock_of 0) 0\<lparr>ResourceVersion := 1\<rparr>"
  let ?lock = "\<lambda>ds. kube_Lock (spaced_backoff let_pass ds 0) store_client store_clock (lock_of 1) (idle_lock, ?w)"
  have laws: "clock_laws store_api let_pass (lock_of 1)"
    by (auto simp: clock_laws_def store_api_def store_client_def store_write_def let_pass_def
        split: option.split)
  have tick: "same_store store_api w (let_pass d w)" for d w
    by (simp add: same_store_def store_api_def let_pass_def)
  have T: "sint (leaseDuration (lock_of 1)) = 5" by (simp add: lock_of_def)
  have w: "look store_api ?w = Some ?l" "api_clock store_api ?w = 0" "held_by_other (lock_of 1) ?l"
    "RenewTime ?l = Some 0"
    by (simp_all add: store_api_def store_write_def fresh_store_def new_lease_def held_by_other_def lock_of_def)
  have c: "api_client store_api = store_client" "api_clock store_api = store_clock" "look store_api = stored"
    by (simp_all add: store_api_def)
  have "outwaited store_api (lock_of 1) 5000000000 0 ds 0 idle_lock ?w (?lock ds)" if "length ds < 100" for ds
    using Lock_outlasts_holder [OF store_laws laws tick store_up store_create_up _ _ w(1,3,4),
        of ds 0 idle_lock] that T w(2) by (simp add: c lock_backoff_def)
  note out = this
  let ?ds = "\<lambda>n. replicate n 2000000000 :: nat list"
  obtain r1 o1 w1 where 1: "?lock (?ds 4) = (r1, o1, w1)" by (cases "?lock (?ds 4)") auto
  obtain r2 o2 w2 where 2: "?lock (?ds 3) = (r2, o2, w2)" by (cases "?lock (?ds 3)") auto
  have "r1 = Ok () \<and> o1 = started idle_lock \<and> own_fresh store_api (lock_of 1) w1 \<and> store_clock w1 = 8000000000"
    using outwaited_steps(1) [of store_api "lock_of 1" 4 idle_lock ?w r1 o1 w1] out [of "?ds 4"] 1 by (simp add: c)
  moreover have "r2 = Fail ErrWaitTimeout \<and> o2 = idle_lock \<and> stored w2 = None"
    using outwaited_steps(2) [of store_api "lock_of 1" 3 idle_lock ?w r2 o2 w2] out [of "?ds 3"] 2 by (simp add: c)
  ultimately show ?thesis using 1 2 by simp
qed

text \<open>Agent 0 has crashed, and agents 1 and 2 have read its lease after it has expired.\<close>

definition stale_run :: "action list" where
  "stale_run = [Lock_begin 0, Call 0, Crash 0, Pass 10000000000,
     Lock_begin 1, Call 1, Call 1, Lock_begin 2, Call 2, Call 2]"

lemma late_delete_lets_second_in_witness:
  "\<exists>s u. run stale_run = Some s \<and>
     follow (act store_api let_pass lock_of) [Call 1, Pass 1000000000, Lock_begin 1, Call 1,
       Call 2, Pass 1000000000, Lock_begin 2, Call 2] s = Some u \<and>
     in_critical u 1 \<and> in_critical u 2"
proof -
  have "\<exists>s. run stale_run = Some s \<and> stored (the_world s) \<noteq> None \<and> pcs s 1 = Deleting \<and> pcs s 2 = Deleting"
    by (simp add: stale_run_def run_defs)
  then obtain s where s: "run stale_run = Some s" "stored (the_world s) \<noteq> None" "pcs s 1 = Deleting"
    "pcs s 2 = Deleting" by blast
  have "look store_api (the_world s) \<noteq> None" using s(2) by (simp add: store_api_def)
  from late_delete_lets_second_in [OF store_timed store_up store_create_up store_up store_create_up _ this s(3,4),
      of 1000000000 1000000000] obtain t u where
    tu: "follow (act store_api let_pass lock_of) [Call 1, Pass 1000000000, Lock_begin 1, Call 1] s = Some t"
    "follow (act store_api let_pass lock_of) [Call 2, Pass 1000000000, Lock_begin 2, Call 2] t = Some u"
    "in_critical u 1" "in_critical u 2" by auto
  have "follow (act store_api let_pass lock_of) [Call 1, Pass 1000000000, Lock_begin 1, Call 1,
       Call 2, Pass 1000000000, Lock_begin 2, Call 2] s = Some u"
    using follow_append [of "act store_api let_pass lock_of" "[Call 1, Pass 1000000000, Lock_begin 1, Call 1]"
        "[Call 2, Pass 1000000000, Lock_begin 2, Call 2]" s] tu(1,2)
    by (simp del: follow.simps)
  with s(1) tu(3,4) show ?thesis by blast
qed

end
