(* ===== verification/Spec2Isabelle.thy ===== *)
theory Spec2Isabelle
  imports Cli Clouds Progress LeaseTiming
begin

text \<open>
  kubeip: static public addresses for the nodes of a Kubernetes cluster.

  THE PROGRAM. An agent runs on every node. \<open>run\<close> (cmd/main.go) discovers its node through the
  Kubernetes API (internal/node/explorer.go), makes the assigner of the node's cloud
  (internal/address/assigner.go), and then, at most once per tick and under a lock shared by the
  whole cluster (internal/lease/lock.go), asks the assigner for an address. The assigners
  (internal/address/aws.go, gcp.go, oci.go, azure.go) pick a free address of the account that passes
  the configured filters and attach it to the instance, through thin services over the cloud SDKs
  (internal/cloud). If a taint key is configured, the agent waits until its node reports the address
  and removes the taint (internal/node/tainter.go). At the end of its context it detaches the address
  again, if so configured. The lock is there because choosing and attaching an address are
  separate calls: without it two agents could choose the same one.

  HOW GO IS RENDERED (theory Prelude). A function with results \<open>(T, error)\<close> is a \<open>('w, 'a) prog\<close>: it
  takes the outside world and returns \<open>Ok\<close>, \<open>Fail\<close> with the error, or \<open>Abort\<close> (a panic, or a loop out
  of fuel), and the next world. \<open>check\<close> is the idiom \<open>if err != nil { return wrap(err) }\<close>, \<open>attempt\<close>
  the general case distinction on an error, \<open>lift (deref p)\<close> the dereference of a pointer. The world
  \<open>'w\<close> is left open: it holds the cloud, the API server and the clock, and the theorems hold for
  each of them. Machine integers are \<open>64 word\<close> and wrap; pointers and nil maps are options; a Go map
  is an association list in the order in which the range loop visits it, or an unordered lookup.
  Functions and constants have the names of the source; where several files use one name, it has
  the prefix of its file (\<open>gcp_Assign\<close>, \<open>aws_Assign\<close>, \<open>svc_GetPrimaryVnic\<close>).

  THE THEORIES, in the order of their imports, and what their lemmas show.
  \<^item> Prelude, GoStrings, GoSort, NetIP: errors, programs and their rules; the parts of the Go library
    the program computes with. \<open>sort.Slice\<close> with panicking comparisons (permutation, order and panics,
    as the locale \<open>slice_sort\<close>), \<open>net.ParseIP\<close> and \<open>IP.String\<close> (round trip of all addresses of 16 bytes).
  \<^item> NodeTypes (internal/types/node.go, internal/config/config.go) and Filters
    (internal/types/filters.go): the data the parts exchange; the tag filters of OCI.
  \<^item> Explorer: \<open>GetNode\<close> with its helpers; when discovery succeeds and what each field is, told in
    terms of the texts of the API object and not of the helpers; its results are well-formed nodes, whose addresses print and parse back.
  \<^item> Tainter: \<open>RemoveTaintKey\<close>; it implements removal of a key from the taints the server stores.
  \<^item> CloudAws, CloudGcp, CloudOci (internal/cloud): the services, with the laws of the listings
    that the assigners rely on as locales.
  \<^item> Aws, Gcp, Oci: the assigners. For each: what a successful \<open>Assign\<close> and \<open>Unassign\<close> have done to the
    cloud and in which order, the parsers of filters, the listing loops, the waiting and retry loops.
  \<^item> Progress: when an assigner finds an address. Total correctness triples (\<open>yields\<close>, \<open>settles\<close> of Prelude)
    show that with a candidate that can be attached \<open>Assign\<close> returns the address of a listed candidate,
    and leaves that candidate attached, whatever happens to the others.
  \<^item> Assigner: the interface as a record with the locale \<open>assigner_contract\<close>, interpreted for the four
    clouds, and the factory.
  \<^item> Lease: \<open>Lock\<close>, \<open>Unlock\<close> and the renewal goroutine of one agent; timing arithmetic, what \<open>Lock\<close>
    has acquired, \<open>Unlock\<close> after \<open>Lock\<close>.
  \<^item> Lts, LeaseProtocol: the same code cut at its API calls, for all agents of a cluster at once;
    mutual exclusion by an invariant of the reachable states, and an \<open>Unlock\<close> between two calls of
    another agent's \<open>Lock\<close>, which makes that \<open>Lock\<close> fail. The steps composed without interruption are
    the code of Lease again.
  \<^item> LeaseTiming: the same runs with a clock. The renewal loop writes a new time at every tick; a run is
    timely if the stored lease never gets older than its duration, and in timely runs the one inside
    holds an unexpired lease. How \<open>Lock\<close> ends when another holder's lease is left behind, for every
    series of waits; and how two agents that both found a lease expired both get inside.
  \<^item> Agent: \<open>assignAddress\<close> with its ticker and retries, the wait for the reported address, \<open>run\<close>;
    what has happened whenever a run ends in a certain way. That the taint is patched away only when
    the node is ready is stated by comparing a run with the one in which patching does something else.
  \<^item> Clouds: the agent composed with the assigner of each cloud: what the address that \<open>assignAddress\<close>
    returns, and the release at the end of \<open>run\<close>, are in terms of calls to the client that the SDK
    constructor returned to this run.
  \<^item> Cli: the table of flags and the configuration their defaults amount to.
  \<^item> Spec2Isabelle: exclusion of the agents in timely runs, through the locks that \<open>assignAddress\<close> makes.

  PARAMETERS. Code outside this repository is an argument of the definitions: the SDK clients
  (\<open>ec2_client\<close>, \<open>compute_service\<close> for GCP, \<open>compute_client\<close> and \<open>core_client\<close> for OCI), the
  Kubernetes clients (\<open>lease_client\<close>, \<open>node_client\<close>), the metadata server, \<open>json.Marshal\<close>, the kube config sources, the clock, the outcome of each
  \<open>select\<close>, the order of a map, \<open>wait.ExponentialBackoff\<close>, and the sort of slices longer than twelve
  elements. What a theorem needs of them it states: \<open>lease_laws\<close> (create succeeds only where there
  is no lease, get returns the stored one, update writes only over the version it was given, delete
  removes; a write answered by an error may have been carried out all the same), \<open>clock_laws\<close> (calls
  take no time of their own, time passes between them), \<open>create_up\<close> and \<open>update_up\<close> (the server
  accepts a create where there is no lease, an update of the stored version), \<open>api_up\<close> (the
  API server answers), \<open>follows_backoff\<close> (the backoff succeeds or fails only as an attempt of its
  closure did, or by timing out), \<open>patch_sets_taints\<close> (a patch replaces the taint list),
  \<open>wait_laws\<close> (a wait call that brings no end of the operation takes some time, and a call on a context
  that has ended fails), \<open>setting\<close> and
  \<open>timed_setting\<close> (agents with different identities, and one lease duration, on one lease). Each has
  a concrete instance in a witness.

  LOOPS. Loops over lists are recursive on them. The ticker loops of cmd/main.go count up to the
  64-bit \<open>RetryAttempts\<close>, by a measure; the ten attempts of \<open>retryAddEphemeralAddress\<close> are a bounded
  loop. Two loops may run forever in Go and take fuel here, and running out is \<open>Abort\<close>: the pages of
  a GCP listing, where \<open>gcp_list_all_pages\<close> shows that any fuel of at least the number of pages
  gives all of them; and \<open>waitForOperation\<close>, where \<open>wait_for_operation_returns\<close> shows that the code's
  own deadline ends the loop: if an unfinished wait call takes at least \<open>D\<close>, then fuel of the timeout
  divided by \<open>D\<close>, plus one, suffices and more fuel gives the same result. The attempts of \<open>Lock\<close> are
  those of \<open>wait.ExponentialBackoff\<close>, a parameter; \<open>spaced_backoff\<close> of LeaseTiming is its documented
  run, for any waits.

  CONCURRENCY. An agent has one goroutine beside \<open>run\<close>, the renewal of the lease while an address is
  being assigned. In Lease it is a loop over events of its own, and the lock object records which
  renewals are alive; in LeaseProtocol its read and its write of the lease are steps that interleave
  with those of every agent, time passes between steps, and an agent may stop at any point.
  Limits of this picture: an API call is one step, and except for the update of a renewal it is not
  carried out later than that step, so the \<open>Delete\<close> of an \<open>Unlock\<close> that arrives after its agent
  has given up or crashed is left out; all agents read one clock, where Go compares the local clock with a time written by
  another node; instants are stored exactly, where \<open>MicroTime\<close> keeps microseconds; and
  \<open>assignAddress\<close> does not run the renewal goroutine it starts, so that goroutine's panic for a lease
  duration of zero or less (\<open>nonpositive_duration_panics\<close> of Lease) is not an outcome of
  \<open>assignAddress\<close>.

  NOT MODELLED. Log messages and their format, the version printer, signal set-up and
  exit code, the generated mocks, the Helm chart and Terraform examples: none of them takes part
  in a decision of the program.
\<close>

subsection \<open>The agents of a cluster\<close>

lemma node_locks_timed:
  assumes "\<And>i j. Instance (nodes i) = Instance (nodes j) \<Longrightarrow> i = j"
    and "\<And>i. lease_laws A (node_lock (nodes i) cfg)"
    and "\<And>i. clock_laws A pass (node_lock (nodes i) cfg)" and "\<And>d w. same_store A w (pass d w)"
    and "1 \<le> sint (LeaseDuration cfg)" "sint (LeaseDuration cfg) \<le> 9223372036"
  shows "timed_setting A pass (\<lambda>i. node_lock (nodes i) cfg) (sint (LeaseDuration cfg))"
  using assms by (auto simp: timed_setting_def setting_def node_lock_def NewKubeLeaseLock_def)

text \<open>C1. The agents exclude each other: take the locks that \<open>assignAddress\<close> makes for nodes with pairwise
  distinct instance IDs and one configuration. Over a server that keeps its promises, in every run in
  which time never makes the stored lease older than the configured duration, whatever crashes,
  fails or is delayed, at most one agent is between a \<open>Lock\<close> that succeeded and its \<open>Unlock\<close>; and
  meanwhile the stored lease names that agent's instance and is not expired.\<close>

theorem agents_exclude_each_other:
  assumes "\<And>i j. Instance (nodes i) = Instance (nodes j) \<Longrightarrow> i = j"
    and "\<And>i. lease_laws A (node_lock (nodes i) cfg)"
    and "\<And>i. clock_laws A pass (node_lock (nodes i) cfg)" and "\<And>d w. same_store A w (pass d w)"
    and "1 \<le> sint (LeaseDuration cfg)" "sint (LeaseDuration cfg) \<le> 9223372036"
    and "reach (start A)
      (timely_step A pass (\<lambda>i. node_lock (nodes i) cfg) (sint (LeaseDuration cfg))) s"
    and "in_critical s i"
  shows "(\<forall>j. in_critical s j \<longrightarrow> j = i) \<and> (\<exists>l. look A (the_world s) = Some l \<and>
    HolderIdentity l = Some (Instance (nodes i)) \<and>
    (\<forall>j. \<not> lease_expired (node_lock (nodes j) cfg) (api_clock A (the_world s)) l))"
proof -
  note set = node_locks_timed [of nodes, OF assms(1-6)]
  have expired: "lease_expired (node_lock (nodes j) cfg) t l \<longleftrightarrow>
      (\<exists>r. RenewTime l = Some r \<and> sint (LeaseDuration cfg) * 10 ^ 9 < t - r)" for j t l
    by (rule timed_settingD(6) [OF set])
  have "holderIdentity (node_lock (nodes i) cfg) = Instance (nodes i)"
    by (simp add: node_lock_def NewKubeLeaseLock_def)
  with timely_exclusion [OF set assms(7,8)] show ?thesis by (fastforce simp: expired)
qed

definition ex_nodes :: "nat \<Rightarrow> Node" where
  "ex_nodes i = example_node\<lparr>Instance := replicate i CHR ''n''\<rparr>"

abbreviation ex_locks :: "nat \<Rightarrow> kubeLeaseLock" where
  "ex_locks \<equiv> (\<lambda>i. node_lock (ex_nodes i) ex_cfg)"

definition late_run :: "action list" where
  "late_run = [Lock_begin 0, Call 0, Pass 3000000000, Renew_read 0, Pass 1000000000, Renew_write 0 0,
     Pass 4000000000]"

text \<open>Agent 0 inside for eight seconds with leases of five, thanks to a renewal that is a second late.\<close>

lemma ex_first_agent_inside:
  "\<exists>s. reach (start store_api) (timely_step store_api let_pass ex_locks 5) s \<and> in_critical s 0"
proof -
  let ?f = "\<lambda>a s. Option.bind (act store_api let_pass ex_locks a s)
    (\<lambda>t. guard (young store_api 5 (the_world t)) (Some t))"
  have step: "timely_step store_api let_pass ex_locks 5 s t" if "?f a s = Some t" for a s t
    using that unfolding timely_step_def
    by (auto simp: bind_eq_Some_conv guard_def split: if_splits)
  obtain s where s: "follow ?f late_run first_cluster = Some s" "in_critical s 0"
    by (simp add: late_run_def young_def run_defs renew_read_def renew_write_def in_critical_def
        node_lock_def NewKubeLeaseLock_def)
  have "reach (start store_api) (timely_step store_api let_pass ex_locks 5) s"
    by (rule follow_reach [where f = ?f, OF step reach_init [of "start store_api", OF start_first] s(1)])
  with s(2) show ?thesis by blast
qed

lemma agents_exclude_each_other_witness:
  "\<exists>s. reach (start store_api) (timely_step store_api let_pass ex_locks 5) s \<and>
     {j. in_critical s j} = {0} \<and> holder store_api (the_world s) = Some []"
proof -
  obtain s where s: "reach (start store_api) (timely_step store_api let_pass ex_locks 5) s" "in_critical s 0"
    using ex_first_agent_inside by blast
  have inj: "i = j" if "Instance (ex_nodes i) = Instance (ex_nodes j)" for i j
    using that by (simp add: ex_nodes_def)
  have clock: "clock_laws store_api let_pass (ex_locks i)" for i
    by (auto simp: clock_laws_def store_api_def store_client_def store_write_def let_pass_def
        split: option.split)
  have tick: "same_store store_api w (let_pass d w)" for d w
    by (simp add: same_store_def store_api_def let_pass_def)
  have d: "sint (LeaseDuration ex_cfg) = 5" by (simp add: ex_cfg_def)
  have "reach (start store_api) (timely_step store_api let_pass ex_locks (sint (LeaseDuration ex_cfg))) s"
    using s(1) by (simp add: d)
  from agents_exclude_each_other [OF inj store_laws clock tick _ _ this s(2)] s show ?thesis
    by (auto simp: d holder_def ex_nodes_def)
qed

end
